theory Spec2Isabelle
  imports Complex_Main "HOL-Library.Signed_Division"
begin

section \<open>Fire-extinguishing simulation over a row-partitioned grid\<close>

text \<open>
  The development follows the simulation program: every worker (MPI rank) owns
  \<open>chunk = rows div size\<close> consecutive global rows, stored with one halo row above and
  one below in a flat buffer of \<open>(chunk + 2) * columns\<close> cells, and holds a full copy of
  the team and focal-point arrays.  C \<open>int\<close> is modelled by \<open>int\<close> (the program
  never relies on wrap-around).  The temperatures, C \<open>float\<close>, are modelled by \<open>real\<close>
  without rounding.  The distances that choose the target of a team are \<open>float\<close> too,
  and there rounding decides the outcome, so for them the binary32 operations are written
  out.
\<close>

subsection \<open>Data\<close>

record Team =
  t_x :: int
  t_y :: int
  t_type :: int
  t_target :: int

text \<open>Field \<open>f_active\<close>: 0 not yet activated, 1 active, 2 deactivated by a team.\<close>

record FocalPoint =
  f_x :: int
  f_y :: int
  f_start :: int
  f_heat :: int
  f_active :: int

definition RADIUS_TYPE_1 :: int where
  "RADIUS_TYPE_1 = 3"

definition RADIUS_TYPE_2_3 :: int where
  "RADIUS_TYPE_2_3 = 9"

definition THRESHOLD :: real where
  "THRESHOLD = 1 / 10"

text \<open>The macro \<open>accessMat(arr, exp1, exp2)\<close> is \<open>arr[(exp1) * columns + (exp2)]\<close>.\<close>

definition idx :: "int \<Rightarrow> int \<Rightarrow> int \<Rightarrow> nat" where
  "idx columns i j = nat (i * columns + j)"

definition accessMat :: "real list \<Rightarrow> int \<Rightarrow> int \<Rightarrow> int \<Rightarrow> real" where
  "accessMat arr columns i j = arr ! idx columns i j"

definition setMat :: "real list \<Rightarrow> int \<Rightarrow> int \<Rightarrow> int \<Rightarrow> real \<Rightarrow> real list" where
  "setMat arr columns i j v = arr[idx columns i j := v]"

subsection \<open>Allocation checks\<close>

text \<open>
  What the program does after a \<open>malloc\<close>: the lines written to standard error and
  how control continues.  \<open>None\<close> stands for a \<open>NULL\<close> result.
\<close>

datatype control = Continue | Exit | MPI_Abort

text \<open>The conversion \<open>%d\<close> of \<open>fprintf\<close>.\<close>

fun digits :: "nat \<Rightarrow> string" where
  "digits n = (if n < 10 then [''0123456789'' ! n]
               else digits (n div 10) @ [''0123456789'' ! (n mod 10)])"

declare digits.simps [simp del]

definition decimal :: "int \<Rightarrow> string" where
  "decimal n = (if n < 0 then CHR ''-'' # digits (nat (- n)) else digits (nat n))"

definition teams_alloc_check :: "int \<Rightarrow> 'a option \<Rightarrow> string list \<times> control" where
  "teams_alloc_check num_teams teams =
     (if teams = None
      then ([''-- Error allocating: '' @ decimal num_teams @ '' teams''], Exit)
      else ([], Continue))"

definition focal_alloc_check_file :: "int \<Rightarrow> 'a option \<Rightarrow> string list \<times> control" where
  "focal_alloc_check_file num_focal focal =
     (if focal = None
      then ([''-- Error allocating: '' @ decimal num_focal @ '' focal points''], Exit)
      else ([], Continue))"

text \<open>On the command-line path the test after allocating \<open>focal\<close> reads \<open>teams\<close>.\<close>

definition focal_alloc_check_args ::
  "int \<Rightarrow> 'a option \<Rightarrow> 'b option \<Rightarrow> string list \<times> control" where
  "focal_alloc_check_args num_focal teams focal =
     (if teams = None
      then ([''-- Error allocating: '' @ decimal num_focal @ '' focal points''], Exit)
      else ([], Continue))"

definition surface_alloc_check :: "'a option \<Rightarrow> 'a option \<Rightarrow> string list \<times> control" where
  "surface_alloc_check surface surfaceCopy =
     (if surface = None \<or> surfaceCopy = None
      then ([''-- Error allocating: surface structures''], Continue)
      else ([], Continue))"

definition fullSurface_alloc_check :: "'a option \<Rightarrow> string list \<times> control" where
  "fullSurface_alloc_check fullSurface =
     (if fullSurface = None
      then ([''-- Error allocating: fullSurface on rank 0''], MPI_Abort)
      else ([], Continue))"

subsection \<open>Partition\<close>

text \<open>
  \<open>chunk = global_rows / size\<close> (C division truncates; \<open>nprocs\<close> is the communicator size), \<open>g_start = rank * chunk\<close>,
  \<open>g_end = g_start + chunk - 1\<close>.
\<close>

definition chunk_of :: "int \<Rightarrow> int \<Rightarrow> int" where
  "chunk_of global_rows nprocs = global_rows sdiv nprocs"

definition g_start_of :: "int \<Rightarrow> int \<Rightarrow> int" where
  "g_start_of chunk rank = rank * chunk"

definition g_end_of :: "int \<Rightarrow> int \<Rightarrow> int" where
  "g_end_of chunk rank = g_start_of chunk rank + chunk - 1"

subsection \<open>Step 4.1: activation of focal points and the local count\<close>

fun activate_focal :: "int \<Rightarrow> FocalPoint list \<Rightarrow> FocalPoint list \<times> int" where
  "activate_focal iter [] = ([], 0)"
| "activate_focal iter (f # fs) =
     (let f' = (if f_start f = iter then f\<lparr>f_active := 1\<rparr> else f);
          (fs', n) = activate_focal iter fs
      in (f' # fs', if f_active f' = 2 then n + 1 else n))"

text \<open>\<open>MPI_Allreduce\<close> with \<open>MPI_SUM\<close> and with \<open>MPI_MAX\<close>, over one value per rank.\<close>

definition MPI_Allreduce_SUM :: "int list \<Rightarrow> int" where
  "MPI_Allreduce_SUM locals = sum_list locals"

fun MPI_Allreduce_MAX :: "real list \<Rightarrow> real" where
  "MPI_Allreduce_MAX [] = 0"
| "MPI_Allreduce_MAX (v # vs) = fold max vs v"

subsection \<open>Step 4.2.1: heat of the active focal points\<close>

definition heat_write :: "int \<Rightarrow> int \<Rightarrow> int \<Rightarrow> int \<Rightarrow> FocalPoint \<Rightarrow> real list \<Rightarrow> real list" where
  "heat_write global_rows columns g_start g_end f surface =
     (if f_active f \<noteq> 1 then surface
      else let gx = f_x f; gy = f_y f in
        if gx < 0 \<or> gx > global_rows - 1 \<or> gy < 0 \<or> gy > columns - 1 then surface
        else if gx \<ge> g_start \<and> gx \<le> g_end
          then let local_i = (gx - g_start) + 1
               in setMat surface columns local_i gy (real_of_int (f_heat f))
          else surface)"

definition update_heat :: "int \<Rightarrow> int \<Rightarrow> int \<Rightarrow> int \<Rightarrow> FocalPoint list \<Rightarrow> real list \<Rightarrow> real list" where
  "update_heat global_rows columns g_start g_end focal surface =
     fold (heat_write global_rows columns g_start g_end) focal surface"

subsection \<open>Step 4.2.3: the stencil\<close>

definition stencil_cell :: "real list \<Rightarrow> int \<Rightarrow> int \<Rightarrow> int \<Rightarrow> real" where
  "stencil_cell surfaceCopy columns i j =
     (accessMat surfaceCopy columns (i - 1) j + accessMat surfaceCopy columns (i + 1) j +
      accessMat surfaceCopy columns i (j - 1) + accessMat surfaceCopy columns i (j + 1)) / 4"

definition update_row :: "real list \<Rightarrow> int \<Rightarrow> int \<Rightarrow> real list \<Rightarrow> real list" where
  "update_row surfaceCopy columns i surface =
     fold (\<lambda>j s. setMat s columns i j (stencil_cell surfaceCopy columns i j))
       [1..columns - 2] surface"

definition update_surface ::
  "int \<Rightarrow> int \<Rightarrow> int \<Rightarrow> int \<Rightarrow> real list \<Rightarrow> real list \<Rightarrow> real list" where
  "update_surface global_rows columns chunk g_start surfaceCopy surface =
     fold (\<lambda>i s. let gx = g_start + (i - 1) in
                  if gx < 1 \<or> gx > global_rows - 2 then s
                  else update_row surfaceCopy columns i s)
       [1..chunk] surface"

subsection \<open>Step 4.2.4: the local residual\<close>

definition residual_row :: "real list \<Rightarrow> real list \<Rightarrow> int \<Rightarrow> int \<Rightarrow> real \<Rightarrow> real" where
  "residual_row surface surfaceCopy columns i local_residual =
     fold (\<lambda>j r. let diff = \<bar>accessMat surface columns i j - accessMat surfaceCopy columns i j\<bar>
                  in if diff > r then diff else r)
       [1..columns - 2] local_residual"

definition local_residual ::
  "int \<Rightarrow> int \<Rightarrow> int \<Rightarrow> int \<Rightarrow> real list \<Rightarrow> real list \<Rightarrow> real" where
  "local_residual global_rows columns chunk g_start surface surfaceCopy =
     fold (\<lambda>i r. let gx = g_start + (i - 1) in
                  if gx < 1 \<or> gx > global_rows - 2 then r
                  else residual_row surface surfaceCopy columns i r)
       [1..chunk] 0"

subsection \<open>Step 4.3: targeting and movement of the teams\<close>

text \<open>
  The distance of a team to a focal point is computed in \<open>float\<close>, and the comparison of
  two such distances decides the target, so here the single-precision operations are
  written out: every operation yields the binary32 value nearest to the exact result,
  ties to the even significand (IEEE 754, each operation rounded on its own, \<open>sqrtf\<close>
  correctly rounded).  A binary32 value has a significand of 24 bits; the range of the
  exponent is left out, since every value of this computation is 0 or lies between 1 and
  \<open>2\<^sup>3\<^sup>6\<close>.
\<close>

definition round_even :: "real \<Rightarrow> int" where
  "round_even y =
     (let f = \<lfloor>y\<rfloor> in
      if y - of_int f < 1 / 2 then f
      else if 1 / 2 < y - of_int f then f + 1
      else if even f then f else f + 1)"

definition binary32 :: "real \<Rightarrow> real" where
  "binary32 x =
     (if x = 0 then 0
      else let u = 2 powr (of_int \<lfloor>log 2 \<bar>x\<bar>\<rfloor> - 23)
           in sgn x * (of_int (round_even (\<bar>x\<bar> / u)) * u))"

definition int_to_float :: "int \<Rightarrow> real" where
  "int_to_float n = binary32 (of_int n)"

definition float_mult :: "real \<Rightarrow> real \<Rightarrow> real" where
  "float_mult a b = binary32 (a * b)"

definition float_add :: "real \<Rightarrow> real \<Rightarrow> real" where
  "float_add a b = binary32 (a + b)"

definition sqrtf :: "real \<Rightarrow> real" where
  "sqrtf x = binary32 (sqrt x)"

definition FLT_MAX :: real where
  "FLT_MAX = 340282346638528859811704183484516925440"

text \<open>
  One pass of the scan over the focal points; the state is \<open>(distance, target)\<close>.  The
  two differences are subtractions of \<open>int\<close>, converted to \<open>float\<close>.  They are written
  as the mathematical differences: this is the C subtraction as long as the difference
  lies in the range of \<open>int\<close>, and beyond that range C leaves the subtraction undefined.
\<close>

definition scan_focal :: "Team \<Rightarrow> FocalPoint list \<Rightarrow> nat \<Rightarrow> real \<times> int \<Rightarrow> real \<times> int" where
  "scan_focal team focal j = (\<lambda>(distance, target).
     if f_active (focal ! j) \<noteq> 1 then (distance, target)
     else let dx = int_to_float (f_x (focal ! j) - t_x team);
              dy = int_to_float (f_y (focal ! j) - t_y team);
              local_distance = sqrtf (float_add (float_mult dx dx) (float_mult dy dy))
          in if local_distance < distance then (local_distance, int j) else (distance, target))"

definition choose_target :: "Team \<Rightarrow> FocalPoint list \<Rightarrow> int" where
  "choose_target team focal =
     snd (fold (scan_focal team focal) [0..<length focal] (FLT_MAX, - 1))"

definition move_type_1 :: "FocalPoint \<Rightarrow> Team \<Rightarrow> Team" where
  "move_type_1 f team =
     (let team = (if f_x f < t_x team then team\<lparr>t_x := t_x team - 1\<rparr> else team);
          team = (if f_x f > t_x team then team\<lparr>t_x := t_x team + 1\<rparr> else team);
          team = (if f_y f < t_y team then team\<lparr>t_y := t_y team - 1\<rparr> else team);
          team = (if f_y f > t_y team then team\<lparr>t_y := t_y team + 1\<rparr> else team)
      in team)"

definition move_type_2 :: "FocalPoint \<Rightarrow> Team \<Rightarrow> Team" where
  "move_type_2 f team =
     (if f_y f < t_y team then team\<lparr>t_y := t_y team - 1\<rparr>
      else if f_y f > t_y team then team\<lparr>t_y := t_y team + 1\<rparr>
      else if f_x f < t_x team then team\<lparr>t_x := t_x team - 1\<rparr>
      else if f_x f > t_x team then team\<lparr>t_x := t_x team + 1\<rparr>
      else team)"

definition move_type_3 :: "FocalPoint \<Rightarrow> Team \<Rightarrow> Team" where
  "move_type_3 f team =
     (if f_x f < t_x team then team\<lparr>t_x := t_x team - 1\<rparr>
      else if f_x f > t_x team then team\<lparr>t_x := t_x team + 1\<rparr>
      else if f_y f < t_y team then team\<lparr>t_y := t_y team - 1\<rparr>
      else if f_y f > t_y team then team\<lparr>t_y := t_y team + 1\<rparr>
      else team)"

definition move_team :: "FocalPoint list \<Rightarrow> Team \<Rightarrow> Team" where
  "move_team focal team =
     (let target = choose_target team focal;
          team = team\<lparr>t_target := target\<rparr>
      in if target = - 1 then team
         else if t_type team = 1 then move_type_1 (focal ! nat target) team
         else if t_type team = 2 then move_type_2 (focal ! nat target) team
         else move_type_3 (focal ! nat target) team)"

definition move_teams :: "FocalPoint list \<Rightarrow> Team list \<Rightarrow> Team list" where
  "move_teams focal teams = map (move_team focal) teams"

subsection \<open>Step 4.4: team actions\<close>

definition deactivate_target :: "Team \<Rightarrow> FocalPoint list \<Rightarrow> FocalPoint list" where
  "deactivate_target team focal =
     (let target = t_target team in
      if target \<noteq> - 1 \<and> f_x (focal ! nat target) = t_x team \<and>
         f_y (focal ! nat target) = t_y team \<and> f_active (focal ! nat target) = 1
      then focal[nat target := (focal ! nat target)\<lparr>f_active := 2\<rparr>]
      else focal)"

definition reduce_cell ::
  "int \<Rightarrow> int \<Rightarrow> int \<Rightarrow> int \<Rightarrow> Team \<Rightarrow> int \<Rightarrow> int \<Rightarrow> int \<Rightarrow> real list \<Rightarrow> real list" where
  "reduce_cell global_rows columns g_start g_end team radius i j surface =
     (if i < 1 \<or> i \<ge> global_rows - 1 \<or> j < 1 \<or> j \<ge> columns - 1 then surface
      else let dx = real_of_int (t_x team - i);
               dy = real_of_int (t_y team - j);
               distance = sqrt (dx * dx + dy * dy)
           in if distance \<le> real_of_int radius
              then if i \<ge> g_start \<and> i \<le> g_end
                   then let local_i = (i - g_start) + 1
                        in setMat surface columns local_i j
                             (accessMat surface columns local_i j * (1 - 0.25))
                   else surface
              else surface)"

definition reduce_heat ::
  "int \<Rightarrow> int \<Rightarrow> int \<Rightarrow> int \<Rightarrow> Team \<Rightarrow> real list \<Rightarrow> real list" where
  "reduce_heat global_rows columns g_start g_end team surface =
     (let radius = (if t_type team = 1 then RADIUS_TYPE_1 else RADIUS_TYPE_2_3) in
      fold (\<lambda>i s. fold (reduce_cell global_rows columns g_start g_end team radius i)
                     [t_y team - radius..t_y team + radius] s)
        [t_x team - radius..t_x team + radius] surface)"

subsection \<open>The cohort of workers\<close>

text \<open>
  The variables of one process.  \<open>num_focal\<close> is the length of \<open>focal\<close>;
  \<open>first_activation\<close> is written but never read and is left out.  A cohort is the
  list of the processes' states, the state of rank \<open>r\<close> at position \<open>r\<close>.
\<close>

record Worker =
  w_surface :: "real list"
  w_surfaceCopy :: "real list"
  w_teams :: "Team list"
  w_focal :: "FocalPoint list"
  w_iter :: int
  w_flag_stability :: bool
  w_num_deactivated :: int
  w_global_residual :: real

definition map_rank :: "(int \<Rightarrow> 'a \<Rightarrow> 'b) \<Rightarrow> 'a list \<Rightarrow> 'b list" where
  "map_rank f ws = map (\<lambda>r. f (int r) (ws ! r)) [0..<length ws]"

text \<open>
  \<open>MPI_Sendrecv\<close> moves \<open>columns\<close> floats: \<open>row_of\<close> is the block sent from
  \<open>&accessMat(surface, i, 0)\<close>, \<open>store_row\<close> the buffer after receiving a block there.
\<close>

definition row_of :: "real list \<Rightarrow> int \<Rightarrow> int \<Rightarrow> real list" where
  "row_of arr columns i = take (nat columns) (drop (idx columns i 0) arr)"

definition store_row :: "real list \<Rightarrow> int \<Rightarrow> int \<Rightarrow> real list \<Rightarrow> real list" where
  "store_row arr columns i row =
     map (\<lambda>k. if idx columns i 0 \<le> k \<and> k < idx columns i 0 + nat columns
               then row ! (k - idx columns i 0) else arr ! k) [0..<length arr]"

text \<open>
  The matching pair of calls between rank \<open>r\<close> and rank \<open>r + 1\<close>: rank \<open>r\<close> sends its
  local row \<open>chunk\<close> (tag 101) and receives into row \<open>chunk + 1\<close> (tag 100); rank
  \<open>r + 1\<close> sends its local row 1 (tag 100) and receives into row 0 (tag 101).
\<close>

definition pair_exchange :: "int \<Rightarrow> int \<Rightarrow> nat \<Rightarrow> Worker list \<Rightarrow> Worker list" where
  "pair_exchange columns chunk r ws =
     (let upper = ws ! r; lower = ws ! Suc r;
          sent_down = row_of (w_surface upper) columns chunk;
          sent_up = row_of (w_surface lower) columns 1;
          upper' = upper\<lparr>w_surface := store_row (w_surface upper) columns (chunk + 1) sent_up\<rparr>;
          lower' = lower\<lparr>w_surface := store_row (w_surface lower) columns 0 sent_down\<rparr>
      in ws[r := upper', Suc r := lower'])"

text \<open>
  Every rank first exchanges with \<open>rank - 1\<close>, then with \<open>rank + 1\<close>, and each call
  blocks, so the pairs complete in the order \<open>(0,1), (1,2), \<dots>\<close>.
\<close>

definition halo_exchange :: "int \<Rightarrow> int \<Rightarrow> Worker list \<Rightarrow> Worker list" where
  "halo_exchange columns chunk ws = fold (pair_exchange columns chunk) [0..<length ws - 1] ws"

text \<open>Step 4.2.2: the copy loop over \<open>local_nrows * columns\<close> cells.\<close>

definition copy_surface :: "int \<Rightarrow> int \<Rightarrow> real list \<Rightarrow> real list \<Rightarrow> real list" where
  "copy_surface local_nrows columns surface surfaceCopy =
     (if local_nrows \<le> 0 \<or> columns \<le> 0 then surfaceCopy
      else take (nat (local_nrows * columns)) surface @
           drop (nat (local_nrows * columns)) surfaceCopy)"

text \<open>
  One of the ten propagation steps of an outer iteration, for the whole cohort, phase by
  phase: heat writes (4.2.1), halo exchange (4.2.1.5), copy (4.2.2), stencil (4.2.3),
  local residual and its reduction (4.2.4).
\<close>

definition heat_phase :: "int \<Rightarrow> int \<Rightarrow> Worker list \<Rightarrow> Worker list" where
  "heat_phase global_rows columns ws =
     (let chunk = chunk_of global_rows (int (length ws)) in
      map_rank (\<lambda>rank w. w\<lparr>w_surface :=
        update_heat global_rows columns (g_start_of chunk rank) (g_end_of chunk rank)
          (w_focal w) (w_surface w)\<rparr>) ws)"

definition copy_phase :: "int \<Rightarrow> int \<Rightarrow> Worker list \<Rightarrow> Worker list" where
  "copy_phase global_rows columns ws =
     (let chunk = chunk_of global_rows (int (length ws)) in
      map (\<lambda>w. w\<lparr>w_surfaceCopy :=
        copy_surface (chunk + 2) columns (w_surface w) (w_surfaceCopy w)\<rparr>) ws)"

definition stencil_phase :: "int \<Rightarrow> int \<Rightarrow> Worker list \<Rightarrow> Worker list" where
  "stencil_phase global_rows columns ws =
     (let chunk = chunk_of global_rows (int (length ws)) in
      map_rank (\<lambda>rank w. w\<lparr>w_surface :=
        update_surface global_rows columns chunk (g_start_of chunk rank)
          (w_surfaceCopy w) (w_surface w)\<rparr>) ws)"

definition local_residuals :: "int \<Rightarrow> int \<Rightarrow> Worker list \<Rightarrow> real list" where
  "local_residuals global_rows columns ws =
     (let chunk = chunk_of global_rows (int (length ws)) in
      map_rank (\<lambda>rank w.
        local_residual global_rows columns chunk (g_start_of chunk rank)
          (w_surface w) (w_surfaceCopy w)) ws)"

definition residual_phase :: "int \<Rightarrow> int \<Rightarrow> Worker list \<Rightarrow> Worker list" where
  "residual_phase global_rows columns ws =
     map (\<lambda>w. w\<lparr>w_global_residual :=
       MPI_Allreduce_MAX (local_residuals global_rows columns ws)\<rparr>) ws"

definition sub_step :: "int \<Rightarrow> int \<Rightarrow> Worker list \<Rightarrow> Worker list" where
  "sub_step global_rows columns ws =
     residual_phase global_rows columns
       (stencil_phase global_rows columns
         (copy_phase global_rows columns
           (halo_exchange columns (chunk_of global_rows (int (length ws)))
             (heat_phase global_rows columns ws))))"

definition stability_test :: "Worker \<Rightarrow> Worker" where
  "stability_test w =
     (if w_num_deactivated w = int (length (w_focal w)) \<and> w_global_residual w < THRESHOLD
      then w\<lparr>w_flag_stability := True\<rparr> else w)"

definition team_actions :: "int \<Rightarrow> int \<Rightarrow> int \<Rightarrow> int \<Rightarrow> Worker \<Rightarrow> Worker" where
  "team_actions global_rows columns g_start g_end w =
     fold (\<lambda>team w. w\<lparr>w_focal := deactivate_target team (w_focal w),
                       w_surface := reduce_heat global_rows columns g_start g_end team (w_surface w)\<rparr>)
       (w_teams w) w"

text \<open>
  An outer iteration of the cohort: activation and the reduction of the local counts
  (4.1), ten propagation steps (4.2), and then, on every worker, the stability test, the
  team movement (4.3), the team actions (4.4) and the increment of \<open>iter\<close>.
\<close>

definition activation_phase :: "Worker list \<Rightarrow> Worker list" where
  "activation_phase ws =
     (let num = MPI_Allreduce_SUM (map (\<lambda>w. snd (activate_focal (w_iter w) (w_focal w))) ws)
      in map (\<lambda>w. w\<lparr>w_focal := fst (activate_focal (w_iter w) (w_focal w)),
                      w_num_deactivated := num, w_global_residual := 0\<rparr>) ws)"

definition worker_tail :: "int \<Rightarrow> int \<Rightarrow> int \<Rightarrow> int \<Rightarrow> Worker \<Rightarrow> Worker" where
  "worker_tail global_rows columns chunk rank w =
     (let w3 = stability_test w;
          w4 = w3\<lparr>w_teams := move_teams (w_focal w3) (w_teams w3)\<rparr>;
          w5 = team_actions global_rows columns (g_start_of chunk rank) (g_end_of chunk rank) w4
      in w5\<lparr>w_iter := w_iter w5 + 1\<rparr>)"

definition outer_iteration :: "int \<Rightarrow> int \<Rightarrow> Worker list \<Rightarrow> Worker list" where
  "outer_iteration global_rows columns ws =
     map_rank (worker_tail global_rows columns (chunk_of global_rows (int (length ws))))
       ((sub_step global_rows columns ^^ 10) (activation_phase ws))"

section \<open>Allocation failure of the local slice\<close>

text \<open>
  Claim C9.  A failed allocation of \<open>surface\<close> or \<open>surfaceCopy\<close> should be reported
  and abort the run.  The program reports it and then continues into the
  initialisation loop, while a failed allocation of the team array exits and a failed
  allocation of the gathered grid aborts the cohort.
\<close>

theorem surface_alloc_failure_continues:
  "surface_alloc_check (None :: real list option) (Some s) =
     ([''-- Error allocating: surface structures''], Continue)
   \<and> snd (teams_alloc_check num_teams (None :: Team list option)) = Exit
   \<and> snd (fullSurface_alloc_check (None :: real list option)) = MPI_Abort"
  by (simp add: surface_alloc_check_def teams_alloc_check_def fullSurface_alloc_check_def)

section \<open>The stencil update\<close>

subsection \<open>Flat indexing and folds of cell writes\<close>

lemma idx_inj:
  assumes "0 \<le> j" "j < columns" "0 \<le> j'" "j' < columns" "0 \<le> i" "0 \<le> i'"
    and "idx columns i j = idx columns i' j'"
  shows "i = i' \<and> j = j'"
proof -
  have c: "0 < columns" using assms by linarith
  have "0 \<le> i * columns + j" "0 \<le> i' * columns + j'" using assms c by simp_all
  with assms(7) have e: "i * columns + j = i' * columns + j'"
    by (simp add: idx_def)
  have "(i * columns + j) div columns = i" "(i * columns + j) mod columns = j"
    using assms c by simp_all
  moreover have "(i' * columns + j') div columns = i'" "(i' * columns + j') mod columns = j'"
    using assms c by simp_all
  ultimately show ?thesis using e by metis
qed

lemma length_setMat [simp]: "length (setMat arr columns i j v) = length arr"
  by (simp add: setMat_def)

lemma nth_setMat_other: "k \<noteq> idx columns i j \<Longrightarrow> setMat arr columns i j v ! k = arr ! k"
  by (simp add: setMat_def)

lemma nth_setMat_same: "idx columns i j < length arr \<Longrightarrow> setMat arr columns i j v ! idx columns i j = v"
  by (simp add: setMat_def)

lemma length_fold_setMat:
  "length (fold (\<lambda>j s. setMat s columns i j (g j)) js s) = length s"
  by (induction js arbitrary: s) simp_all

lemma nth_fold_setMat_other:
  "\<forall>j\<in>set js. idx columns i j \<noteq> k \<Longrightarrow> fold (\<lambda>j s. setMat s columns i j (g j)) js s ! k = s ! k"
  by (induction js arbitrary: s) (simp_all add: nth_setMat_other)

lemma nth_fold_setMat_same:
  assumes "j \<in> set js" "idx columns i j < length s"
    and "\<forall>j'\<in>set js. j' \<noteq> j \<longrightarrow> idx columns i j' \<noteq> idx columns i j"
  shows "fold (\<lambda>j s. setMat s columns i j (g j)) js s ! idx columns i j = g j"
  using assms
proof (induction js arbitrary: s)
  case Nil
  then show ?case by simp
next
  case (Cons a js)
  show ?case
  proof (cases "j \<in> set js")
    case True
    then show ?thesis using Cons by simp
  next
    case False
    then have a: "a = j" using Cons.prems by simp
    have "\<forall>j'\<in>set js. idx columns i j' \<noteq> idx columns i j"
      using Cons.prems False by auto
    then show ?thesis
      using Cons.prems(2) by (simp add: a nth_fold_setMat_other nth_setMat_same)
  qed
qed

lemma length_update_row [simp]: "length (update_row surfaceCopy columns i surface) = length surface"
  by (simp add: update_row_def length_fold_setMat)

lemma nth_update_row_other:
  "\<forall>j. 1 \<le> j \<and> j \<le> columns - 2 \<longrightarrow> idx columns i j \<noteq> k \<Longrightarrow>
   update_row surfaceCopy columns i surface ! k = surface ! k"
  by (simp add: update_row_def nth_fold_setMat_other)

lemma nth_update_row_same:
  assumes "1 \<le> j" "j \<le> columns - 2" "0 \<le> i" "idx columns i j < length surface"
  shows "update_row surfaceCopy columns i surface ! idx columns i j = stencil_cell surfaceCopy columns i j"
  unfolding update_row_def
proof (rule nth_fold_setMat_same)
  show "j \<in> set [1..columns - 2]" using assms by simp
  show "idx columns i j < length surface" by fact
  show "\<forall>j'\<in>set [1..columns - 2]. j' \<noteq> j \<longrightarrow> idx columns i j' \<noteq> idx columns i j"
  proof (intro ballI impI notI)
    fix j' assume "j' \<in> set [1..columns - 2]" "j' \<noteq> j" "idx columns i j' = idx columns i j"
    then show False using idx_inj[of j' columns j i i] assms by simp
  qed
qed


subsection \<open>Owned interior cells\<close>

text \<open>
  The cells the stencil loop visits, by local row \<open>i\<close> and column \<open>j\<close>: an owned row
  (\<open>1 \<le> i \<le> chunk\<close>) whose global row \<open>g_start + (i - 1)\<close> lies in \<open>[1, global_rows - 2]\<close>,
  and a column in \<open>[1, columns - 2]\<close>.
\<close>

definition owned_interior :: "int \<Rightarrow> int \<Rightarrow> int \<Rightarrow> int \<Rightarrow> int \<Rightarrow> int \<Rightarrow> bool" where
  "owned_interior global_rows columns chunk g_start i j \<longleftrightarrow>
     1 \<le> i \<and> i \<le> chunk \<and> 1 \<le> g_start + (i - 1) \<and> g_start + (i - 1) \<le> global_rows - 2 \<and>
     1 \<le> j \<and> j \<le> columns - 2"

text \<open>The row loop of the stencil over any list of local rows.\<close>

definition stencil_rows ::
  "int \<Rightarrow> int \<Rightarrow> int \<Rightarrow> real list \<Rightarrow> int list \<Rightarrow> real list \<Rightarrow> real list" where
  "stencil_rows global_rows columns g_start surfaceCopy rs surface =
     fold (\<lambda>i s. let gx = g_start + (i - 1) in
                  if gx < 1 \<or> gx > global_rows - 2 then s
                  else update_row surfaceCopy columns i s) rs surface"

lemma update_surface_rows:
  "update_surface global_rows columns chunk g_start surfaceCopy surface =
   stencil_rows global_rows columns g_start surfaceCopy [1..chunk] surface"
  by (simp add: update_surface_def stencil_rows_def)

lemma stencil_rows_append:
  "stencil_rows global_rows columns g_start surfaceCopy (rs @ rs') surface =
   stencil_rows global_rows columns g_start surfaceCopy rs'
     (stencil_rows global_rows columns g_start surfaceCopy rs surface)"
  by (simp add: stencil_rows_def)

lemma length_stencil_rows [simp]:
  "length (stencil_rows global_rows columns g_start surfaceCopy rs surface) = length surface"
  by (induction rs arbitrary: surface) (simp_all add: stencil_rows_def Let_def)

lemma nth_stencil_rows_other:
  assumes "\<forall>i\<in>set rs. \<forall>j. 1 \<le> g_start + (i - 1) \<and> g_start + (i - 1) \<le> global_rows - 2 \<and>
             1 \<le> j \<and> j \<le> columns - 2 \<longrightarrow> idx columns i j \<noteq> k"
  shows "stencil_rows global_rows columns g_start surfaceCopy rs surface ! k = surface ! k"
  using assms
proof (induction rs arbitrary: surface)
  case Nil
  then show ?case by (simp add: stencil_rows_def)
next
  case (Cons i rs)
  have step: "stencil_rows global_rows columns g_start surfaceCopy (i # rs) surface =
      stencil_rows global_rows columns g_start surfaceCopy rs
        (if g_start + (i - 1) < 1 \<or> g_start + (i - 1) > global_rows - 2 then surface
         else update_row surfaceCopy columns i surface)"
    by (simp add: stencil_rows_def Let_def)
  have rest: "\<And>s. stencil_rows global_rows columns g_start surfaceCopy rs s ! k = s ! k"
    using Cons by simp
  show ?case
  proof (cases "g_start + (i - 1) < 1 \<or> g_start + (i - 1) > global_rows - 2")
    case True
    then show ?thesis using step rest by simp
  next
    case False
    then have "\<forall>j. 1 \<le> j \<and> j \<le> columns - 2 \<longrightarrow> idx columns i j \<noteq> k"
      using Cons.prems by simp
    then have "update_row surfaceCopy columns i surface ! k = surface ! k"
      by (rule nth_update_row_other)
    then show ?thesis using step rest False by simp
  qed
qed

lemma nth_stencil_rows_same:
  assumes "1 \<le> i" "i \<le> chunk" "1 \<le> g_start + (i - 1)" "g_start + (i - 1) \<le> global_rows - 2"
    and "1 \<le> j" "j \<le> columns - 2" "idx columns i j < length surface"
  shows "stencil_rows global_rows columns g_start surfaceCopy [1..chunk] surface ! idx columns i j =
         stencil_cell surfaceCopy columns i j"
proof -
  let ?S = "stencil_rows global_rows columns g_start surfaceCopy"
  have split: "[1..chunk] = [1..i - 1] @ [i] @ [i + 1..chunk]"
    using assms(1,2) upto_split3[of 1 i chunk] by simp
  define s1 where "s1 = ?S [1..i - 1] surface"
  have len: "length s1 = length surface" by (simp add: s1_def)
  have mid: "?S [i] s1 ! idx columns i j = stencil_cell surfaceCopy columns i j"
    using assms len by (simp add: stencil_rows_def Let_def nth_update_row_same)
  have other: "\<forall>i'\<in>set [i + 1..chunk]. \<forall>j'. 1 \<le> g_start + (i' - 1) \<and>
       g_start + (i' - 1) \<le> global_rows - 2 \<and> 1 \<le> j' \<and> j' \<le> columns - 2 \<longrightarrow>
       idx columns i' j' \<noteq> idx columns i j"
  proof (intro ballI allI impI notI)
    fix i' j'
    assume i': "i' \<in> set [i + 1..chunk]"
      and j': "1 \<le> g_start + (i' - 1) \<and> g_start + (i' - 1) \<le> global_rows - 2 \<and>
               1 \<le> j' \<and> j' \<le> columns - 2"
      and e: "idx columns i' j' = idx columns i j"
    have "i' = i \<and> j' = j"
      using idx_inj[of j' columns j i' i] i' j' e assms by simp
    then show False using i' by simp
  qed
  have "?S [1..chunk] surface = ?S [i + 1..chunk] (?S [i] s1)"
    by (simp only: split stencil_rows_append s1_def)
  then show ?thesis
    using nth_stencil_rows_other[OF other] mid by simp
qed

text \<open>
  Claim C3.  On a slice buffer of \<open>(chunk + 2) * columns\<close> cells, the stencil update
  writes into every owned interior cell, at position \<open>i * columns + j\<close> of \<open>surface\<close>,
  the sum of the four values that \<open>surfaceCopy\<close> holds one row above, one row below, one
  column to the left and one column to the right of that position, divided by 4; and it
  changes no other position of \<open>surface\<close>: halo rows, global border rows and border
  columns keep their values, and the buffer keeps its length.
\<close>

theorem stencil_update_cells:
  assumes "length surface = nat ((chunk + 2) * columns)"
  shows "(\<forall>i j. owned_interior global_rows columns chunk g_start i j \<longrightarrow>
            update_surface global_rows columns chunk g_start surfaceCopy surface ! nat (i * columns + j) =
            (surfaceCopy ! nat ((i - 1) * columns + j) + surfaceCopy ! nat ((i + 1) * columns + j) +
             surfaceCopy ! nat (i * columns + (j - 1)) + surfaceCopy ! nat (i * columns + (j + 1))) / 4)
       \<and> (\<forall>k. (\<forall>i j. owned_interior global_rows columns chunk g_start i j \<longrightarrow> k \<noteq> idx columns i j) \<longrightarrow>
            update_surface global_rows columns chunk g_start surfaceCopy surface ! k = surface ! k)
       \<and> (\<forall>i j. 0 \<le> i \<and> i \<le> chunk + 1 \<and> 0 \<le> j \<and> j < columns \<and>
                \<not> owned_interior global_rows columns chunk g_start i j \<longrightarrow>
            accessMat (update_surface global_rows columns chunk g_start surfaceCopy surface) columns i j =
            accessMat surface columns i j)
       \<and> length (update_surface global_rows columns chunk g_start surfaceCopy surface) = length surface"
proof (intro conjI allI impI)
  fix i j
  assume oi: "owned_interior global_rows columns chunk g_start i j"
  then have b: "1 \<le> i" "i \<le> chunk" "1 \<le> j" "j \<le> columns - 2"
    by (simp_all add: owned_interior_def)
  have "i * columns + j < (chunk + 1) * columns"
  proof -
    have "i * columns \<le> chunk * columns" using b by (simp add: mult_right_mono)
    moreover have "(chunk + 1) * columns = chunk * columns + columns"
      by (simp add: algebra_simps)
    ultimately show ?thesis using b by linarith
  qed
  moreover have "(chunk + 1) * columns \<le> (chunk + 2) * columns"
    using b by (simp add: mult_right_mono)
  ultimately have "i * columns + j < (chunk + 2) * columns"
    by linarith
  moreover have "0 \<le> i * columns + j" using b by simp
  ultimately have "idx columns i j < length surface"
    using assms by (simp add: idx_def nat_less_iff)
  then have "accessMat (update_surface global_rows columns chunk g_start surfaceCopy surface) columns i j =
      stencil_cell surfaceCopy columns i j"
    using oi nth_stencil_rows_same[of i chunk g_start global_rows j columns surface surfaceCopy]
    by (simp add: owned_interior_def accessMat_def update_surface_rows)
  then show "update_surface global_rows columns chunk g_start surfaceCopy surface ! nat (i * columns + j) =
      (surfaceCopy ! nat ((i - 1) * columns + j) + surfaceCopy ! nat ((i + 1) * columns + j) +
       surfaceCopy ! nat (i * columns + (j - 1)) + surfaceCopy ! nat (i * columns + (j + 1))) / 4"
    by (simp only: stencil_cell_def accessMat_def idx_def)
next
  fix k
  assume h: "\<forall>i j. owned_interior global_rows columns chunk g_start i j \<longrightarrow> k \<noteq> idx columns i j"
  have "\<forall>i\<in>set [1..chunk]. \<forall>j. 1 \<le> g_start + (i - 1) \<and> g_start + (i - 1) \<le> global_rows - 2 \<and>
             1 \<le> j \<and> j \<le> columns - 2 \<longrightarrow> idx columns i j \<noteq> k"
  proof (intro ballI allI impI)
    fix i j
    assume "i \<in> set [1..chunk]"
      and "1 \<le> g_start + (i - 1) \<and> g_start + (i - 1) \<le> global_rows - 2 \<and> 1 \<le> j \<and> j \<le> columns - 2"
    then have "owned_interior global_rows columns chunk g_start i j"
      by (simp add: owned_interior_def)
    with h show "idx columns i j \<noteq> k" by blast
  qed
  then show "update_surface global_rows columns chunk g_start surfaceCopy surface ! k = surface ! k"
    unfolding update_surface_rows by (rule nth_stencil_rows_other)
next
  fix i j
  assume a: "0 \<le> i \<and> i \<le> chunk + 1 \<and> 0 \<le> j \<and> j < columns \<and>
             \<not> owned_interior global_rows columns chunk g_start i j"
  have "\<forall>i'\<in>set [1..chunk]. \<forall>j'. 1 \<le> g_start + (i' - 1) \<and> g_start + (i' - 1) \<le> global_rows - 2 \<and>
             1 \<le> j' \<and> j' \<le> columns - 2 \<longrightarrow> idx columns i' j' \<noteq> idx columns i j"
  proof (intro ballI allI impI notI)
    fix i' j'
    assume i': "i' \<in> set [1..chunk]"
      and j': "1 \<le> g_start + (i' - 1) \<and> g_start + (i' - 1) \<le> global_rows - 2 \<and>
               1 \<le> j' \<and> j' \<le> columns - 2"
      and e: "idx columns i' j' = idx columns i j"
    have "i' = i \<and> j' = j"
      using idx_inj[of j' columns j i' i] i' j' e a by simp
    then show False using a i' j' by (simp add: owned_interior_def)
  qed
  then show "accessMat (update_surface global_rows columns chunk g_start surfaceCopy surface) columns i j =
      accessMat surface columns i j"
    unfolding update_surface_rows accessMat_def by (rule nth_stencil_rows_other)
next
  show "length (update_surface global_rows columns chunk g_start surfaceCopy surface) = length surface"
    by (simp add: update_surface_rows)
qed


text \<open>
  An example: three owned rows of three columns; \<open>surfaceCopy\<close> holds the squares
  \<open>0, 1, 4, \<dots>, 196\<close> and \<open>surface\<close> holds 1 everywhere.  The one interior cell of the
  owned row 2 gets \<open>(16 + 100 + 36 + 64) / 4 = 54\<close>, which is neither its old value 1 nor
  the value 49 of \<open>surfaceCopy\<close> there; the cell of the global border row 0 keeps its 1.
\<close>

theorem stencil_update_cells_witness:
  "length (replicate 15 (1::real)) = nat ((3 + 2) * 3)
   \<and> owned_interior 3 3 3 0 2 1
   \<and> update_surface 3 3 3 0 (map (\<lambda>k. real (k * k)) [0..<15]) (replicate 15 1) ! 7 = 54
   \<and> map (\<lambda>k. real (k * k)) [0..<15] ! 7 = 49
   \<and> \<not> owned_interior 3 3 3 0 1 1
   \<and> accessMat (update_surface 3 3 3 0 (map (\<lambda>k. real (k * k)) [0..<15]) (replicate 15 1)) 3 1 1 = 1"
proof -
  have h: "length (replicate 15 (1::real)) = nat ((3 + 2) * 3)" by simp
  note t = stencil_update_cells[OF h, of 3 0 "map (\<lambda>k. real (k * k)) [0..<15]"]
  have a: "owned_interior 3 3 3 0 2 1" by (simp add: owned_interior_def)
  have b: "\<not> owned_interior 3 3 3 0 1 1" by (simp add: owned_interior_def)
  from t a have "update_surface 3 3 3 0 (map (\<lambda>k. real (k * k)) [0..<15]) (replicate 15 1) !
        nat (2 * 3 + 1) =
      (map (\<lambda>k. real (k * k)) [0..<15] ! nat ((2 - 1) * 3 + 1) +
       map (\<lambda>k. real (k * k)) [0..<15] ! nat ((2 + 1) * 3 + 1) +
       map (\<lambda>k. real (k * k)) [0..<15] ! nat (2 * 3 + (1 - 1)) +
       map (\<lambda>k. real (k * k)) [0..<15] ! nat (2 * 3 + (1 + 1))) / 4" by blast
  then have c: "update_surface 3 3 3 0 (map (\<lambda>k. real (k * k)) [0..<15]) (replicate 15 1) ! 7 = 54"
    by simp
  have d: "map (\<lambda>k. real (k * k)) [0..<15] ! 7 = 49" by simp
  from t b have "accessMat (update_surface 3 3 3 0 (map (\<lambda>k. real (k * k)) [0..<15]) (replicate 15 1)) 3 1 1 =
      accessMat (replicate 15 1) 3 1 1" by simp
  moreover have "accessMat (replicate 15 1) 3 1 1 = 1"
    by (simp add: accessMat_def idx_def)
  ultimately show ?thesis using h a b c d by simp
qed

section \<open>The residual\<close>

subsection \<open>A running maximum over a loop\<close>

lemma fold_max_ge_init:
  "r \<le> fold (\<lambda>j r. let diff = g j in if diff > r then diff else r) js (r::real)"
proof (induction js arbitrary: r)
  case Nil
  then show ?case by simp
next
  case (Cons a js)
  have "r \<le> (if g a > r then g a else r)" by simp
  also have "\<dots> \<le> fold (\<lambda>j r. let diff = g j in if diff > r then diff else r) js
      (if g a > r then g a else r)" by (rule Cons.IH)
  finally show ?case by (simp add: Let_def)
qed

lemma fold_max_ge_elem:
  "j \<in> set js \<Longrightarrow> g j \<le> fold (\<lambda>j r. let diff = g j in if diff > r then diff else r) js (r::real)"
proof (induction js arbitrary: r)
  case Nil
  then show ?case by simp
next
  case (Cons a js)
  let ?r' = "if g a > r then g a else r"
  show ?case
  proof (cases "j = a")
    case True
    have "g a \<le> ?r'" by simp
    also have "\<dots> \<le> fold (\<lambda>j r. let diff = g j in if diff > r then diff else r) js ?r'"
      by (rule fold_max_ge_init)
    finally show ?thesis using True by (simp add: Let_def)
  next
    case False
    then have "j \<in> set js" using Cons.prems by simp
    then have "g j \<le> fold (\<lambda>j r. let diff = g j in if diff > r then diff else r) js ?r'"
      by (rule Cons.IH)
    then show ?thesis by (simp add: Let_def)
  qed
qed

lemma fold_max_attained:
  "fold (\<lambda>j r. let diff = g j in if diff > r then diff else r) js (r::real) = r \<or>
   (\<exists>j\<in>set js. fold (\<lambda>j r. let diff = g j in if diff > r then diff else r) js r = g j)"
proof (induction js arbitrary: r)
  case Nil
  then show ?case by simp
next
  case (Cons a js)
  let ?r' = "if g a > r then g a else r"
  let ?F = "fold (\<lambda>j r. let diff = g j in if diff > r then diff else r)"
  have e: "?F (a # js) r = ?F js ?r'" by (simp add: Let_def)
  from Cons.IH[of ?r'] show ?case
  proof
    assume "?F js ?r' = ?r'"
    then show ?thesis using e by (cases "g a > r") auto
  next
    assume "\<exists>j\<in>set js. ?F js ?r' = g j"
    then show ?thesis using e by auto
  qed
qed

subsection \<open>The residual loops\<close>

text \<open>The change of one cell between the two buffers.\<close>

definition cell_diff :: "real list \<Rightarrow> real list \<Rightarrow> int \<Rightarrow> int \<Rightarrow> int \<Rightarrow> real" where
  "cell_diff surface surfaceCopy columns i j =
     \<bar>accessMat surface columns i j - accessMat surfaceCopy columns i j\<bar>"

text \<open>The row loop of the residual over any list of local rows, from any starting value.\<close>

definition residual_rows ::
  "int \<Rightarrow> int \<Rightarrow> int \<Rightarrow> real list \<Rightarrow> real list \<Rightarrow> int list \<Rightarrow> real \<Rightarrow> real" where
  "residual_rows global_rows columns g_start surface surfaceCopy rs r0 =
     fold (\<lambda>i r. let gx = g_start + (i - 1) in
                  if gx < 1 \<or> gx > global_rows - 2 then r
                  else residual_row surface surfaceCopy columns i r) rs r0"

lemma local_residual_rows:
  "local_residual global_rows columns chunk g_start surface surfaceCopy =
   residual_rows global_rows columns g_start surface surfaceCopy [1..chunk] 0"
  by (simp add: local_residual_def residual_rows_def)

lemma residual_row_ge_init: "r \<le> residual_row surface surfaceCopy columns i r"
  unfolding residual_row_def by (rule fold_max_ge_init)

lemma residual_row_ge_cell:
  "1 \<le> j \<Longrightarrow> j \<le> columns - 2 \<Longrightarrow>
   cell_diff surface surfaceCopy columns i j \<le> residual_row surface surfaceCopy columns i r"
  unfolding residual_row_def cell_diff_def
  by (rule fold_max_ge_elem) simp

lemma residual_row_attained:
  "residual_row surface surfaceCopy columns i r = r \<or>
   (\<exists>j. 1 \<le> j \<and> j \<le> columns - 2 \<and>
        residual_row surface surfaceCopy columns i r = cell_diff surface surfaceCopy columns i j)"
  using fold_max_attained[of "\<lambda>j. \<bar>accessMat surface columns i j - accessMat surfaceCopy columns i j\<bar>"
      "[1..columns - 2]" r]
  unfolding residual_row_def cell_diff_def by auto

lemma residual_rows_Cons:
  "residual_rows global_rows columns g_start surface surfaceCopy (i # rs) r =
   residual_rows global_rows columns g_start surface surfaceCopy rs
     (if g_start + (i - 1) < 1 \<or> g_start + (i - 1) > global_rows - 2 then r
      else residual_row surface surfaceCopy columns i r)"
  by (simp add: residual_rows_def Let_def)

lemma residual_rows_ge_init:
  "r \<le> residual_rows global_rows columns g_start surface surfaceCopy rs r"
proof (induction rs arbitrary: r)
  case Nil
  then show ?case by (simp add: residual_rows_def)
next
  case (Cons i rs)
  let ?r' = "if g_start + (i - 1) < 1 \<or> g_start + (i - 1) > global_rows - 2 then r
      else residual_row surface surfaceCopy columns i r"
  have "r \<le> ?r'" using residual_row_ge_init[of r surface surfaceCopy columns i] by simp
  also have "?r' \<le> residual_rows global_rows columns g_start surface surfaceCopy rs ?r'"
    by (rule Cons.IH)
  finally show ?case by (simp only: residual_rows_Cons)
qed

lemma residual_rows_ge_cell:
  assumes "i \<in> set rs" "1 \<le> g_start + (i - 1)" "g_start + (i - 1) \<le> global_rows - 2"
    and "1 \<le> j" "j \<le> columns - 2"
  shows "cell_diff surface surfaceCopy columns i j \<le>
         residual_rows global_rows columns g_start surface surfaceCopy rs r"
  using assms(1)
proof (induction rs arbitrary: r)
  case Nil
  then show ?case by simp
next
  case (Cons a rs)
  let ?r' = "if g_start + (a - 1) < 1 \<or> g_start + (a - 1) > global_rows - 2 then r
      else residual_row surface surfaceCopy columns a r"
  show ?case
  proof (cases "i = a")
    case True
    then have "?r' = residual_row surface surfaceCopy columns i r" using assms by simp
    then have "cell_diff surface surfaceCopy columns i j \<le> ?r'"
      using residual_row_ge_cell[OF assms(4,5)] by simp
    also have "?r' \<le> residual_rows global_rows columns g_start surface surfaceCopy rs ?r'"
      by (rule residual_rows_ge_init)
    finally show ?thesis by (simp only: residual_rows_Cons)
  next
    case False
    then have "i \<in> set rs" using Cons.prems by simp
    then have "cell_diff surface surfaceCopy columns i j \<le>
        residual_rows global_rows columns g_start surface surfaceCopy rs ?r'"
      by (rule Cons.IH)
    then show ?thesis by (simp only: residual_rows_Cons)
  qed
qed

lemma residual_rows_attained:
  "residual_rows global_rows columns g_start surface surfaceCopy rs r = r \<or>
   (\<exists>i j. i \<in> set rs \<and> 1 \<le> g_start + (i - 1) \<and> g_start + (i - 1) \<le> global_rows - 2 \<and>
          1 \<le> j \<and> j \<le> columns - 2 \<and>
          residual_rows global_rows columns g_start surface surfaceCopy rs r =
          cell_diff surface surfaceCopy columns i j)"
proof (induction rs arbitrary: r)
  case Nil
  then show ?case by (simp add: residual_rows_def)
next
  case (Cons a rs)
  let ?r' = "if g_start + (a - 1) < 1 \<or> g_start + (a - 1) > global_rows - 2 then r
      else residual_row surface surfaceCopy columns a r"
  let ?R = "residual_rows global_rows columns g_start surface surfaceCopy"
  have e: "?R (a # rs) r = ?R rs ?r'" by (simp only: residual_rows_Cons)
  from Cons.IH[of ?r'] show ?case
  proof
    assume keep: "?R rs ?r' = ?r'"
    show ?thesis
    proof (cases "g_start + (a - 1) < 1 \<or> g_start + (a - 1) > global_rows - 2")
      case True
      then show ?thesis using keep e by simp
    next
      case False
      then have r': "?r' = residual_row surface surfaceCopy columns a r" by simp
      from residual_row_attained[of surface surfaceCopy columns a r] show ?thesis
      proof
        assume "residual_row surface surfaceCopy columns a r = r"
        then show ?thesis using keep e r' by simp
      next
        assume "\<exists>j. 1 \<le> j \<and> j \<le> columns - 2 \<and>
          residual_row surface surfaceCopy columns a r = cell_diff surface surfaceCopy columns a j"
        then obtain j where "1 \<le> j" "j \<le> columns - 2"
          "residual_row surface surfaceCopy columns a r = cell_diff surface surfaceCopy columns a j"
          by blast
        then have "a \<in> set (a # rs) \<and> 1 \<le> g_start + (a - 1) \<and> g_start + (a - 1) \<le> global_rows - 2 \<and>
          1 \<le> j \<and> j \<le> columns - 2 \<and> ?R (a # rs) r = cell_diff surface surfaceCopy columns a j"
          using False keep e r' by simp
        then show ?thesis by blast
      qed
    qed
  next
    assume "\<exists>i j. i \<in> set rs \<and> 1 \<le> g_start + (i - 1) \<and> g_start + (i - 1) \<le> global_rows - 2 \<and>
          1 \<le> j \<and> j \<le> columns - 2 \<and> ?R rs ?r' = cell_diff surface surfaceCopy columns i j"
    then obtain i j where "i \<in> set rs" "1 \<le> g_start + (i - 1)" "g_start + (i - 1) \<le> global_rows - 2"
      "1 \<le> j" "j \<le> columns - 2" "?R rs ?r' = cell_diff surface surfaceCopy columns i j"
      by blast
    then have "i \<in> set (a # rs) \<and> 1 \<le> g_start + (i - 1) \<and> g_start + (i - 1) \<le> global_rows - 2 \<and>
          1 \<le> j \<and> j \<le> columns - 2 \<and> ?R (a # rs) r = cell_diff surface surfaceCopy columns i j"
      using e by simp
    then show ?thesis by blast
  qed
qed

lemma local_residual_is_max:
  "(\<forall>i j. owned_interior global_rows columns chunk g_start i j \<longrightarrow>
      cell_diff surface surfaceCopy columns i j \<le>
      local_residual global_rows columns chunk g_start surface surfaceCopy)
   \<and> ((\<exists>i j. owned_interior global_rows columns chunk g_start i j \<and>
         local_residual global_rows columns chunk g_start surface surfaceCopy =
         cell_diff surface surfaceCopy columns i j)
      \<or> (local_residual global_rows columns chunk g_start surface surfaceCopy = 0 \<and>
         (\<forall>i j. \<not> owned_interior global_rows columns chunk g_start i j)))"
proof -
  let ?res = "local_residual global_rows columns chunk g_start surface surfaceCopy"
  have ub: "\<forall>i j. owned_interior global_rows columns chunk g_start i j \<longrightarrow>
      cell_diff surface surfaceCopy columns i j \<le> ?res"
  proof (intro allI impI)
    fix i j assume "owned_interior global_rows columns chunk g_start i j"
    then show "cell_diff surface surfaceCopy columns i j \<le> ?res"
      unfolding local_residual_rows owned_interior_def
      by (intro residual_rows_ge_cell) simp_all
  qed
  from residual_rows_attained[of global_rows columns g_start surface surfaceCopy "[1..chunk]" 0]
  have "(\<exists>i j. owned_interior global_rows columns chunk g_start i j \<and>
         ?res = cell_diff surface surfaceCopy columns i j)
      \<or> (?res = 0 \<and> (\<forall>i j. \<not> owned_interior global_rows columns chunk g_start i j))"
  proof
    assume z: "residual_rows global_rows columns g_start surface surfaceCopy [1..chunk] 0 = 0"
    show ?thesis
    proof (cases "\<exists>i j. owned_interior global_rows columns chunk g_start i j")
      case True
      then obtain i j where oi: "owned_interior global_rows columns chunk g_start i j" by blast
      then have "cell_diff surface surfaceCopy columns i j \<le> 0"
        using ub z by (simp add: local_residual_rows)
      moreover have "0 \<le> cell_diff surface surfaceCopy columns i j"
        by (simp add: cell_diff_def)
      ultimately have "?res = cell_diff surface surfaceCopy columns i j"
        using z by (simp add: local_residual_rows)
      then show ?thesis using oi by blast
    next
      case False
      then show ?thesis using z by (simp add: local_residual_rows)
    qed
  next
    assume "\<exists>i j. i \<in> set [1..chunk] \<and> 1 \<le> g_start + (i - 1) \<and> g_start + (i - 1) \<le> global_rows - 2 \<and>
          1 \<le> j \<and> j \<le> columns - 2 \<and>
          residual_rows global_rows columns g_start surface surfaceCopy [1..chunk] 0 =
          cell_diff surface surfaceCopy columns i j"
    then show ?thesis
      by (auto simp: local_residual_rows owned_interior_def)
  qed
  with ub show ?thesis by blast
qed

section \<open>Writes of a worker stay inside its owned rows\<close>

subsection \<open>Frame lemmas for the heat writes and the team suppression\<close>

lemma fold_frame:
  "(\<And>x s. x \<in> set xs \<Longrightarrow> f x s ! k = s ! k) \<Longrightarrow> fold f xs s ! k = s ! k"
  by (induction xs arbitrary: s) simp_all

lemma fold_length:
  "(\<And>x s. x \<in> set xs \<Longrightarrow> length (f x s) = length s) \<Longrightarrow> length (fold f xs s) = length s"
  by (induction xs arbitrary: s) simp_all

text \<open>A flat position that is not a cell of a local row \<open>1..chunk\<close>.\<close>

definition outside_owned :: "int \<Rightarrow> int \<Rightarrow> int \<Rightarrow> nat \<Rightarrow> bool" where
  "outside_owned columns g_start g_end k \<longleftrightarrow>
     (\<forall>gx j. g_start \<le> gx \<and> gx \<le> g_end \<and> 0 \<le> j \<and> j < columns \<longrightarrow>
        k \<noteq> idx columns ((gx - g_start) + 1) j)"

lemma length_heat_write [simp]:
  "length (heat_write global_rows columns g_start g_end f surface) = length surface"
  by (simp add: heat_write_def Let_def)

lemma length_update_heat [simp]:
  "length (update_heat global_rows columns g_start g_end focal surface) = length surface"
  unfolding update_heat_def by (rule fold_length) simp

lemma heat_write_frame:
  "outside_owned columns g_start g_end k \<Longrightarrow>
   heat_write global_rows columns g_start g_end f surface ! k = surface ! k"
  unfolding heat_write_def outside_owned_def Let_def
  by (auto simp: nth_setMat_other)

lemma update_heat_frame:
  "outside_owned columns g_start g_end k \<Longrightarrow>
   update_heat global_rows columns g_start g_end focal surface ! k = surface ! k"
  unfolding update_heat_def by (rule fold_frame) (rule heat_write_frame)

lemma length_reduce_cell [simp]:
  "length (reduce_cell global_rows columns g_start g_end team radius i j surface) = length surface"
  by (simp add: reduce_cell_def Let_def)

lemma length_reduce_heat [simp]:
  "length (reduce_heat global_rows columns g_start g_end team surface) = length surface"
  unfolding reduce_heat_def Let_def
  by (rule fold_length, rule fold_length) simp

lemma reduce_cell_frame:
  "outside_owned columns g_start g_end k \<Longrightarrow>
   reduce_cell global_rows columns g_start g_end team radius i j surface ! k = surface ! k"
  unfolding reduce_cell_def outside_owned_def Let_def
  by (auto simp: nth_setMat_other)

lemma reduce_heat_frame:
  "outside_owned columns g_start g_end k \<Longrightarrow>
   reduce_heat global_rows columns g_start g_end team surface ! k = surface ! k"
  unfolding reduce_heat_def Let_def
  by (rule fold_frame, rule fold_frame) (rule reduce_cell_frame)

lemma team_actions_fold:
  "fold (\<lambda>team w. w\<lparr>w_focal := deactivate_target team (w_focal w),
                    w_surface := reduce_heat global_rows columns g_start g_end team (w_surface w)\<rparr>) ts w =
   w\<lparr>w_focal := fold deactivate_target ts (w_focal w),
     w_surface := fold (reduce_heat global_rows columns g_start g_end) ts (w_surface w)\<rparr>"
  by (induction ts arbitrary: w) simp_all

lemma team_actions_eq:
  "team_actions global_rows columns g_start g_end w =
   w\<lparr>w_focal := fold deactivate_target (w_teams w) (w_focal w),
     w_surface := fold (reduce_heat global_rows columns g_start g_end) (w_teams w) (w_surface w)\<rparr>"
  by (simp add: team_actions_def team_actions_fold)

lemma team_actions_frame:
  "outside_owned columns g_start g_end k \<Longrightarrow>
   w_surface (team_actions global_rows columns g_start g_end w) ! k = w_surface w ! k"
  by (simp add: team_actions_eq fold_frame reduce_heat_frame)

lemma length_team_actions [simp]:
  "length (w_surface (team_actions global_rows columns g_start g_end w)) = length (w_surface w)"
  by (simp add: team_actions_eq fold_length)

text \<open>The positions of the two halo rows are outside the owned rows.\<close>

lemma outside_owned_top:
  assumes "k < nat columns"
  shows "outside_owned columns g_start g_end k"
  unfolding outside_owned_def
proof (intro allI impI)
  fix gx j
  assume a: "g_start \<le> gx \<and> gx \<le> g_end \<and> 0 \<le> j \<and> j < columns"
  then have "columns \<le> ((gx - g_start) + 1) * columns"
    using mult_right_mono[of 1 "(gx - g_start) + 1" columns] by simp
  then have "columns \<le> ((gx - g_start) + 1) * columns + j" using a by linarith
  then show "k \<noteq> idx columns ((gx - g_start) + 1) j"
    using assms by (simp add: idx_def)
qed

lemma outside_owned_bottom:
  assumes "nat ((g_end - g_start + 2) * columns) \<le> k"
  shows "outside_owned columns g_start g_end k"
  unfolding outside_owned_def
proof (intro allI impI)
  fix gx j
  assume a: "g_start \<le> gx \<and> gx \<le> g_end \<and> 0 \<le> j \<and> j < columns"
  then have "((gx - g_start) + 1) * columns \<le> (g_end - g_start + 1) * columns"
    by (intro mult_right_mono) simp_all
  moreover have "(g_end - g_start + 2) * columns = (g_end - g_start + 1) * columns + columns"
    by (simp add: algebra_simps)
  ultimately have "((gx - g_start) + 1) * columns + j < (g_end - g_start + 2) * columns"
    using a by linarith
  moreover have "0 \<le> ((gx - g_start) + 1) * columns + j" using a by simp
  ultimately show "k \<noteq> idx columns ((gx - g_start) + 1) j"
    using assms by (simp add: idx_def)
qed


text \<open>
  Claim C6.  On the worker of rank \<open>rank\<close>, with owned global rows
  \<open>[rank * chunk, rank * chunk + chunk - 1]\<close>, the heat writes of the active focal points
  and the heat suppression of the teams change only buffer positions that hold a cell of
  an owned global row: every other position keeps its value, in particular every cell of
  the two halo rows (local rows \<open>0\<close> and \<open>chunk + 1\<close>), and the buffer keeps its length.
\<close>

theorem owned_rows_only:
  "(\<forall>k. outside_owned columns (g_start_of chunk rank) (g_end_of chunk rank) k \<longrightarrow>
       update_heat global_rows columns (g_start_of chunk rank) (g_end_of chunk rank) focal surface ! k =
         surface ! k
     \<and> w_surface (team_actions global_rows columns (g_start_of chunk rank) (g_end_of chunk rank) w) ! k =
         w_surface w ! k)
   \<and> (\<forall>j. 0 \<le> j \<and> j < columns \<longrightarrow>
       accessMat (update_heat global_rows columns (g_start_of chunk rank) (g_end_of chunk rank)
                   focal surface) columns 0 j = accessMat surface columns 0 j
     \<and> accessMat (update_heat global_rows columns (g_start_of chunk rank) (g_end_of chunk rank)
                   focal surface) columns (chunk + 1) j = accessMat surface columns (chunk + 1) j
     \<and> accessMat (w_surface (team_actions global_rows columns (g_start_of chunk rank)
                   (g_end_of chunk rank) w)) columns 0 j = accessMat (w_surface w) columns 0 j
     \<and> accessMat (w_surface (team_actions global_rows columns (g_start_of chunk rank)
                   (g_end_of chunk rank) w)) columns (chunk + 1) j =
         accessMat (w_surface w) columns (chunk + 1) j)
   \<and> length (update_heat global_rows columns (g_start_of chunk rank) (g_end_of chunk rank)
               focal surface) = length surface
   \<and> length (w_surface (team_actions global_rows columns (g_start_of chunk rank)
               (g_end_of chunk rank) w)) = length (w_surface w)"
proof (intro conjI allI impI)
  fix j
  assume j: "0 \<le> j \<and> j < columns"
  have top: "outside_owned columns (g_start_of chunk rank) (g_end_of chunk rank) (idx columns 0 j)"
    using j by (intro outside_owned_top) (simp add: idx_def)
  have e: "g_end_of chunk rank - g_start_of chunk rank + 2 = chunk + 1"
    by (simp add: g_end_of_def)
  have "nat ((chunk + 1) * columns) \<le> nat ((chunk + 1) * columns + j)"
    using j by (intro nat_mono) linarith
  then have "nat ((g_end_of chunk rank - g_start_of chunk rank + 2) * columns) \<le>
      idx columns (chunk + 1) j"
    by (simp only: e idx_def)
  then have bot: "outside_owned columns (g_start_of chunk rank) (g_end_of chunk rank)
      (idx columns (chunk + 1) j)"
    by (rule outside_owned_bottom)
  show "accessMat (update_heat global_rows columns (g_start_of chunk rank) (g_end_of chunk rank)
          focal surface) columns 0 j = accessMat surface columns 0 j"
    unfolding accessMat_def using top by (rule update_heat_frame)
  show "accessMat (update_heat global_rows columns (g_start_of chunk rank) (g_end_of chunk rank)
          focal surface) columns (chunk + 1) j = accessMat surface columns (chunk + 1) j"
    unfolding accessMat_def using bot by (rule update_heat_frame)
  show "accessMat (w_surface (team_actions global_rows columns (g_start_of chunk rank)
          (g_end_of chunk rank) w)) columns 0 j = accessMat (w_surface w) columns 0 j"
    unfolding accessMat_def using top by (rule team_actions_frame)
  show "accessMat (w_surface (team_actions global_rows columns (g_start_of chunk rank)
          (g_end_of chunk rank) w)) columns (chunk + 1) j =
        accessMat (w_surface w) columns (chunk + 1) j"
    unfolding accessMat_def using bot by (rule team_actions_frame)
qed (simp_all add: update_heat_frame team_actions_frame)

theorem owned_rows_only_witness:
  "outside_owned 4 (g_start_of 2 1) (g_end_of 2 1) 0
   \<and> update_heat 4 4 (g_start_of 2 1) (g_end_of 2 1)
        [\<lparr>f_x = 2, f_y = 1, f_start = 0, f_heat = 100, f_active = 1\<rparr>] (replicate 16 1) ! 0 = 1
   \<and> w_surface (team_actions 4 4 (g_start_of 2 1) (g_end_of 2 1)
        \<lparr>w_surface = replicate 16 1, w_surfaceCopy = replicate 16 0,
         w_teams = [\<lparr>t_x = 2, t_y = 2, t_type = 1, t_target = - 1\<rparr>], w_focal = [],
         w_iter = 0, w_flag_stability = False, w_num_deactivated = 0,
         w_global_residual = 0\<rparr>) ! 0 = 1
   \<and> (0::int) \<le> 1 \<and> (1::int) < 4
   \<and> accessMat (update_heat 4 4 (g_start_of 2 1) (g_end_of 2 1)
        [\<lparr>f_x = 2, f_y = 1, f_start = 0, f_heat = 100, f_active = 1\<rparr>] (replicate 16 1)) 4 (2 + 1) 1 = 1"
proof -
  let ?f = "[\<lparr>f_x = 2, f_y = 1, f_start = 0, f_heat = 100, f_active = 1\<rparr>]"
  let ?w = "\<lparr>w_surface = replicate 16 1, w_surfaceCopy = replicate 16 0,
         w_teams = [\<lparr>t_x = 2, t_y = 2, t_type = 1, t_target = - 1\<rparr>], w_focal = [],
         w_iter = 0, w_flag_stability = False, w_num_deactivated = 0,
         w_global_residual = 0\<rparr>"
  note t = owned_rows_only[of 4 2 1 4 ?f "replicate 16 1" ?w]
  have o: "outside_owned 4 (g_start_of 2 1) (g_end_of 2 1) 0"
    by (rule outside_owned_top) simp
  from t o have "update_heat 4 4 (g_start_of 2 1) (g_end_of 2 1) ?f (replicate 16 1) ! 0 =
      replicate 16 (1::real) ! 0
    \<and> w_surface (team_actions 4 4 (g_start_of 2 1) (g_end_of 2 1) ?w) ! 0 = w_surface ?w ! 0"
    by blast
  moreover from t have "(0::int) \<le> 1 \<and> (1::int) < 4 \<longrightarrow>
     accessMat (update_heat 4 4 (g_start_of 2 1) (g_end_of 2 1) ?f (replicate 16 1)) 4 (2 + 1) 1 =
     accessMat (replicate 16 1) 4 (2 + 1) 1"
    by blast
  moreover have "accessMat (replicate 16 1) 4 (2 + 1) 1 = (1::real)"
    by (simp add: accessMat_def idx_def)
  ultimately show ?thesis using o by simp
qed

section \<open>The halo exchange\<close>

subsection \<open>Rows of a buffer\<close>

lemma length_store_row [simp]: "length (store_row arr columns i row) = length arr"
  by (simp add: store_row_def)

lemma nth_store_row:
  "k < length arr \<Longrightarrow>
   store_row arr columns i row ! k =
     (if idx columns i 0 \<le> k \<and> k < idx columns i 0 + nat columns
      then row ! (k - idx columns i 0) else arr ! k)"
  by (simp add: store_row_def)

lemma length_row_of:
  "idx columns i 0 + nat columns \<le> length arr \<Longrightarrow> length (row_of arr columns i) = nat columns"
  by (simp add: row_of_def)

lemma row_of_store_row_same:
  assumes "length row = nat columns" "idx columns i 0 + nat columns \<le> length arr"
  shows "row_of (store_row arr columns i row) columns i = row"
proof (rule nth_equalityI)
  show "length (row_of (store_row arr columns i row) columns i) = length row"
    using assms by (simp add: row_of_def)
next
  fix k
  assume "k < length (row_of (store_row arr columns i row) columns i)"
  then have k: "k < nat columns" by (simp add: row_of_def)
  then have "idx columns i 0 + k < length arr" using assms by linarith
  then show "row_of (store_row arr columns i row) columns i ! k = row ! k"
    using k assms by (simp add: row_of_def nth_store_row)
qed

lemma row_of_store_row_other:
  assumes "idx columns i' 0 + nat columns \<le> idx columns i 0 \<or>
           idx columns i 0 + nat columns \<le> idx columns i' 0"
  shows "row_of (store_row arr columns i row) columns i' = row_of arr columns i'"
proof (rule nth_equalityI)
  show "length (row_of (store_row arr columns i row) columns i') = length (row_of arr columns i')"
    by (simp add: row_of_def)
next
  fix k
  assume "k < length (row_of (store_row arr columns i row) columns i')"
  then have "k < nat columns \<and> k < length arr - idx columns i' 0"
    by (simp add: row_of_def)
  then have k: "k < nat columns" "idx columns i' 0 + k < length arr"
    by linarith+
  have "\<not> (idx columns i 0 \<le> idx columns i' 0 + k \<and>
            idx columns i' 0 + k < idx columns i 0 + nat columns)"
    using assms k by linarith
  then have "store_row arr columns i row ! (idx columns i' 0 + k) = arr ! (idx columns i' 0 + k)"
    using k(2) by (simp only: nth_store_row if_False)
  then show "row_of (store_row arr columns i row) columns i' ! k = row_of arr columns i' ! k"
    using k by (simp add: row_of_def)
qed

lemma rows_apart:
  assumes "0 \<le> columns" "0 \<le> i'" "i' < i"
  shows "idx columns i' 0 + nat columns \<le> idx columns i 0"
proof -
  have "(i' + 1) * columns \<le> i * columns"
    using assms by (intro mult_right_mono) simp_all
  then have "i' * columns + columns \<le> i * columns" by (simp add: algebra_simps)
  moreover have "0 \<le> i' * columns" using assms by simp
  ultimately show ?thesis using assms by (simp add: idx_def nat_add_distrib[symmetric] nat_le_eq_zle)
qed

lemma row_of_store_row_diff:
  assumes "0 \<le> columns" "0 \<le> i" "0 \<le> i'" "i \<noteq> i'"
  shows "row_of (store_row arr columns i row) columns i' = row_of arr columns i'"
proof (rule row_of_store_row_other)
  show "idx columns i' 0 + nat columns \<le> idx columns i 0 \<or>
        idx columns i 0 + nat columns \<le> idx columns i' 0"
    using assms rows_apart[of columns i' i] rows_apart[of columns i i'] by linarith
qed

lemma row_fits:
  assumes "0 \<le> columns" "0 \<le> i" "i \<le> chunk + 1" "length arr = nat ((chunk + 2) * columns)"
  shows "idx columns i 0 + nat columns \<le> length arr"
proof -
  have "(i + 1) * columns \<le> (chunk + 2) * columns"
    using assms by (intro mult_right_mono) simp_all
  then have "i * columns + columns \<le> (chunk + 2) * columns" by (simp add: algebra_simps)
  moreover have "0 \<le> i * columns" using assms by simp
  ultimately show ?thesis
    using assms by (simp add: idx_def nat_add_distrib[symmetric] nat_le_eq_zle)
qed

subsection \<open>One pair of matching calls\<close>

lemma length_pair_exchange [simp]: "length (pair_exchange columns chunk r ws) = length ws"
  by (simp add: pair_exchange_def Let_def)

lemma pair_exchange_upper:
  "Suc r < length ws \<Longrightarrow>
   pair_exchange columns chunk r ws ! r =
     (ws ! r)\<lparr>w_surface := store_row (w_surface (ws ! r)) columns (chunk + 1)
                              (row_of (w_surface (ws ! Suc r)) columns 1)\<rparr>"
  by (simp add: pair_exchange_def Let_def)

lemma pair_exchange_lower:
  "Suc r < length ws \<Longrightarrow>
   pair_exchange columns chunk r ws ! Suc r =
     (ws ! Suc r)\<lparr>w_surface := store_row (w_surface (ws ! Suc r)) columns 0
                                  (row_of (w_surface (ws ! r)) columns chunk)\<rparr>"
  by (simp add: pair_exchange_def Let_def)

lemma pair_exchange_other:
  "q \<noteq> r \<Longrightarrow> q \<noteq> Suc r \<Longrightarrow> pair_exchange columns chunk r ws ! q = ws ! q"
  by (simp add: pair_exchange_def Let_def)

subsection \<open>The whole exchange\<close>

text \<open>
  What rank \<open>q\<close> holds once its own calls have returned: its top halo row replaced by
  the last owned row of rank \<open>q - 1\<close> (if there is one), then its bottom halo row
  replaced by the first owned row of rank \<open>q + 1\<close> (if there is one).
\<close>

definition top_received :: "int \<Rightarrow> int \<Rightarrow> Worker list \<Rightarrow> nat \<Rightarrow> Worker" where
  "top_received columns chunk ws q =
     (if 0 < q
      then (ws ! q)\<lparr>w_surface := store_row (w_surface (ws ! q)) columns 0
                                   (row_of (w_surface (ws ! (q - 1))) columns chunk)\<rparr>
      else ws ! q)"

definition exchanged :: "int \<Rightarrow> int \<Rightarrow> Worker list \<Rightarrow> nat \<Rightarrow> Worker" where
  "exchanged columns chunk ws q =
     (if Suc q < length ws
      then (top_received columns chunk ws q)\<lparr>w_surface :=
             store_row (w_surface (top_received columns chunk ws q)) columns (chunk + 1)
               (row_of (w_surface (ws ! Suc q)) columns 1)\<rparr>
      else top_received columns chunk ws q)"

lemma row_chunk_top_received:
  assumes "0 \<le> columns" "1 \<le> chunk"
  shows "row_of (w_surface (top_received columns chunk ws q)) columns chunk =
         row_of (w_surface (ws ! q)) columns chunk"
  using assms by (simp add: top_received_def row_of_store_row_diff)

lemma partial_exchange:
  assumes "0 \<le> columns" "1 \<le> chunk" "m < length ws"
  shows "length (fold (pair_exchange columns chunk) [0..<m] ws) = length ws \<and>
         (\<forall>q<length ws. fold (pair_exchange columns chunk) [0..<m] ws ! q =
            (if q < m then exchanged columns chunk ws q
             else if q = m then top_received columns chunk ws q
             else ws ! q))"
  using assms(3)
proof (induction m)
  case 0
  then show ?case by (simp add: top_received_def)
next
  case (Suc m)
  let ?X = "fold (pair_exchange columns chunk) [0..<m] ws"
  have m: "m < length ws" "Suc m < length ws" using Suc.prems by simp_all
  have len: "length ?X = length ws"
    and X: "\<And>q. q < length ws \<Longrightarrow> ?X ! q =
            (if q < m then exchanged columns chunk ws q
             else if q = m then top_received columns chunk ws q
             else ws ! q)"
    using Suc.IH[OF m(1)] by simp_all
  have step: "fold (pair_exchange columns chunk) [0..<Suc m] ws = pair_exchange columns chunk m ?X"
    by simp
  have Xm: "?X ! m = top_received columns chunk ws m" using X[OF m(1)] by simp
  have XSm: "?X ! Suc m = ws ! Suc m" using X[OF m(2)] by simp
  have up: "pair_exchange columns chunk m ?X ! m = exchanged columns chunk ws m"
    using m len by (simp add: pair_exchange_upper Xm XSm exchanged_def)
  have "pair_exchange columns chunk m ?X ! Suc m =
      (ws ! Suc m)\<lparr>w_surface := store_row (w_surface (ws ! Suc m)) columns 0
         (row_of (w_surface (top_received columns chunk ws m)) columns chunk)\<rparr>"
    using m len by (simp add: pair_exchange_lower Xm XSm)
  then have low: "pair_exchange columns chunk m ?X ! Suc m = top_received columns chunk ws (Suc m)"
    using assms(1,2) by (simp add: row_chunk_top_received top_received_def[of _ _ _ "Suc m"])
  show ?case
  proof (intro conjI allI impI)
    show "length (fold (pair_exchange columns chunk) [0..<Suc m] ws) = length ws"
      using len by (simp only: step length_pair_exchange)
  next
    fix q assume q: "q < length ws"
    consider "q = m" | "q = Suc m" | "q < m" | "Suc m < q" by linarith
    then show "fold (pair_exchange columns chunk) [0..<Suc m] ws ! q =
            (if q < Suc m then exchanged columns chunk ws q
             else if q = Suc m then top_received columns chunk ws q
             else ws ! q)"
    proof cases
      case 1
      then show ?thesis using up by (simp only: step) simp
    next
      case 2
      then show ?thesis using low by (simp only: step) simp
    next
      case 3
      then have "pair_exchange columns chunk m ?X ! q = ?X ! q"
        by (intro pair_exchange_other) simp_all
      then show ?thesis using 3 X[OF q] by (simp only: step) simp
    next
      case 4
      then have "pair_exchange columns chunk m ?X ! q = ?X ! q"
        by (intro pair_exchange_other) simp_all
      then show ?thesis using 4 X[OF q] by (simp only: step) simp
    qed
  qed
qed

lemma length_halo_exchange [simp]: "length (halo_exchange columns chunk ws) = length ws"
  unfolding halo_exchange_def by (rule fold_length) simp

lemma halo_exchange_nth:
  assumes "0 \<le> columns" "1 \<le> chunk" "q < length ws"
  shows "halo_exchange columns chunk ws ! q = exchanged columns chunk ws q"
proof -
  have m: "length ws - 1 < length ws" using assms by simp
  from partial_exchange[OF assms(1,2) m] assms(3)
  have "halo_exchange columns chunk ws ! q =
      (if q < length ws - 1 then exchanged columns chunk ws q
       else if q = length ws - 1 then top_received columns chunk ws q
       else ws ! q)"
    by (simp add: halo_exchange_def)
  moreover have "q = length ws - 1 \<Longrightarrow> exchanged columns chunk ws q = top_received columns chunk ws q"
    by (simp add: exchanged_def)
  ultimately show ?thesis using assms(3) by (cases "q < length ws - 1") auto
qed


lemma halo_exchange_rows:
  assumes c: "0 \<le> columns" and ch: "1 \<le> chunk"
    and len: "\<forall>w\<in>set ws. length (w_surface w) = nat ((chunk + 2) * columns)"
  shows "(\<forall>r. Suc r < length ws \<longrightarrow>
            row_of (w_surface (halo_exchange columns chunk ws ! r)) columns (chunk + 1) =
              row_of (w_surface (ws ! Suc r)) columns 1
          \<and> row_of (w_surface (halo_exchange columns chunk ws ! Suc r)) columns 0 =
              row_of (w_surface (ws ! r)) columns chunk)
       \<and> (\<forall>r i. r < length ws \<and> 1 \<le> i \<and> i \<le> chunk \<longrightarrow>
            row_of (w_surface (halo_exchange columns chunk ws ! r)) columns i =
              row_of (w_surface (ws ! r)) columns i)
       \<and> (ws \<noteq> [] \<longrightarrow>
            row_of (w_surface (halo_exchange columns chunk ws ! 0)) columns 0 =
              row_of (w_surface (ws ! 0)) columns 0
          \<and> row_of (w_surface (halo_exchange columns chunk ws ! (length ws - 1))) columns (chunk + 1) =
              row_of (w_surface (ws ! (length ws - 1))) columns (chunk + 1))
       \<and> (\<forall>r<length ws. length (w_surface (halo_exchange columns chunk ws ! r)) =
              length (w_surface (ws ! r)))"
proof -
  have L: "\<And>q. q < length ws \<Longrightarrow> length (w_surface (ws ! q)) = nat ((chunk + 2) * columns)"
    using len by simp
  have fits: "\<And>q i. q < length ws \<Longrightarrow> 0 \<le> i \<Longrightarrow> i \<le> chunk + 1 \<Longrightarrow>
      idx columns i 0 + nat columns \<le> length (w_surface (ws ! q))"
    using row_fits[OF c] L by blast
  have H: "\<And>q. q < length ws \<Longrightarrow> halo_exchange columns chunk ws ! q = exchanged columns chunk ws q"
    using halo_exchange_nth[OF c ch] by blast
  have Ltop: "\<And>q. q < length ws \<Longrightarrow>
      length (w_surface (top_received columns chunk ws q)) = length (w_surface (ws ! q))"
    by (simp add: top_received_def)
  show ?thesis
  proof (intro conjI allI impI)
    fix r assume r: "Suc r < length ws"
    have rl: "r < length ws" using r by simp
    have "length (row_of (w_surface (ws ! Suc r)) columns 1) = nat columns"
      using fits[OF r, of 1] ch by (intro length_row_of) simp
    moreover have "idx columns (chunk + 1) 0 + nat columns \<le>
        length (w_surface (top_received columns chunk ws r))"
      using fits[OF rl, of "chunk + 1"] ch by (simp add: Ltop[OF rl])
    ultimately show "row_of (w_surface (halo_exchange columns chunk ws ! r)) columns (chunk + 1) =
        row_of (w_surface (ws ! Suc r)) columns 1"
      using r by (simp add: H[OF rl] exchanged_def row_of_store_row_same)
  next
    fix r assume r: "Suc r < length ws"
    have rl: "r < length ws" using r by simp
    have lr: "length (row_of (w_surface (ws ! r)) columns chunk) = nat columns"
      using fits[OF rl, of chunk] ch by (intro length_row_of) simp
    have f0: "idx columns 0 0 + nat columns \<le> length (w_surface (ws ! Suc r))"
      using fits[OF r, of 0] ch by simp
    have top: "row_of (w_surface (top_received columns chunk ws (Suc r))) columns 0 =
        row_of (w_surface (ws ! r)) columns chunk"
      using lr f0 by (simp add: top_received_def row_of_store_row_same)
    show "row_of (w_surface (halo_exchange columns chunk ws ! Suc r)) columns 0 =
        row_of (w_surface (ws ! r)) columns chunk"
      using c ch top by (simp add: H[OF r] exchanged_def row_of_store_row_diff)
  next
    fix r i assume a: "r < length ws \<and> 1 \<le> i \<and> i \<le> chunk"
    have top: "row_of (w_surface (top_received columns chunk ws r)) columns i =
        row_of (w_surface (ws ! r)) columns i"
      using a c by (simp add: top_received_def row_of_store_row_diff)
    show "row_of (w_surface (halo_exchange columns chunk ws ! r)) columns i =
        row_of (w_surface (ws ! r)) columns i"
      using a c top by (simp add: H exchanged_def row_of_store_row_diff)
  next
    assume ne: "ws \<noteq> []"
    then have z: "0 < length ws" by simp
    show "row_of (w_surface (halo_exchange columns chunk ws ! 0)) columns 0 =
        row_of (w_surface (ws ! 0)) columns 0"
      using c ch by (simp add: H[OF z] exchanged_def top_received_def row_of_store_row_diff)
  next
    assume ne: "ws \<noteq> []"
    then have l: "length ws - 1 < length ws" by simp
    have "exchanged columns chunk ws (length ws - 1) = top_received columns chunk ws (length ws - 1)"
      using ne by (simp add: exchanged_def)
    then have e: "halo_exchange columns chunk ws ! (length ws - 1) =
        top_received columns chunk ws (length ws - 1)"
      using H[OF l] by simp
    have "row_of (w_surface (top_received columns chunk ws (length ws - 1))) columns (chunk + 1) =
        row_of (w_surface (ws ! (length ws - 1))) columns (chunk + 1)"
      using c ch by (simp add: top_received_def row_of_store_row_diff)
    then show "row_of (w_surface (halo_exchange columns chunk ws ! (length ws - 1))) columns (chunk + 1) =
        row_of (w_surface (ws ! (length ws - 1))) columns (chunk + 1)"
      by (simp only: e)
  next
    fix r assume r: "r < length ws"
    show "length (w_surface (halo_exchange columns chunk ws ! r)) = length (w_surface (ws ! r))"
      by (simp add: H[OF r] exchanged_def top_received_def)
  qed
qed

subsection \<open>The phases of a sub-step, rank by rank\<close>

lemma length_map_rank [simp]: "length (map_rank f ws) = length ws"
  by (simp add: map_rank_def)

lemma nth_map_rank: "q < length ws \<Longrightarrow> map_rank f ws ! q = f (int q) (ws ! q)"
  by (simp add: map_rank_def)

lemma length_heat_phase [simp]: "length (heat_phase global_rows columns ws) = length ws"
  by (simp add: heat_phase_def Let_def)

lemma length_copy_phase [simp]: "length (copy_phase global_rows columns ws) = length ws"
  by (simp add: copy_phase_def Let_def)

lemma length_stencil_phase [simp]: "length (stencil_phase global_rows columns ws) = length ws"
  by (simp add: stencil_phase_def Let_def)

lemma length_residual_phase [simp]: "length (residual_phase global_rows columns ws) = length ws"
  by (simp add: residual_phase_def)

lemma length_sub_step [simp]: "length (sub_step global_rows columns ws) = length ws"
  by (simp add: sub_step_def)

lemma nth_heat_phase:
  "q < length ws \<Longrightarrow>
   heat_phase global_rows columns ws ! q =
     (ws ! q)\<lparr>w_surface := update_heat global_rows columns
        (g_start_of (chunk_of global_rows (int (length ws))) (int q))
        (g_end_of (chunk_of global_rows (int (length ws))) (int q))
        (w_focal (ws ! q)) (w_surface (ws ! q))\<rparr>"
  by (simp add: heat_phase_def Let_def nth_map_rank)

lemma nth_copy_phase:
  "q < length ws \<Longrightarrow>
   copy_phase global_rows columns ws ! q =
     (ws ! q)\<lparr>w_surfaceCopy := copy_surface (chunk_of global_rows (int (length ws)) + 2) columns
        (w_surface (ws ! q)) (w_surfaceCopy (ws ! q))\<rparr>"
  by (simp add: copy_phase_def Let_def)

lemma nth_stencil_phase:
  "q < length ws \<Longrightarrow>
   stencil_phase global_rows columns ws ! q =
     (ws ! q)\<lparr>w_surface := update_surface global_rows columns
        (chunk_of global_rows (int (length ws)))
        (g_start_of (chunk_of global_rows (int (length ws))) (int q))
        (w_surfaceCopy (ws ! q)) (w_surface (ws ! q))\<rparr>"
  by (simp add: stencil_phase_def Let_def nth_map_rank)

lemma nth_residual_phase:
  "q < length ws \<Longrightarrow>
   residual_phase global_rows columns ws ! q =
     (ws ! q)\<lparr>w_global_residual := MPI_Allreduce_MAX (local_residuals global_rows columns ws)\<rparr>"
  by (simp add: residual_phase_def)

lemma copy_surface_whole:
  assumes "0 \<le> columns" "length surface = nat (local_nrows * columns)"
    and "length surfaceCopy = length surface"
  shows "copy_surface local_nrows columns surface surfaceCopy = surface"
proof (cases "local_nrows \<le> 0 \<or> columns \<le> 0")
  case True
  then have "local_nrows * columns \<le> 0"
    using assms(1) by (auto simp: mult_le_0_iff)
  then show ?thesis using assms True by (simp add: copy_surface_def)
next
  case False
  then show ?thesis using assms by (simp add: copy_surface_def)
qed

text \<open>Positions outside the owned rows survive the stencil, and so do the halo rows.\<close>

lemma update_surface_outside:
  assumes "outside_owned columns g_start (g_start + chunk - 1) k"
  shows "update_surface global_rows columns chunk g_start surfaceCopy surface ! k = surface ! k"
  unfolding update_surface_rows
proof (rule nth_stencil_rows_other, intro ballI allI impI)
  fix i j
  assume i: "i \<in> set [1..chunk]"
    and j: "1 \<le> g_start + (i - 1) \<and> g_start + (i - 1) \<le> global_rows - 2 \<and> 1 \<le> j \<and> j \<le> columns - 2"
  have "g_start \<le> g_start + (i - 1) \<and> g_start + (i - 1) \<le> g_start + chunk - 1 \<and> 0 \<le> j \<and> j < columns"
    using i j by simp
  then have "k \<noteq> idx columns ((g_start + (i - 1) - g_start) + 1) j"
    using assms unfolding outside_owned_def by blast
  then show "idx columns i j \<noteq> k" by simp
qed

lemma row_of_cong:
  assumes "length a = length b"
    and "\<And>k. idx columns i 0 \<le> k \<Longrightarrow> k < idx columns i 0 + nat columns \<Longrightarrow> a ! k = b ! k"
  shows "row_of a columns i = row_of b columns i"
proof (rule nth_equalityI)
  show "length (row_of a columns i) = length (row_of b columns i)"
    using assms(1) by (simp add: row_of_def)
next
  fix k assume "k < length (row_of a columns i)"
  then have "k < nat columns \<and> k < length a - idx columns i 0" by (simp add: row_of_def)
  then have k: "k < nat columns" "idx columns i 0 + k < length a" by linarith+
  then show "row_of a columns i ! k = row_of b columns i ! k"
    using assms by (simp add: row_of_def)
qed

lemma halo_rows_frame:
  assumes "length a = length b"
    and "\<And>k. outside_owned columns g_start (g_start + chunk - 1) k \<Longrightarrow> a ! k = b ! k"
  shows "row_of a columns 0 = row_of b columns 0 \<and>
         row_of a columns (chunk + 1) = row_of b columns (chunk + 1)"
proof
  show "row_of a columns 0 = row_of b columns 0"
  proof (rule row_of_cong[OF assms(1)])
    fix k assume "k < idx columns 0 0 + nat columns"
    then have "k < nat columns" by (simp add: idx_def)
    then show "a ! k = b ! k" by (intro assms(2) outside_owned_top)
  qed
next
  show "row_of a columns (chunk + 1) = row_of b columns (chunk + 1)"
  proof (rule row_of_cong[OF assms(1)])
    fix k assume "idx columns (chunk + 1) 0 \<le> k"
    moreover have "g_start + chunk - 1 - g_start + 2 = chunk + 1" by simp
    ultimately have "nat ((g_start + chunk - 1 - g_start + 2) * columns) \<le> k"
      by (simp only: idx_def add_0_right)
    then show "a ! k = b ! k" by (intro assms(2) outside_owned_bottom)
  qed
qed


lemma heat_phase_lengths:
  assumes "\<forall>w\<in>set ws. length (w_surface w) = n"
  shows "\<forall>w\<in>set (heat_phase global_rows columns ws). length (w_surface w) = n"
proof
  fix w assume "w \<in> set (heat_phase global_rows columns ws)"
  then obtain q where q: "q < length ws" "w = heat_phase global_rows columns ws ! q"
    by (auto simp: in_set_conv_nth)
  then show "length (w_surface w) = n"
    using assms by (simp add: nth_heat_phase)
qed

lemma heat_phase_halo:
  assumes "q < length ws"
  shows "row_of (w_surface (heat_phase global_rows columns ws ! q)) columns 0 =
           row_of (w_surface (ws ! q)) columns 0 \<and>
         row_of (w_surface (heat_phase global_rows columns ws ! q)) columns
           (chunk_of global_rows (int (length ws)) + 1) =
           row_of (w_surface (ws ! q)) columns (chunk_of global_rows (int (length ws)) + 1)"
proof -
  define chunk where "chunk = chunk_of global_rows (int (length ws))"
  define gs where "gs = g_start_of chunk (int q)"
  have ge: "g_end_of chunk (int q) = gs + chunk - 1" by (simp add: g_end_of_def gs_def)
  have "row_of (update_heat global_rows columns gs (gs + chunk - 1) (w_focal (ws ! q))
            (w_surface (ws ! q))) columns 0 = row_of (w_surface (ws ! q)) columns 0 \<and>
        row_of (update_heat global_rows columns gs (gs + chunk - 1) (w_focal (ws ! q))
            (w_surface (ws ! q))) columns (chunk + 1) =
        row_of (w_surface (ws ! q)) columns (chunk + 1)"
    by (rule halo_rows_frame[where g_start = gs]) (simp_all add: update_heat_frame)
  moreover have "w_surface (heat_phase global_rows columns ws ! q) =
      update_heat global_rows columns gs (gs + chunk - 1) (w_focal (ws ! q)) (w_surface (ws ! q))"
    using assms by (simp add: nth_heat_phase g_end_of_def chunk_def gs_def)
  ultimately show ?thesis by (simp only: chunk_def)
qed

lemma stencil_halo:
  "row_of (update_surface global_rows columns chunk g_start surfaceCopy surface) columns 0 =
     row_of surface columns 0 \<and>
   row_of (update_surface global_rows columns chunk g_start surfaceCopy surface) columns (chunk + 1) =
     row_of surface columns (chunk + 1)"
  by (rule halo_rows_frame[where g_start = g_start])
     (simp_all add: update_surface_outside, simp add: update_surface_rows)

text \<open>The state of rank \<open>q\<close> between the exchange and the stencil, and after the sub-step.\<close>

definition after_exchange :: "int \<Rightarrow> int \<Rightarrow> Worker list \<Rightarrow> Worker list" where
  "after_exchange global_rows columns ws =
     halo_exchange columns (chunk_of global_rows (int (length ws)))
       (heat_phase global_rows columns ws)"

lemma length_after_exchange [simp]: "length (after_exchange global_rows columns ws) = length ws"
  by (simp add: after_exchange_def)

lemma sub_step_surface:
  assumes "q < length ws"
  shows "w_surface (sub_step global_rows columns ws ! q) =
      update_surface global_rows columns (chunk_of global_rows (int (length ws)))
        (g_start_of (chunk_of global_rows (int (length ws))) (int q))
        (w_surfaceCopy (sub_step global_rows columns ws ! q))
        (w_surface (after_exchange global_rows columns ws ! q))"
    and "w_surfaceCopy (sub_step global_rows columns ws ! q) =
      copy_surface (chunk_of global_rows (int (length ws)) + 2) columns
        (w_surface (after_exchange global_rows columns ws ! q))
        (w_surfaceCopy (after_exchange global_rows columns ws ! q))"
  using assms
  by (simp_all add: sub_step_def after_exchange_def nth_residual_phase nth_stencil_phase nth_copy_phase)

lemma after_exchange_rows:
  assumes c: "0 \<le> columns" and ch: "1 \<le> chunk_of global_rows (int (length ws))"
    and len: "\<forall>w\<in>set ws. length (w_surface w) =
                nat ((chunk_of global_rows (int (length ws)) + 2) * columns)"
  shows "(\<forall>r. Suc r < length ws \<longrightarrow>
            row_of (w_surface (after_exchange global_rows columns ws ! r)) columns
                (chunk_of global_rows (int (length ws)) + 1) =
              row_of (w_surface (heat_phase global_rows columns ws ! Suc r)) columns 1
          \<and> row_of (w_surface (after_exchange global_rows columns ws ! Suc r)) columns 0 =
              row_of (w_surface (heat_phase global_rows columns ws ! r)) columns
                (chunk_of global_rows (int (length ws))))
       \<and> (\<forall>r i. r < length ws \<and> 1 \<le> i \<and> i \<le> chunk_of global_rows (int (length ws)) \<longrightarrow>
            row_of (w_surface (after_exchange global_rows columns ws ! r)) columns i =
              row_of (w_surface (heat_phase global_rows columns ws ! r)) columns i)
       \<and> (ws \<noteq> [] \<longrightarrow>
            row_of (w_surface (after_exchange global_rows columns ws ! 0)) columns 0 =
              row_of (w_surface (heat_phase global_rows columns ws ! 0)) columns 0
          \<and> row_of (w_surface (after_exchange global_rows columns ws ! (length ws - 1))) columns
                (chunk_of global_rows (int (length ws)) + 1) =
              row_of (w_surface (heat_phase global_rows columns ws ! (length ws - 1))) columns
                (chunk_of global_rows (int (length ws)) + 1))
       \<and> (\<forall>r<length ws. length (w_surface (after_exchange global_rows columns ws ! r)) =
              nat ((chunk_of global_rows (int (length ws)) + 2) * columns))"
proof -
  define chunk where "chunk = chunk_of global_rows (int (length ws))"
  define heated where "heated = heat_phase global_rows columns ws"
  have lh: "length heated = length ws" by (simp add: heated_def)
  have hl: "\<forall>w\<in>set heated. length (w_surface w) = nat ((chunk + 2) * columns)"
    unfolding heated_def chunk_def using len by (rule heat_phase_lengths)
  have ch': "1 \<le> chunk" using ch by (simp add: chunk_def)
  have ne: "ws \<noteq> [] \<longleftrightarrow> heated \<noteq> []" using lh by (metis length_0_conv)
  have hl': "\<forall>r<length ws. length (w_surface (heated ! r)) = nat ((chunk + 2) * columns)"
    using hl lh by simp
  note ex = halo_exchange_rows[OF c ch' hl, unfolded lh]
  have "\<forall>r<length ws. length (w_surface (halo_exchange columns chunk heated ! r)) =
      nat ((chunk + 2) * columns)"
    using ex hl' by simp
  with ex ne show ?thesis
    unfolding after_exchange_def chunk_def[symmetric] heated_def[symmetric]
    by blast
qed


lemma sub_step_lengths:
  assumes c: "0 \<le> columns" and ch: "1 \<le> chunk_of global_rows (int (length ws))"
    and len: "\<forall>w\<in>set ws. length (w_surface w) =
                nat ((chunk_of global_rows (int (length ws)) + 2) * columns)"
  shows "\<forall>w\<in>set (sub_step global_rows columns ws). length (w_surface w) =
                nat ((chunk_of global_rows (int (length ws)) + 2) * columns)"
proof
  fix w assume "w \<in> set (sub_step global_rows columns ws)"
  then obtain q where q: "q < length ws" "w = sub_step global_rows columns ws ! q"
    by (auto simp: in_set_conv_nth)
  from after_exchange_rows[OF c ch len] q(1)
  have "length (w_surface (after_exchange global_rows columns ws ! q)) =
      nat ((chunk_of global_rows (int (length ws)) + 2) * columns)" by blast
  then show "length (w_surface w) = nat ((chunk_of global_rows (int (length ws)) + 2) * columns)"
    by (simp add: q(2) sub_step_surface(1)[OF q(1)] update_surface_rows)
qed

lemma sub_step_outward_halo:
  assumes c: "0 \<le> columns" and ch: "1 \<le> chunk_of global_rows (int (length ws))"
    and len: "\<forall>w\<in>set ws. length (w_surface w) =
                nat ((chunk_of global_rows (int (length ws)) + 2) * columns)"
    and ne: "ws \<noteq> []"
  shows "row_of (w_surface (sub_step global_rows columns ws ! 0)) columns 0 =
           row_of (w_surface (ws ! 0)) columns 0"
    and "row_of (w_surface (sub_step global_rows columns ws ! (length ws - 1))) columns
           (chunk_of global_rows (int (length ws)) + 1) =
           row_of (w_surface (ws ! (length ws - 1))) columns
             (chunk_of global_rows (int (length ws)) + 1)"
proof -
  define chunk where "chunk = chunk_of global_rows (int (length ws))"
  have z: "0 < length ws" and l: "length ws - 1 < length ws" using ne by simp_all
  note ex = after_exchange_rows[OF c ch len]
  have "row_of (w_surface (sub_step global_rows columns ws ! 0)) columns 0 =
      row_of (w_surface (after_exchange global_rows columns ws ! 0)) columns 0"
    by (simp only: sub_step_surface(1)[OF z] stencil_halo)
  also have "\<dots> = row_of (w_surface (heat_phase global_rows columns ws ! 0)) columns 0"
    using ex ne by blast
  also have "\<dots> = row_of (w_surface (ws ! 0)) columns 0"
    using heat_phase_halo[OF z] by blast
  finally show "row_of (w_surface (sub_step global_rows columns ws ! 0)) columns 0 =
      row_of (w_surface (ws ! 0)) columns 0" .
  have "row_of (w_surface (sub_step global_rows columns ws ! (length ws - 1))) columns
          (chunk_of global_rows (int (length ws)) + 1) =
      row_of (w_surface (after_exchange global_rows columns ws ! (length ws - 1))) columns
          (chunk_of global_rows (int (length ws)) + 1)"
    by (simp only: sub_step_surface(1)[OF l] stencil_halo)
  also have "\<dots> = row_of (w_surface (heat_phase global_rows columns ws ! (length ws - 1))) columns
          (chunk_of global_rows (int (length ws)) + 1)"
    using ex ne by blast
  also have "\<dots> = row_of (w_surface (ws ! (length ws - 1))) columns
          (chunk_of global_rows (int (length ws)) + 1)"
    using heat_phase_halo[OF l] by blast
  finally show "row_of (w_surface (sub_step global_rows columns ws ! (length ws - 1))) columns
           (chunk_of global_rows (int (length ws)) + 1) =
           row_of (w_surface (ws ! (length ws - 1))) columns
             (chunk_of global_rows (int (length ws)) + 1)" .
qed


subsection \<open>The outward halo rows over an outer iteration\<close>

lemma length_activation_phase [simp]: "length (activation_phase ws) = length ws"
  by (simp add: activation_phase_def Let_def)

lemma surface_activation_phase:
  "q < length ws \<Longrightarrow> w_surface (activation_phase ws ! q) = w_surface (ws ! q)"
  by (simp add: activation_phase_def Let_def)

lemma activation_phase_lengths:
  assumes "\<forall>w\<in>set ws. length (w_surface w) = n"
  shows "\<forall>w\<in>set (activation_phase ws). length (w_surface w) = n"
proof
  fix w assume "w \<in> set (activation_phase ws)"
  then obtain q where q: "q < length ws" "w = activation_phase ws ! q"
    by (auto simp: in_set_conv_nth)
  then show "length (w_surface w) = n"
    using assms by (simp add: surface_activation_phase)
qed

lemma length_funpow_sub_step [simp]:
  "length ((sub_step global_rows columns ^^ n) ws) = length ws"
  by (induction n) simp_all

lemma funpow_sub_step_halo:
  assumes c: "0 \<le> columns" and ch: "1 \<le> chunk_of global_rows (int (length ws))"
    and len: "\<forall>w\<in>set ws. length (w_surface w) =
                nat ((chunk_of global_rows (int (length ws)) + 2) * columns)"
    and ne: "ws \<noteq> []"
  shows "(\<forall>w\<in>set ((sub_step global_rows columns ^^ n) ws). length (w_surface w) =
                nat ((chunk_of global_rows (int (length ws)) + 2) * columns))
       \<and> row_of (w_surface ((sub_step global_rows columns ^^ n) ws ! 0)) columns 0 =
           row_of (w_surface (ws ! 0)) columns 0
       \<and> row_of (w_surface ((sub_step global_rows columns ^^ n) ws ! (length ws - 1))) columns
           (chunk_of global_rows (int (length ws)) + 1) =
           row_of (w_surface (ws ! (length ws - 1))) columns
             (chunk_of global_rows (int (length ws)) + 1)"
proof (induction n)
  case 0
  then show ?case using len by simp
next
  case (Suc n)
  define X where "X = (sub_step global_rows columns ^^ n) ws"
  have lX: "length X = length ws" by (simp add: X_def)
  have chX: "1 \<le> chunk_of global_rows (int (length X))" using ch lX by simp
  have lenX: "\<forall>w\<in>set X. length (w_surface w) =
                nat ((chunk_of global_rows (int (length X)) + 2) * columns)"
    using Suc.IH lX by (simp add: X_def)
  have neX: "X \<noteq> []" using ne lX by (metis length_0_conv)
  have step: "(sub_step global_rows columns ^^ Suc n) ws = sub_step global_rows columns X"
    by (simp add: X_def)
  have "\<forall>w\<in>set (sub_step global_rows columns X). length (w_surface w) =
                nat ((chunk_of global_rows (int (length ws)) + 2) * columns)"
    using sub_step_lengths[OF c chX lenX] lX by simp
  moreover have "row_of (w_surface (sub_step global_rows columns X ! 0)) columns 0 =
           row_of (w_surface (ws ! 0)) columns 0"
    using sub_step_outward_halo(1)[OF c chX lenX neX] Suc.IH by (simp add: X_def)
  moreover have "row_of (w_surface (sub_step global_rows columns X ! (length ws - 1))) columns
           (chunk_of global_rows (int (length ws)) + 1) =
           row_of (w_surface (ws ! (length ws - 1))) columns
             (chunk_of global_rows (int (length ws)) + 1)"
    using sub_step_outward_halo(2)[OF c chX lenX neX] Suc.IH lX by (simp add: X_def)
  ultimately show ?case by (simp only: step)
qed

lemma worker_tail_frame:
  "outside_owned columns (g_start_of chunk rank) (g_end_of chunk rank) k \<Longrightarrow>
   w_surface (worker_tail global_rows columns chunk rank w) ! k = w_surface w ! k"
  by (simp add: worker_tail_def Let_def team_actions_frame stability_test_def)

lemma length_worker_tail [simp]:
  "length (w_surface (worker_tail global_rows columns chunk rank w)) = length (w_surface w)"
  by (simp add: worker_tail_def Let_def stability_test_def)

lemma worker_tail_halo:
  "row_of (w_surface (worker_tail global_rows columns chunk rank w)) columns 0 =
     row_of (w_surface w) columns 0 \<and>
   row_of (w_surface (worker_tail global_rows columns chunk rank w)) columns (chunk + 1) =
     row_of (w_surface w) columns (chunk + 1)"
proof (rule halo_rows_frame[where g_start = "g_start_of chunk rank"])
  show "length (w_surface (worker_tail global_rows columns chunk rank w)) = length (w_surface w)"
    by simp
next
  fix k
  assume "outside_owned columns (g_start_of chunk rank) (g_start_of chunk rank + chunk - 1) k"
  then have "outside_owned columns (g_start_of chunk rank) (g_end_of chunk rank) k"
    by (simp add: g_end_of_def)
  then show "w_surface (worker_tail global_rows columns chunk rank w) ! k = w_surface w ! k"
    by (rule worker_tail_frame)
qed

lemma length_outer_iteration [simp]: "length (outer_iteration global_rows columns ws) = length ws"
  by (simp add: outer_iteration_def)

lemma nth_outer_iteration:
  "q < length ws \<Longrightarrow>
   outer_iteration global_rows columns ws ! q =
     worker_tail global_rows columns (chunk_of global_rows (int (length ws))) (int q)
       ((sub_step global_rows columns ^^ 10) (activation_phase ws) ! q)"
  by (simp add: outer_iteration_def nth_map_rank)

lemma outer_iteration_outward_halo:
  assumes c: "0 \<le> columns" and ch: "1 \<le> chunk_of global_rows (int (length ws))"
    and len: "\<forall>w\<in>set ws. length (w_surface w) =
                nat ((chunk_of global_rows (int (length ws)) + 2) * columns)"
    and ne: "ws \<noteq> []"
  shows "row_of (w_surface (outer_iteration global_rows columns ws ! 0)) columns 0 =
           row_of (w_surface (ws ! 0)) columns 0"
    and "row_of (w_surface (outer_iteration global_rows columns ws ! (length ws - 1))) columns
           (chunk_of global_rows (int (length ws)) + 1) =
           row_of (w_surface (ws ! (length ws - 1))) columns
             (chunk_of global_rows (int (length ws)) + 1)"
    and "\<forall>w\<in>set (outer_iteration global_rows columns ws). length (w_surface w) =
                nat ((chunk_of global_rows (int (length ws)) + 2) * columns)"
proof -
  define A where "A = activation_phase ws"
  have lA: "length A = length ws" by (simp add: A_def)
  have z: "0 < length ws" and l: "length ws - 1 < length ws" using ne by simp_all
  have chA: "1 \<le> chunk_of global_rows (int (length A))" using ch lA by simp
  have lenA: "\<forall>w\<in>set A. length (w_surface w) =
                nat ((chunk_of global_rows (int (length A)) + 2) * columns)"
    using activation_phase_lengths[OF len] by (simp add: A_def)
  have neA: "A \<noteq> []" using ne lA by (metis length_0_conv)
  note fp = funpow_sub_step_halo[OF c chA lenA neA, of 10, unfolded lA]
  have "row_of (w_surface (outer_iteration global_rows columns ws ! 0)) columns 0 =
      row_of (w_surface ((sub_step global_rows columns ^^ 10) A ! 0)) columns 0"
    using worker_tail_halo by (simp add: nth_outer_iteration[OF z] A_def)
  also have "\<dots> = row_of (w_surface (A ! 0)) columns 0" using fp by blast
  also have "\<dots> = row_of (w_surface (ws ! 0)) columns 0"
    using z by (simp add: A_def surface_activation_phase)
  finally show "row_of (w_surface (outer_iteration global_rows columns ws ! 0)) columns 0 =
           row_of (w_surface (ws ! 0)) columns 0" .
  have "row_of (w_surface (outer_iteration global_rows columns ws ! (length ws - 1))) columns
          (chunk_of global_rows (int (length ws)) + 1) =
      row_of (w_surface ((sub_step global_rows columns ^^ 10) A ! (length ws - 1))) columns
          (chunk_of global_rows (int (length ws)) + 1)"
    by (simp only: nth_outer_iteration[OF l] A_def worker_tail_halo)
  also have "\<dots> = row_of (w_surface (A ! (length ws - 1))) columns
          (chunk_of global_rows (int (length ws)) + 1)" using fp by blast
  also have "\<dots> = row_of (w_surface (ws ! (length ws - 1))) columns
          (chunk_of global_rows (int (length ws)) + 1)"
    using l by (simp only: A_def surface_activation_phase)
  finally show "row_of (w_surface (outer_iteration global_rows columns ws ! (length ws - 1))) columns
           (chunk_of global_rows (int (length ws)) + 1) =
           row_of (w_surface (ws ! (length ws - 1))) columns
             (chunk_of global_rows (int (length ws)) + 1)" .
  show "\<forall>w\<in>set (outer_iteration global_rows columns ws). length (w_surface w) =
                nat ((chunk_of global_rows (int (length ws)) + 2) * columns)"
  proof
    fix w assume "w \<in> set (outer_iteration global_rows columns ws)"
    then obtain q where q: "q < length ws" "w = outer_iteration global_rows columns ws ! q"
      by (auto simp: in_set_conv_nth)
    have "(sub_step global_rows columns ^^ 10) A ! q \<in> set ((sub_step global_rows columns ^^ 10) A)"
      using q lA by simp
    then have "length (w_surface ((sub_step global_rows columns ^^ 10) A ! q)) =
        nat ((chunk_of global_rows (int (length ws)) + 2) * columns)"
      using fp by blast
    then show "length (w_surface w) = nat ((chunk_of global_rows (int (length ws)) + 2) * columns)"
      by (simp add: q(2) nth_outer_iteration[OF q(1)] A_def)
  qed
qed


lemma surfaceCopy_after_exchange:
  assumes "0 \<le> columns" "1 \<le> chunk_of global_rows (int (length ws))" "q < length ws"
  shows "w_surfaceCopy (after_exchange global_rows columns ws ! q) = w_surfaceCopy (ws ! q)"
proof -
  have "q < length (heat_phase global_rows columns ws)" using assms(3) by simp
  then have "after_exchange global_rows columns ws ! q =
      exchanged columns (chunk_of global_rows (int (length ws))) (heat_phase global_rows columns ws) q"
    unfolding after_exchange_def using assms(1,2) by (intro halo_exchange_nth)
  then have "w_surfaceCopy (after_exchange global_rows columns ws ! q) =
      w_surfaceCopy (heat_phase global_rows columns ws ! q)"
    by (simp add: exchanged_def top_received_def)
  also have "\<dots> = w_surfaceCopy (ws ! q)"
    using assms(3) by (simp add: nth_heat_phase)
  finally show ?thesis .
qed

text \<open>
  Claim C4.  Take a cohort in which every rank owns at least one row and every buffer has
  \<open>(chunk + 2) * columns\<close> cells.  In a sub-step, once the exchange has completed
  (\<open>after_exchange\<close>, the state the copy for the stencil is taken from), the bottom halo
  row of rank \<open>r\<close> is the first owned row of rank \<open>r + 1\<close> and the top halo row of rank
  \<open>r + 1\<close> is the last owned row of rank \<open>r\<close>, and these owned rows are as the heat
  writes of this sub-step left them.  The top halo row of rank 0 and the bottom halo row
  of the last rank are the same after the exchange, after the sub-step and after the
  whole outer iteration as before.
\<close>

theorem halo_exchange_fresh:
  assumes "0 \<le> columns" and "1 \<le> chunk_of global_rows (int (length ws))"
    and "list_all (\<lambda>w. length (w_surface w) =
                         nat ((chunk_of global_rows (int (length ws)) + 2) * columns) \<and>
                       length (w_surfaceCopy w) = length (w_surface w)) ws"
  shows "(\<forall>r. Suc r < length ws \<longrightarrow>
            row_of (w_surface (after_exchange global_rows columns ws ! r)) columns
                (chunk_of global_rows (int (length ws)) + 1) =
              row_of (w_surface (after_exchange global_rows columns ws ! Suc r)) columns 1
          \<and> row_of (w_surface (after_exchange global_rows columns ws ! Suc r)) columns 0 =
              row_of (w_surface (after_exchange global_rows columns ws ! r)) columns
                (chunk_of global_rows (int (length ws)))
          \<and> row_of (w_surface (after_exchange global_rows columns ws ! Suc r)) columns 1 =
              row_of (w_surface (heat_phase global_rows columns ws ! Suc r)) columns 1
          \<and> row_of (w_surface (after_exchange global_rows columns ws ! r)) columns
                (chunk_of global_rows (int (length ws))) =
              row_of (w_surface (heat_phase global_rows columns ws ! r)) columns
                (chunk_of global_rows (int (length ws))))
       \<and> (\<forall>q<length ws. w_surfaceCopy (sub_step global_rows columns ws ! q) =
              w_surface (after_exchange global_rows columns ws ! q))
       \<and> (ws \<noteq> [] \<longrightarrow>
            row_of (w_surface (after_exchange global_rows columns ws ! 0)) columns 0 =
              row_of (w_surface (ws ! 0)) columns 0
          \<and> row_of (w_surface (after_exchange global_rows columns ws ! (length ws - 1))) columns
                (chunk_of global_rows (int (length ws)) + 1) =
              row_of (w_surface (ws ! (length ws - 1))) columns
                (chunk_of global_rows (int (length ws)) + 1)
          \<and> row_of (w_surface (sub_step global_rows columns ws ! 0)) columns 0 =
              row_of (w_surface (ws ! 0)) columns 0
          \<and> row_of (w_surface (sub_step global_rows columns ws ! (length ws - 1))) columns
                (chunk_of global_rows (int (length ws)) + 1) =
              row_of (w_surface (ws ! (length ws - 1))) columns
                (chunk_of global_rows (int (length ws)) + 1)
          \<and> row_of (w_surface (outer_iteration global_rows columns ws ! 0)) columns 0 =
              row_of (w_surface (ws ! 0)) columns 0
          \<and> row_of (w_surface (outer_iteration global_rows columns ws ! (length ws - 1))) columns
                (chunk_of global_rows (int (length ws)) + 1) =
              row_of (w_surface (ws ! (length ws - 1))) columns
                (chunk_of global_rows (int (length ws)) + 1))"
proof -
  define chunk where "chunk = chunk_of global_rows (int (length ws))"
  have c: "0 \<le> columns" and ch: "1 \<le> chunk_of global_rows (int (length ws))" by fact+
  have len: "\<forall>w\<in>set ws. length (w_surface w) =
                nat ((chunk_of global_rows (int (length ws)) + 2) * columns)"
    and lenc: "\<forall>w\<in>set ws. length (w_surfaceCopy w) = length (w_surface w)"
    using assms(3) by (simp_all add: list_all_iff)
  note ex = after_exchange_rows[OF c ch len]
  have pairs: "\<forall>r. Suc r < length ws \<longrightarrow>
            row_of (w_surface (after_exchange global_rows columns ws ! r)) columns
                (chunk_of global_rows (int (length ws)) + 1) =
              row_of (w_surface (after_exchange global_rows columns ws ! Suc r)) columns 1
          \<and> row_of (w_surface (after_exchange global_rows columns ws ! Suc r)) columns 0 =
              row_of (w_surface (after_exchange global_rows columns ws ! r)) columns
                (chunk_of global_rows (int (length ws)))
          \<and> row_of (w_surface (after_exchange global_rows columns ws ! Suc r)) columns 1 =
              row_of (w_surface (heat_phase global_rows columns ws ! Suc r)) columns 1
          \<and> row_of (w_surface (after_exchange global_rows columns ws ! r)) columns
                (chunk_of global_rows (int (length ws))) =
              row_of (w_surface (heat_phase global_rows columns ws ! r)) columns
                (chunk_of global_rows (int (length ws)))"
  proof (intro allI impI)
    fix r assume r: "Suc r < length ws"
    then have rl: "r < length ws" by simp
    from ex r have a: "row_of (w_surface (after_exchange global_rows columns ws ! r)) columns
                (chunk_of global_rows (int (length ws)) + 1) =
              row_of (w_surface (heat_phase global_rows columns ws ! Suc r)) columns 1"
      and b: "row_of (w_surface (after_exchange global_rows columns ws ! Suc r)) columns 0 =
              row_of (w_surface (heat_phase global_rows columns ws ! r)) columns
                (chunk_of global_rows (int (length ws)))"
      by blast+
    from ex have own: "\<And>q i. q < length ws \<Longrightarrow> 1 \<le> i \<Longrightarrow>
        i \<le> chunk_of global_rows (int (length ws)) \<Longrightarrow>
        row_of (w_surface (after_exchange global_rows columns ws ! q)) columns i =
        row_of (w_surface (heat_phase global_rows columns ws ! q)) columns i"
      by blast
    have o1: "row_of (w_surface (after_exchange global_rows columns ws ! Suc r)) columns 1 =
        row_of (w_surface (heat_phase global_rows columns ws ! Suc r)) columns 1"
      using own[OF r, of 1] ch by simp
    have o2: "row_of (w_surface (after_exchange global_rows columns ws ! r)) columns
          (chunk_of global_rows (int (length ws))) =
        row_of (w_surface (heat_phase global_rows columns ws ! r)) columns
          (chunk_of global_rows (int (length ws)))"
      using own[OF rl, of "chunk_of global_rows (int (length ws))"] ch by simp
    show "row_of (w_surface (after_exchange global_rows columns ws ! r)) columns
                (chunk_of global_rows (int (length ws)) + 1) =
              row_of (w_surface (after_exchange global_rows columns ws ! Suc r)) columns 1
          \<and> row_of (w_surface (after_exchange global_rows columns ws ! Suc r)) columns 0 =
              row_of (w_surface (after_exchange global_rows columns ws ! r)) columns
                (chunk_of global_rows (int (length ws)))
          \<and> row_of (w_surface (after_exchange global_rows columns ws ! Suc r)) columns 1 =
              row_of (w_surface (heat_phase global_rows columns ws ! Suc r)) columns 1
          \<and> row_of (w_surface (after_exchange global_rows columns ws ! r)) columns
                (chunk_of global_rows (int (length ws))) =
              row_of (w_surface (heat_phase global_rows columns ws ! r)) columns
                (chunk_of global_rows (int (length ws)))"
      by (simp only: a b o1 o2)
  qed
  have copy: "\<forall>q<length ws. w_surfaceCopy (sub_step global_rows columns ws ! q) =
              w_surface (after_exchange global_rows columns ws ! q)"
  proof (intro allI impI)
    fix q assume q: "q < length ws"
    from ex q have l1: "length (w_surface (after_exchange global_rows columns ws ! q)) =
        nat ((chunk_of global_rows (int (length ws)) + 2) * columns)" by blast
    have "length (w_surfaceCopy (after_exchange global_rows columns ws ! q)) =
        length (w_surface (ws ! q))"
      using lenc q by (simp add: surfaceCopy_after_exchange[OF c ch q])
    then have l2: "length (w_surfaceCopy (after_exchange global_rows columns ws ! q)) =
        length (w_surface (after_exchange global_rows columns ws ! q))"
      using len q l1 by simp
    show "w_surfaceCopy (sub_step global_rows columns ws ! q) =
              w_surface (after_exchange global_rows columns ws ! q)"
      by (simp only: sub_step_surface(2)[OF q] copy_surface_whole[OF c l1 l2])
  qed
  have out: "ws \<noteq> [] \<longrightarrow>
            row_of (w_surface (after_exchange global_rows columns ws ! 0)) columns 0 =
              row_of (w_surface (ws ! 0)) columns 0
          \<and> row_of (w_surface (after_exchange global_rows columns ws ! (length ws - 1))) columns
                (chunk_of global_rows (int (length ws)) + 1) =
              row_of (w_surface (ws ! (length ws - 1))) columns
                (chunk_of global_rows (int (length ws)) + 1)
          \<and> row_of (w_surface (sub_step global_rows columns ws ! 0)) columns 0 =
              row_of (w_surface (ws ! 0)) columns 0
          \<and> row_of (w_surface (sub_step global_rows columns ws ! (length ws - 1))) columns
                (chunk_of global_rows (int (length ws)) + 1) =
              row_of (w_surface (ws ! (length ws - 1))) columns
                (chunk_of global_rows (int (length ws)) + 1)
          \<and> row_of (w_surface (outer_iteration global_rows columns ws ! 0)) columns 0 =
              row_of (w_surface (ws ! 0)) columns 0
          \<and> row_of (w_surface (outer_iteration global_rows columns ws ! (length ws - 1))) columns
                (chunk_of global_rows (int (length ws)) + 1) =
              row_of (w_surface (ws ! (length ws - 1))) columns
                (chunk_of global_rows (int (length ws)) + 1)"
  proof
    assume ne: "ws \<noteq> []"
    then have z: "0 < length ws" and l: "length ws - 1 < length ws" by simp_all
    from ex ne have "row_of (w_surface (after_exchange global_rows columns ws ! 0)) columns 0 =
              row_of (w_surface (heat_phase global_rows columns ws ! 0)) columns 0"
      and "row_of (w_surface (after_exchange global_rows columns ws ! (length ws - 1))) columns
                (chunk_of global_rows (int (length ws)) + 1) =
              row_of (w_surface (heat_phase global_rows columns ws ! (length ws - 1))) columns
                (chunk_of global_rows (int (length ws)) + 1)"
      by blast+
    then have "row_of (w_surface (after_exchange global_rows columns ws ! 0)) columns 0 =
              row_of (w_surface (ws ! 0)) columns 0"
      and "row_of (w_surface (after_exchange global_rows columns ws ! (length ws - 1))) columns
                (chunk_of global_rows (int (length ws)) + 1) =
              row_of (w_surface (ws ! (length ws - 1))) columns
                (chunk_of global_rows (int (length ws)) + 1)"
      using heat_phase_halo[OF z, of global_rows columns] heat_phase_halo[OF l, of global_rows columns]
      by simp_all
    then show "row_of (w_surface (after_exchange global_rows columns ws ! 0)) columns 0 =
              row_of (w_surface (ws ! 0)) columns 0
          \<and> row_of (w_surface (after_exchange global_rows columns ws ! (length ws - 1))) columns
                (chunk_of global_rows (int (length ws)) + 1) =
              row_of (w_surface (ws ! (length ws - 1))) columns
                (chunk_of global_rows (int (length ws)) + 1)
          \<and> row_of (w_surface (sub_step global_rows columns ws ! 0)) columns 0 =
              row_of (w_surface (ws ! 0)) columns 0
          \<and> row_of (w_surface (sub_step global_rows columns ws ! (length ws - 1))) columns
                (chunk_of global_rows (int (length ws)) + 1) =
              row_of (w_surface (ws ! (length ws - 1))) columns
                (chunk_of global_rows (int (length ws)) + 1)
          \<and> row_of (w_surface (outer_iteration global_rows columns ws ! 0)) columns 0 =
              row_of (w_surface (ws ! 0)) columns 0
          \<and> row_of (w_surface (outer_iteration global_rows columns ws ! (length ws - 1))) columns
                (chunk_of global_rows (int (length ws)) + 1) =
              row_of (w_surface (ws ! (length ws - 1))) columns
                (chunk_of global_rows (int (length ws)) + 1)"
      using sub_step_outward_halo[OF c ch len ne] outer_iteration_outward_halo(1,2)[OF c ch len ne]
      by (intro conjI)
  qed
  from pairs copy out show ?thesis by (intro conjI)
qed


text \<open>An example cohort: two ranks on a \<open>2 \<times> 2\<close> grid, one owned row each.\<close>

definition cohort2 :: "Worker list" where
  "cohort2 =
     [\<lparr>w_surface = [1, 2, 3, 4, 5, 6], w_surfaceCopy = [0, 0, 0, 0, 0, 0], w_teams = [],
       w_focal = [], w_iter = 0, w_flag_stability = False, w_num_deactivated = 0,
       w_global_residual = 0\<rparr>,
      \<lparr>w_surface = [7, 8, 9, 10, 11, 12], w_surfaceCopy = [0, 0, 0, 0, 0, 0], w_teams = [],
       w_focal = [], w_iter = 0, w_flag_stability = False, w_num_deactivated = 0,
       w_global_residual = 0\<rparr>]"

lemma chunk_of_2_2: "chunk_of 2 (int (length cohort2)) = 1"
  by (simp add: cohort2_def chunk_of_def signed_divide_int_def)

theorem halo_exchange_fresh_witness:
  "(0::int) \<le> 2 \<and> 1 \<le> chunk_of 2 (int (length cohort2))
   \<and> list_all (\<lambda>w. length (w_surface w) = nat ((chunk_of 2 (int (length cohort2)) + 2) * 2) \<and>
                    length (w_surfaceCopy w) = length (w_surface w)) cohort2
   \<and> row_of (w_surface (after_exchange 2 2 cohort2 ! 0)) 2 (chunk_of 2 (int (length cohort2)) + 1) = [9, 10]
   \<and> row_of (w_surface (after_exchange 2 2 cohort2 ! Suc 0)) 2 0 = [3, 4]"
proof -
  have h1: "(0::int) \<le> 2" by simp
  have h2: "1 \<le> chunk_of 2 (int (length cohort2))" by (simp add: chunk_of_2_2)
  have h3: "list_all (\<lambda>w. length (w_surface w) = nat ((chunk_of 2 (int (length cohort2)) + 2) * 2) \<and>
                    length (w_surfaceCopy w) = length (w_surface w)) cohort2"
    by (simp add: chunk_of_2_2) (simp add: cohort2_def)
  note t = halo_exchange_fresh[OF h1 h2 h3]
  have l: "Suc 0 < length cohort2" by (simp add: cohort2_def)
  have r1: "row_of (w_surface (heat_phase 2 2 cohort2 ! Suc 0)) 2 1 = [9, 10]"
    by (simp add: nth_heat_phase[OF l]) (simp add: cohort2_def update_heat_def row_of_def idx_def)
  have l0: "0 < length cohort2" by (simp add: cohort2_def)
  have r0: "row_of (w_surface (heat_phase 2 2 cohort2 ! 0)) 2 (chunk_of 2 (int (length cohort2))) = [3, 4]"
    by (simp add: nth_heat_phase[OF l0] chunk_of_2_2)
       (simp add: cohort2_def update_heat_def row_of_def idx_def)
  from t l have "row_of (w_surface (after_exchange 2 2 cohort2 ! 0)) 2
        (chunk_of 2 (int (length cohort2)) + 1) =
      row_of (w_surface (heat_phase 2 2 cohort2 ! Suc 0)) 2 1"
    by metis
  moreover from t l have "row_of (w_surface (after_exchange 2 2 cohort2 ! Suc 0)) 2 0 =
      row_of (w_surface (heat_phase 2 2 cohort2 ! 0)) 2 (chunk_of 2 (int (length cohort2)))"
    by metis
  ultimately show ?thesis using h1 h2 h3 r0 r1 by simp
qed

section \<open>The global residual\<close>

subsection \<open>Buffer lengths and the reduction\<close>

lemma pair_exchange_surface_length:
  "q < length ws \<Longrightarrow>
   length (w_surface (pair_exchange columns chunk r ws ! q)) = length (w_surface (ws ! q))"
  by (cases "q = Suc r"; cases "q = r") (simp_all add: pair_exchange_def Let_def nth_list_update)

lemma fold_pair_exchange_surface_length:
  "q < length ws \<Longrightarrow>
   length (w_surface (fold (pair_exchange columns chunk) rs ws ! q)) = length (w_surface (ws ! q))"
proof (induction rs arbitrary: ws)
  case Nil
  then show ?case by simp
next
  case (Cons r rs)
  have "q < length (pair_exchange columns chunk r ws)" using Cons.prems by simp
  then have "length (w_surface (fold (pair_exchange columns chunk) rs
      (pair_exchange columns chunk r ws) ! q)) =
      length (w_surface (pair_exchange columns chunk r ws ! q))"
    by (rule Cons.IH)
  then show ?case using Cons.prems by (simp add: pair_exchange_surface_length)
qed

lemma after_exchange_surface_length:
  "q < length ws \<Longrightarrow>
   length (w_surface (after_exchange global_rows columns ws ! q)) = length (w_surface (ws ! q))"
  by (simp add: after_exchange_def halo_exchange_def fold_pair_exchange_surface_length
      nth_heat_phase)

lemma interior_idx_bound:
  assumes "owned_interior global_rows columns chunk g_start i j"
    and "length surface = nat ((chunk + 2) * columns)"
  shows "idx columns i j < length surface"
proof -
  have b: "1 \<le> i" "i \<le> chunk" "1 \<le> j" "j \<le> columns - 2"
    using assms(1) by (simp_all add: owned_interior_def)
  have "i * columns \<le> chunk * columns" using b by (simp add: mult_right_mono)
  moreover have "(chunk + 2) * columns = chunk * columns + columns + columns"
    by (simp add: algebra_simps)
  ultimately have "i * columns + j < (chunk + 2) * columns" using b by linarith
  moreover have "0 \<le> i * columns + j" using b by simp
  ultimately show ?thesis using assms(2) by (simp add: idx_def nat_less_iff)
qed

lemma update_surface_interior:
  assumes "owned_interior global_rows columns chunk g_start i j"
    and "length surface = nat ((chunk + 2) * columns)"
  shows "accessMat (update_surface global_rows columns chunk g_start surfaceCopy surface) columns i j =
         stencil_cell surfaceCopy columns i j"
  using assms(1) interior_idx_bound[OF assms]
    nth_stencil_rows_same[of i chunk g_start global_rows j columns surface surfaceCopy]
  by (simp add: owned_interior_def accessMat_def update_surface_rows)

lemma MPI_Allreduce_MAX_Max: "MPI_Allreduce_MAX vs = (if vs = [] then 0 else Max (set vs))"
proof (cases vs)
  case Nil
  then show ?thesis by simp
next
  case (Cons a list)
  then show ?thesis using Max.set_eq_fold[of a list] by simp
qed

lemma length_local_residuals [simp]: "length (local_residuals global_rows columns ws) = length ws"
  by (simp add: local_residuals_def Let_def)

lemma nth_local_residuals:
  "q < length ws \<Longrightarrow>
   local_residuals global_rows columns ws ! q =
     local_residual global_rows columns (chunk_of global_rows (int (length ws)))
       (g_start_of (chunk_of global_rows (int (length ws))) (int q))
       (w_surface (ws ! q)) (w_surfaceCopy (ws ! q))"
  by (simp add: local_residuals_def Let_def nth_map_rank)

lemma local_residuals_residual_phase:
  "local_residuals global_rows columns (residual_phase global_rows columns ws) =
   local_residuals global_rows columns ws"
  by (rule nth_equalityI) (simp_all add: nth_local_residuals nth_residual_phase)

lemma sub_step_global_residual:
  assumes "q < length ws"
  shows "w_global_residual (sub_step global_rows columns ws ! q) =
         MPI_Allreduce_MAX (local_residuals global_rows columns (sub_step global_rows columns ws))"
proof -
  define X where "X = stencil_phase global_rows columns (copy_phase global_rows columns
      (halo_exchange columns (chunk_of global_rows (int (length ws)))
        (heat_phase global_rows columns ws)))"
  have s: "sub_step global_rows columns ws = residual_phase global_rows columns X"
    by (simp add: sub_step_def X_def)
  have "q < length X" using assms by (simp add: X_def)
  then show ?thesis
    by (simp add: s nth_residual_phase local_residuals_residual_phase)
qed


text \<open>
  Claim C2.  After a sub-step, on every rank \<open>q\<close> of a cohort whose buffers have
  \<open>(chunk + 2) * columns\<close> cells: each owned interior cell of \<open>surface\<close> holds the
  value newly computed from the previous generation \<open>surfaceCopy\<close>; the local residual
  of the rank bounds the absolute difference of the two buffers at every owned interior
  cell and is attained at one of them (it is 0 when the rank owns no interior cell); and
  the global residual of the rank is the maximum of the local residuals of all ranks.
\<close>

theorem residual_is_maximum:
  assumes "list_all (\<lambda>w. length (w_surface w) =
                         nat ((chunk_of global_rows (int (length ws)) + 2) * columns)) ws"
    and "q < length ws"
  shows "(\<forall>i j. owned_interior global_rows columns (chunk_of global_rows (int (length ws)))
          (g_start_of (chunk_of global_rows (int (length ws))) (int q)) i j \<longrightarrow>
        accessMat (w_surface (sub_step global_rows columns ws ! q)) columns i j =
          stencil_cell (w_surfaceCopy (sub_step global_rows columns ws ! q)) columns i j
      \<and> cell_diff (w_surface (sub_step global_rows columns ws ! q)) (w_surfaceCopy (sub_step global_rows columns ws ! q)) columns i j
          \<le> (local_residuals global_rows columns (sub_step global_rows columns ws) ! q))
    \<and> ((\<exists>i j. owned_interior global_rows columns (chunk_of global_rows (int (length ws)))
          (g_start_of (chunk_of global_rows (int (length ws))) (int q)) i j \<and>
           (local_residuals global_rows columns (sub_step global_rows columns ws) ! q) =
           cell_diff (w_surface (sub_step global_rows columns ws ! q)) (w_surfaceCopy (sub_step global_rows columns ws ! q)) columns i j)
       \<or> ((local_residuals global_rows columns (sub_step global_rows columns ws) ! q) = 0 \<and>
          (\<forall>i j. \<not> owned_interior global_rows columns (chunk_of global_rows (int (length ws)))
          (g_start_of (chunk_of global_rows (int (length ws))) (int q)) i j)))
    \<and> (local_residuals global_rows columns (sub_step global_rows columns ws) ! q) =
        local_residual global_rows columns (chunk_of global_rows (int (length ws)))
          (g_start_of (chunk_of global_rows (int (length ws))) (int q))
          (w_surface (sub_step global_rows columns ws ! q)) (w_surfaceCopy (sub_step global_rows columns ws ! q))
    \<and> w_global_residual (sub_step global_rows columns ws ! q) =
        Max (set (local_residuals global_rows columns (sub_step global_rows columns ws)))"
proof -
  define chunk where "chunk = chunk_of global_rows (int (length ws))"
  define gs where "gs = g_start_of chunk (int q)"
  define W where "W = sub_step global_rows columns ws ! q"
  define res where "res = local_residuals global_rows columns (sub_step global_rows columns ws) ! q"
  have q: "q < length ws" by fact
  have "length (w_surface (ws ! q)) = nat ((chunk + 2) * columns)"
    using assms by (simp add: list_all_iff chunk_def)
  then have len: "length (w_surface (after_exchange global_rows columns ws ! q)) =
      nat ((chunk + 2) * columns)"
    by (simp add: after_exchange_surface_length[OF q])
  have surf: "w_surface W = update_surface global_rows columns chunk gs (w_surfaceCopy W)
      (w_surface (after_exchange global_rows columns ws ! q))"
    unfolding W_def chunk_def gs_def by (rule sub_step_surface(1)[OF q])
  have new: "\<And>i j. owned_interior global_rows columns chunk gs i j \<Longrightarrow>
      accessMat (w_surface W) columns i j = stencil_cell (w_surfaceCopy W) columns i j"
    using update_surface_interior[OF _ len] by (simp only: surf)
  have res: "res = local_residual global_rows columns chunk gs (w_surface W) (w_surfaceCopy W)"
    using q by (simp add: res_def nth_local_residuals chunk_def gs_def W_def)
  note m = local_residual_is_max[of global_rows columns chunk gs "w_surface W" "w_surfaceCopy W",
      folded res]
  have ne: "local_residuals global_rows columns (sub_step global_rows columns ws) \<noteq> []"
    using q by (simp add: length_0_conv[symmetric] del: length_0_conv)
  have g: "w_global_residual W =
      Max (set (local_residuals global_rows columns (sub_step global_rows columns ws)))"
    using ne by (simp add: W_def sub_step_global_residual[OF q] MPI_Allreduce_MAX_Max)
  have "(\<forall>i j. owned_interior global_rows columns chunk gs i j \<longrightarrow>
        accessMat (w_surface W) columns i j = stencil_cell (w_surfaceCopy W) columns i j
      \<and> cell_diff (w_surface W) (w_surfaceCopy W) columns i j \<le> res)
    \<and> ((\<exists>i j. owned_interior global_rows columns chunk gs i j \<and>
           res = cell_diff (w_surface W) (w_surfaceCopy W) columns i j)
       \<or> (res = 0 \<and> (\<forall>i j. \<not> owned_interior global_rows columns chunk gs i j)))
    \<and> res = local_residual global_rows columns chunk gs (w_surface W) (w_surfaceCopy W)
    \<and> w_global_residual W =
        Max (set (local_residuals global_rows columns (sub_step global_rows columns ws)))"
    using new m res g by blast
  then show ?thesis
    unfolding chunk_def gs_def W_def res_def .
qed


text \<open>
  An example cohort: two ranks on a \<open>4 \<times> 3\<close> grid, two owned rows each, and one
  active focal point at \<open>(1, 1)\<close>.
\<close>

definition cohort43 :: "Worker list" where
  "cohort43 =
     replicate 2
       \<lparr>w_surface = [0, 0, 0, 0, 0, 0, 0, 0, 0, 0, 0, 0],
        w_surfaceCopy = [0, 0, 0, 0, 0, 0, 0, 0, 0, 0, 0, 0], w_teams = [],
        w_focal = [\<lparr>f_x = 1, f_y = 1, f_start = 0, f_heat = 100, f_active = 1\<rparr>],
        w_iter = 0, w_flag_stability = False, w_num_deactivated = 0, w_global_residual = 0\<rparr>"

lemma chunk_of_cohort43: "chunk_of 4 (int (length cohort43)) = 2"
  by (simp add: cohort43_def chunk_of_def signed_divide_int_def)

theorem residual_is_maximum_witness:
  "list_all (\<lambda>w. length (w_surface w) = nat ((chunk_of 4 (int (length cohort43)) + 2) * 3)) cohort43
   \<and> (0::nat) < length cohort43
   \<and> owned_interior 4 3 (chunk_of 4 (int (length cohort43)))
        (g_start_of (chunk_of 4 (int (length cohort43))) (int 0)) 2 1
   \<and> accessMat (w_surface (sub_step 4 3 cohort43 ! 0)) 3 2 1 =
        stencil_cell (w_surfaceCopy (sub_step 4 3 cohort43 ! 0)) 3 2 1
   \<and> cell_diff (w_surface (sub_step 4 3 cohort43 ! 0)) (w_surfaceCopy (sub_step 4 3 cohort43 ! 0)) 3 2 1
        \<le> local_residuals 4 3 (sub_step 4 3 cohort43) ! 0
   \<and> w_global_residual (sub_step 4 3 cohort43 ! 0) =
        Max (set (local_residuals 4 3 (sub_step 4 3 cohort43)))"
proof -
  have h1: "list_all (\<lambda>w. length (w_surface w) =
      nat ((chunk_of 4 (int (length cohort43)) + 2) * 3)) cohort43"
    by (simp add: chunk_of_cohort43) (simp add: cohort43_def list_all_iff)
  have h2: "(0::nat) < length cohort43" by (simp add: cohort43_def)
  have oi: "owned_interior 4 3 (chunk_of 4 (int (length cohort43)))
        (g_start_of (chunk_of 4 (int (length cohort43))) (int 0)) 2 1"
    by (simp add: chunk_of_cohort43 owned_interior_def g_start_of_def)
  note t = residual_is_maximum[OF h1 h2]
  from t oi have "accessMat (w_surface (sub_step 4 3 cohort43 ! 0)) 3 2 1 =
        stencil_cell (w_surfaceCopy (sub_step 4 3 cohort43 ! 0)) 3 2 1
   \<and> cell_diff (w_surface (sub_step 4 3 cohort43 ! 0)) (w_surfaceCopy (sub_step 4 3 cohort43 ! 0)) 3 2 1
        \<le> local_residuals 4 3 (sub_step 4 3 cohort43) ! 0"
    by blast
  moreover from t have "w_global_residual (sub_step 4 3 cohort43 ! 0) =
        Max (set (local_residuals 4 3 (sub_step 4 3 cohort43)))"
    by blast
  ultimately show ?thesis using h1 h2 oi by blast
qed

section \<open>Targeting\<close>

subsection \<open>Rounding to single precision\<close>

lemma round_even_of_int [simp]: "round_even (of_int k) = k"
  by (simp add: round_even_def)

lemma round_even_floor: "\<lfloor>y\<rfloor> \<le> round_even y" "round_even y \<le> \<lfloor>y\<rfloor> + 1"
  by (simp_all add: round_even_def Let_def)

lemma round_even_ge: "of_int k \<le> y \<Longrightarrow> k \<le> round_even y"
proof -
  assume "of_int k \<le> y"
  then have "k \<le> \<lfloor>y\<rfloor>" by (simp add: le_floor_iff)
  then show ?thesis using round_even_floor(1)[of y] by simp
qed

lemma round_even_le: "y \<le> of_int k \<Longrightarrow> round_even y \<le> k"
proof -
  assume a: "y \<le> of_int k"
  show ?thesis
  proof (cases "y = of_int k")
    case True
    then show ?thesis by simp
  next
    case False
    then have "y < of_int k" using a by simp
    then have "\<lfloor>y\<rfloor> < k" by (simp add: floor_less_iff)
    then show ?thesis using round_even_floor(2)[of y] by simp
  qed
qed

lemma binary32_0 [simp]: "binary32 0 = 0"
  by (simp add: binary32_def)

lemma binary32_exponent:
  assumes "(2::real) powr of_int e \<le> \<bar>x\<bar>" "\<bar>x\<bar> < (2::real) powr (of_int e + 1)"
  shows "binary32 x = sgn x * (of_int (round_even (\<bar>x\<bar> / (2::real) powr (of_int e - 23))) * (2::real) powr (of_int e - 23))"
proof -
  have "0 < (2::real) powr of_int e" by simp
  then have p: "0 < \<bar>x\<bar>" using assms(1) by (rule less_le_trans)
  then have nz: "x \<noteq> 0" by simp
  have "\<lfloor>log 2 \<bar>x\<bar>\<rfloor> = e"
    using assms p by (subst floor_log_eq_powr_iff) simp_all
  then show ?thesis using nz by (simp add: binary32_def Let_def)
qed

lemma exponent_ex:
  fixes x :: real
  assumes "x \<noteq> 0"
  obtains e :: int where "(2::real) powr of_int e \<le> \<bar>x\<bar>" "\<bar>x\<bar> < (2::real) powr (of_int e + 1)"
proof -
  have p: "0 < \<bar>x\<bar>" using assms by simp
  have "\<lfloor>log 2 \<bar>x\<bar>\<rfloor> = \<lfloor>log 2 \<bar>x\<bar>\<rfloor>" ..
  then have "(2::real) powr of_int \<lfloor>log 2 \<bar>x\<bar>\<rfloor> \<le> \<bar>x\<bar> \<and> \<bar>x\<bar> < (2::real) powr (of_int \<lfloor>log 2 \<bar>x\<bar>\<rfloor> + 1)"
    using p by (subst (asm) floor_log_eq_powr_iff) simp_all
  then show ?thesis using that by blast
qed

lemma significand:
  assumes "(2::real) powr of_int e \<le> \<bar>x\<bar>" "\<bar>x\<bar> < (2::real) powr (of_int e + 1)"
  shows "8388608 \<le> \<bar>x\<bar> / (2::real) powr (of_int e - 23)" "\<bar>x\<bar> / (2::real) powr (of_int e - 23) < 16777216"
proof -
  have u: "(2::real) powr (of_int e - 23) = (2::real) powr of_int e / 8388608"
    by (simp add: powr_diff)
  have v: "(2::real) powr (of_int e + 1) = (2::real) powr of_int e * 2"
    by (simp add: powr_add)
  have pos: "0 < (2::real) powr of_int e" by simp
  show "8388608 \<le> \<bar>x\<bar> / (2::real) powr (of_int e - 23)"
    using assms(1) pos by (simp add: u field_simps)
  have "\<bar>x\<bar> < (2::real) powr of_int e * 2" using assms(2) by (simp only: v)
  then show "\<bar>x\<bar> / (2::real) powr (of_int e - 23) < 16777216"
    using pos by (simp add: u field_simps)
qed

lemma abs_binary32:
  assumes "(2::real) powr of_int e \<le> \<bar>x\<bar>" "\<bar>x\<bar> < (2::real) powr (of_int e + 1)"
  shows "\<bar>binary32 x\<bar> = of_int (round_even (\<bar>x\<bar> / (2::real) powr (of_int e - 23))) * (2::real) powr (of_int e - 23)"
    and "8388608 \<le> round_even (\<bar>x\<bar> / (2::real) powr (of_int e - 23))"
    and "round_even (\<bar>x\<bar> / (2::real) powr (of_int e - 23)) \<le> 16777216"
proof -
  note s = significand[OF assms]
  show a: "8388608 \<le> round_even (\<bar>x\<bar> / (2::real) powr (of_int e - 23))"
    using s(1) by (intro round_even_ge) simp
  show "round_even (\<bar>x\<bar> / (2::real) powr (of_int e - 23)) \<le> 16777216"
    using s(2) by (intro round_even_le) simp
  have "0 < (2::real) powr of_int e" by simp
  then have "0 < \<bar>x\<bar>" using assms(1) by (rule less_le_trans)
  then have "\<bar>sgn x\<bar> = 1" by (simp add: sgn_if)
  moreover have "(0::real) \<le> of_int (round_even (\<bar>x\<bar> / (2::real) powr (of_int e - 23)))" using a by simp
  ultimately show "\<bar>binary32 x\<bar> =
      of_int (round_even (\<bar>x\<bar> / (2::real) powr (of_int e - 23))) * (2::real) powr (of_int e - 23)"
    by (simp add: binary32_exponent[OF assms] abs_mult)
qed



lemma binary32_nonneg: "0 \<le> x \<Longrightarrow> 0 \<le> binary32 x"
proof (cases "x = 0")
  case True
  then show ?thesis by simp
next
  case False
  assume "0 \<le> x"
  then have s: "sgn x = 1" using False by (simp add: sgn_if)
  obtain e :: int where e: "(2::real) powr of_int e \<le> \<bar>x\<bar>" "\<bar>x\<bar> < (2::real) powr (of_int e + 1)"
    using False by (rule exponent_ex)
  note a = abs_binary32[OF e]
  have "(0::real) \<le> of_int (round_even (\<bar>x\<bar> / (2::real) powr (of_int e - 23)))" using a(2) by simp
  then show ?thesis by (simp add: binary32_exponent[OF e] s)
qed

text \<open>A value whose significand is a whole number is a float.\<close>

lemma binary32_exact:
  assumes "(2::real) powr of_int e \<le> \<bar>x\<bar>" "\<bar>x\<bar> < (2::real) powr (of_int e + 1)"
    and "\<bar>x\<bar> / (2::real) powr (of_int e - 23) = of_int m"
  shows "binary32 x = x"
proof -
  have "binary32 x = sgn x * (\<bar>x\<bar> / (2::real) powr (of_int e - 23) * (2::real) powr (of_int e - 23))"
    by (simp only: binary32_exponent[OF assms(1,2)] assms(3) round_even_of_int)
  also have "\<dots> = sgn x * \<bar>x\<bar>" by simp
  also have "\<dots> = x" by (simp add: sgn_if)
  finally show ?thesis .
qed

lemma binary32_of_int:
  assumes "\<bar>n\<bar> \<le> 16777216"
  shows "binary32 (of_int n) = of_int n"
proof (cases "n = 0")
  case True
  then show ?thesis by simp
next
  case False
  define x :: real where "x = of_int n"
  have "x \<noteq> 0" using False by (simp add: x_def)
  then obtain e :: int where e: "(2::real) powr of_int e \<le> \<bar>x\<bar>" "\<bar>x\<bar> < (2::real) powr (of_int e + 1)"
    by (rule exponent_ex)
  have ax: "\<bar>x\<bar> = of_int \<bar>n\<bar>" by (simp add: x_def)
  have "1 \<le> \<bar>n\<bar>" using False by simp
  then have "(1::real) \<le> \<bar>x\<bar>" unfolding ax by (simp only: of_int_1_le_iff)
  then have "(2::real) powr 0 < (2::real) powr (of_int e + 1)" using e(2) by simp
  then have "(0::real) < of_int e + 1" by (simp only: powr_less_cancel_iff) 
  then have e0: "0 \<le> e" by linarith
  have "\<bar>x\<bar> \<le> 16777216" unfolding ax using assms by (simp only: of_int_le_numeral_iff)
  then have "(2::real) powr of_int e \<le> (2::real) powr 24" using e(1) by simp
  then have "real_of_int e \<le> 24" by (simp only: powr_le_cancel_iff) 
  then have e24: "e \<le> 24" by linarith
  show ?thesis
  proof (cases "e \<le> 23")
    case True
    have "(2::real) powr (of_int e - 23) = 1 / (2::real) powr of_int (23 - e)"
      by (simp add: powr_diff field_simps)
    also have "(2::real) powr of_int (23 - e) = 2 ^ nat (23 - e)"
      using True by (subst powr_real_of_int) simp_all
    finally have "\<bar>x\<bar> / (2::real) powr (of_int e - 23) = of_int (\<bar>n\<bar> * 2 ^ nat (23 - e))"
      by (simp add: ax)
    with e show ?thesis unfolding x_def[symmetric] by (rule binary32_exact)
  next
    case False
    then have e: "e = 24" using e24 by simp
    have "(2::real) powr 24 \<le> \<bar>x\<bar>" using \<open>(2::real) powr of_int e \<le> \<bar>x\<bar>\<close> by (simp add: e)
    then have "\<bar>x\<bar> = 16777216" using \<open>\<bar>x\<bar> \<le> 16777216\<close> by simp
    then have "\<bar>x\<bar> / (2::real) powr (of_int 24 - 23) = of_int 8388608" by simp
    moreover have "(2::real) powr of_int 24 \<le> \<bar>x\<bar>" "\<bar>x\<bar> < (2::real) powr (of_int 24 + 1)"
      using \<open>\<bar>x\<bar> = 16777216\<close> by simp_all
    ultimately show ?thesis unfolding x_def[symmetric] by (intro binary32_exact)
  qed
qed

subsection \<open>The distance in single precision\<close>

text \<open>The distance that the scan computes from the two coordinate differences.\<close>

definition float_distance :: "int \<Rightarrow> int \<Rightarrow> real" where
  "float_distance a b =
     sqrtf (float_add (float_mult (int_to_float a) (int_to_float a))
                      (float_mult (int_to_float b) (int_to_float b)))"

lemma int_le_square: "\<bar>a\<bar> \<le> a * (a::int)"
proof -
  have "\<bar>a\<bar> * 1 \<le> \<bar>a\<bar> * \<bar>a\<bar>"
  proof (cases "a = 0")
    case False
    then have "1 \<le> \<bar>a\<bar>" by simp
    then show ?thesis by (intro mult_left_mono) simp_all
  qed simp
  then show ?thesis by simp
qed

lemma float_distance_exact:
  assumes "a * a + b * b = c * c" "0 \<le> c" "c * c \<le> 16777216"
  shows "float_distance a b = of_int c"
proof -
  have sa: "0 \<le> a * a" and sb: "0 \<le> b * b" by simp_all
  have la: "a * a \<le> 16777216" and lb: "b * b \<le> 16777216" using assms(1,3) sa sb by linarith+
  have a: "\<bar>a\<bar> \<le> 16777216" using int_le_square[of a] la by linarith
  have b: "\<bar>b\<bar> \<le> 16777216" using int_le_square[of b] lb by linarith
  have c: "\<bar>c\<bar> \<le> 16777216" using int_le_square[of c] assms(3) by linarith
  have aa: "\<bar>a * a\<bar> \<le> 16777216" and bb: "\<bar>b * b\<bar> \<le> 16777216"
    and cc: "\<bar>c * c\<bar> \<le> 16777216" using la lb assms(3) by simp_all
  have 1: "float_mult (int_to_float a) (int_to_float a) = of_int (a * a)"
    using binary32_of_int[OF aa] by (simp add: float_mult_def int_to_float_def binary32_of_int[OF a])
  have 2: "float_mult (int_to_float b) (int_to_float b) = of_int (b * b)"
    using binary32_of_int[OF bb] by (simp add: float_mult_def int_to_float_def binary32_of_int[OF b])
  have 3: "float_add (of_int (a * a)) (of_int (b * b)) = of_int (c * c)"
    using binary32_of_int[OF cc] by (simp add: float_add_def assms(1)[symmetric])
  have "sqrt (of_int (c * c)) = of_int c" using assms(2) by simp
  then have 4: "sqrtf (of_int (c * c)) = of_int c"
    using binary32_of_int[OF c] by (simp only: sqrtf_def)
  show ?thesis by (simp only: float_distance_def 1 2 3 4)
qed

lemma sqrt_2_bounds: "7 / 5 \<le> sqrt 2" "sqrt 2 \<le> 3 / 2"
proof -
  show "7 / 5 \<le> sqrt 2" by (rule real_le_rsqrt) (simp add: power2_eq_square)
  show "sqrt 2 \<le> 3 / 2" by (rule real_le_lsqrt) (simp_all add: power2_eq_square)
qed

lemma sqrtf_2: "1 < sqrtf 2" "sqrtf 2 < 2"
proof -
  have e: "(2::real) powr of_int 0 \<le> \<bar>sqrt 2\<bar>" "\<bar>sqrt 2\<bar> < (2::real) powr (of_int 0 + 1)"
    using sqrt_2_bounds by simp_all
  have "(2::real) powr (of_int 0 - 23) = 2 powr of_int 0 / 2 powr 23" by (rule powr_diff)
  then have u: "(2::real) powr (of_int 0 - 23) = 1 / 8388608" by simp
  have v: "sqrtf 2 = of_int (round_even (sqrt 2 * 8388608)) / 8388608"
    using binary32_exponent[OF e, unfolded u] by (simp add: sqrtf_def)
  have "of_int 11744051 \<le> sqrt 2 * 8388608" using sqrt_2_bounds(1) by simp
  then have "11744051 \<le> round_even (sqrt 2 * 8388608)" by (rule round_even_ge)
  then have "(11744051::real) \<le> of_int (round_even (sqrt 2 * 8388608))" by linarith
  then show "1 < sqrtf 2" by (simp add: v)
  have "sqrt 2 * 8388608 \<le> of_int 12582912" using sqrt_2_bounds(2) by simp
  then have "round_even (sqrt 2 * 8388608) \<le> 12582912" by (rule round_even_le)
  then have "of_int (round_even (sqrt 2 * 8388608)) \<le> (12582912::real)" by linarith
  then show "sqrtf 2 < 2" by (simp add: v)
qed

lemma float_distance_diagonal:
  assumes "a * a = 1" "b * b = 1"
  shows "float_distance a b = sqrtf 2"
proof -
  have a: "\<bar>a\<bar> \<le> 16777216" using int_le_square[of a] assms(1) by linarith
  have b: "\<bar>b\<bar> \<le> 16777216" using int_le_square[of b] assms(2) by linarith
  have o: "\<bar>1::int\<bar> \<le> 16777216" "\<bar>2::int\<bar> \<le> 16777216" by simp_all
  have "real_of_int a * real_of_int a = of_int (a * a)" by simp
  then have 1: "float_mult (int_to_float a) (int_to_float a) = 1"
    using binary32_of_int[OF o(1)]
    by (simp only: float_mult_def int_to_float_def binary32_of_int[OF a] assms(1))
  have "real_of_int b * real_of_int b = of_int (b * b)" by simp
  then have 2: "float_mult (int_to_float b) (int_to_float b) = 1"
    using binary32_of_int[OF o(1)]
    by (simp only: float_mult_def int_to_float_def binary32_of_int[OF b] assms(2))
  have 3: "float_add 1 1 = 2" using binary32_of_int[OF o(2)] by (simp add: float_add_def)
  show ?thesis by (simp only: float_distance_def 1 2 3)
qed



lemma float_distance_nonneg: "0 \<le> float_distance a b"
  by (simp add: float_distance_def sqrtf_def float_add_def float_mult_def binary32_nonneg)









lemma float_distance_axis:
  "a * a \<le> 16777216 \<Longrightarrow> float_distance a 0 = of_int \<bar>a\<bar>"
  by (rule float_distance_exact) simp_all

text \<open>The computed distance to the point a team stands on, and to a diagonal neighbour.\<close>

lemma computed_distance_examples:
  "sqrtf (float_add (float_mult (int_to_float 0) (int_to_float 0))
                    (float_mult (int_to_float 0) (int_to_float 0))) = 0"
  "sqrtf (float_add (float_mult (int_to_float 1) (int_to_float 1))
                    (float_mult (int_to_float 1) (int_to_float 1))) < FLT_MAX"
  "\<not> sqrtf (float_add (float_mult (int_to_float 1) (int_to_float 1))
                      (float_mult (int_to_float 1) (int_to_float 1))) < 0"
proof -
  have "float_distance 0 0 = of_int 0" by (rule float_distance_exact) simp_all
  then show "sqrtf (float_add (float_mult (int_to_float 0) (int_to_float 0))
                    (float_mult (int_to_float 0) (int_to_float 0))) = 0"
    by (simp add: float_distance_def)
  have "float_distance 1 1 = sqrtf 2" by (rule float_distance_diagonal) simp_all
  then have "float_distance 1 1 < 2" and "\<not> float_distance 1 1 < 0"
    using sqrtf_2 by simp_all
  then show "\<not> sqrtf (float_add (float_mult (int_to_float 1) (int_to_float 1))
                      (float_mult (int_to_float 1) (int_to_float 1))) < 0"
    by (simp add: float_distance_def)
  from \<open>float_distance 1 1 < 2\<close>
  show "sqrtf (float_add (float_mult (int_to_float 1) (int_to_float 1))
                    (float_mult (int_to_float 1) (int_to_float 1))) < FLT_MAX"
    by (simp add: float_distance_def FLT_MAX_def)
qed

subsection \<open>The scan for the nearest active focal point\<close>

text \<open>The distance the scan computes for one focal point.\<close>

definition distance_to :: "Team \<Rightarrow> FocalPoint \<Rightarrow> real" where
  "distance_to team f =
     sqrtf (float_add
       (float_mult (int_to_float (f_x f - t_x team)) (int_to_float (f_x f - t_x team)))
       (float_mult (int_to_float (f_y f - t_y team)) (int_to_float (f_y f - t_y team))))"

lemma distance_to_float:
  "distance_to team f = float_distance (f_x f - t_x team) (f_y f - t_y team)"
  by (simp only: distance_to_def float_distance_def)


lemma scan_focal_step:
  "scan_focal team focal j (distance, target) =
     (if f_active (focal ! j) \<noteq> 1 then (distance, target)
      else if distance_to team (focal ! j) < distance
        then (distance_to team (focal ! j), int j) else (distance, target))"
  by (simp add: scan_focal_def distance_to_def Let_def)




















section \<open>The replicated team and focal-point state\<close>

subsection \<open>What the propagation steps leave alone\<close>

text \<open>The variables of a worker that are replicated on every rank.\<close>

definition replicated :: "Worker \<Rightarrow> Team list \<times> FocalPoint list \<times> int \<times> bool \<times> int" where
  "replicated w = (w_teams w, w_focal w, w_iter w, w_flag_stability w, w_num_deactivated w)"

lemma replicated_pair_exchange:
  "q < length ws \<Longrightarrow> replicated (pair_exchange columns chunk r ws ! q) = replicated (ws ! q)"
  by (cases "q = Suc r"; cases "q = r")
     (simp_all add: pair_exchange_def Let_def nth_list_update replicated_def)

lemma replicated_fold_pair_exchange:
  "q < length ws \<Longrightarrow>
   replicated (fold (pair_exchange columns chunk) rs ws ! q) = replicated (ws ! q)"
proof (induction rs arbitrary: ws)
  case Nil
  then show ?case by simp
next
  case (Cons r rs)
  have "q < length (pair_exchange columns chunk r ws)" using Cons.prems by simp
  then have "replicated (fold (pair_exchange columns chunk) rs (pair_exchange columns chunk r ws) ! q) =
      replicated (pair_exchange columns chunk r ws ! q)"
    by (rule Cons.IH)
  then show ?case using Cons.prems by (simp add: replicated_pair_exchange)
qed

lemma replicated_sub_step:
  assumes "q < length ws"
  shows "replicated (sub_step global_rows columns ws ! q) = replicated (ws ! q)"
proof -
  define H where "H = halo_exchange columns (chunk_of global_rows (int (length ws)))
      (heat_phase global_rows columns ws)"
  have lH: "q < length H" using assms by (simp add: H_def)
  have "replicated (H ! q) = replicated (heat_phase global_rows columns ws ! q)"
    using assms unfolding H_def halo_exchange_def
    by (intro replicated_fold_pair_exchange) simp
  also have "\<dots> = replicated (ws ! q)"
    using assms by (simp add: nth_heat_phase replicated_def)
  finally have H: "replicated (H ! q) = replicated (ws ! q)" .
  have "replicated (sub_step global_rows columns ws ! q) = replicated (H ! q)"
    using lH
    by (simp add: sub_step_def H_def[symmetric] nth_residual_phase nth_stencil_phase
        nth_copy_phase replicated_def)
  then show ?thesis using H by simp
qed

lemma replicated_funpow_sub_step:
  assumes "q < length ws"
  shows "replicated ((sub_step global_rows columns ^^ n) ws ! q) = replicated (ws ! q)"
proof (induction n)
  case 0
  then show ?case by simp
next
  case (Suc n)
  have "q < length ((sub_step global_rows columns ^^ n) ws)" using assms by simp
  then have "replicated (sub_step global_rows columns ((sub_step global_rows columns ^^ n) ws) ! q) =
      replicated ((sub_step global_rows columns ^^ n) ws ! q)"
    by (rule replicated_sub_step)
  then show ?case using Suc by simp
qed

subsection \<open>The replicated part of an outer iteration\<close>

text \<open>
  Activation, targeting and movement, and deactivation, as a function of the iteration
  counter and the team and focal-point arrays alone.
\<close>

definition replicated_step :: "int \<Rightarrow> Team list \<times> FocalPoint list \<Rightarrow> Team list \<times> FocalPoint list" where
  "replicated_step iter = (\<lambda>(teams, focal).
     let focal1 = fst (activate_focal iter focal);
         teams1 = move_teams focal1 teams
     in (teams1, fold deactivate_target teams1 focal1))"

lemma nth_activation_phase:
  "q < length ws \<Longrightarrow>
   activation_phase ws ! q =
     (ws ! q)\<lparr>w_focal := fst (activate_focal (w_iter (ws ! q)) (w_focal (ws ! q))),
              w_num_deactivated :=
                MPI_Allreduce_SUM (map (\<lambda>w. snd (activate_focal (w_iter w) (w_focal w))) ws),
              w_global_residual := 0\<rparr>"
  by (simp add: activation_phase_def Let_def)

lemma worker_tail_replicated:
  "w_teams (worker_tail global_rows columns chunk rank w) = move_teams (w_focal w) (w_teams w)"
  "w_focal (worker_tail global_rows columns chunk rank w) =
     fold deactivate_target (move_teams (w_focal w) (w_teams w)) (w_focal w)"
  "w_iter (worker_tail global_rows columns chunk rank w) = w_iter w + 1"
  "w_flag_stability (worker_tail global_rows columns chunk rank w) =
     (w_flag_stability w \<or>
      (w_num_deactivated w = int (length (w_focal w)) \<and> w_global_residual w < THRESHOLD))"
  "w_num_deactivated (worker_tail global_rows columns chunk rank w) = w_num_deactivated w"
  by (auto simp: worker_tail_def Let_def team_actions_eq stability_test_def)

lemma outer_iteration_replicated:
  assumes "q < length ws"
  shows "(w_teams (outer_iteration global_rows columns ws ! q),
          w_focal (outer_iteration global_rows columns ws ! q)) =
           replicated_step (w_iter (ws ! q)) (w_teams (ws ! q), w_focal (ws ! q))"
    and "w_iter (outer_iteration global_rows columns ws ! q) = w_iter (ws ! q) + 1"
    and "w_num_deactivated (outer_iteration global_rows columns ws ! q) =
           MPI_Allreduce_SUM (map (\<lambda>w. snd (activate_focal (w_iter w) (w_focal w))) ws)"
proof -
  define A where "A = activation_phase ws"
  define X where "X = (sub_step global_rows columns ^^ 10) A ! q"
  have qA: "q < length A" using assms by (simp add: A_def)
  have "replicated X = replicated (A ! q)"
    unfolding X_def using qA by (rule replicated_funpow_sub_step)
  then have X: "w_teams X = w_teams (ws ! q)"
    "w_focal X = fst (activate_focal (w_iter (ws ! q)) (w_focal (ws ! q)))"
    "w_iter X = w_iter (ws ! q)"
    "w_num_deactivated X =
       MPI_Allreduce_SUM (map (\<lambda>w. snd (activate_focal (w_iter w) (w_focal w))) ws)"
    using assms by (simp_all add: replicated_def A_def nth_activation_phase)
  have o: "outer_iteration global_rows columns ws ! q =
      worker_tail global_rows columns (chunk_of global_rows (int (length ws))) (int q) X"
    using assms by (simp add: nth_outer_iteration X_def A_def)
  show "(w_teams (outer_iteration global_rows columns ws ! q),
          w_focal (outer_iteration global_rows columns ws ! q)) =
           replicated_step (w_iter (ws ! q)) (w_teams (ws ! q), w_focal (ws ! q))"
    by (simp add: o worker_tail_replicated X replicated_step_def Let_def)
  show "w_iter (outer_iteration global_rows columns ws ! q) = w_iter (ws ! q) + 1"
    by (simp add: o worker_tail_replicated X)
  show "w_num_deactivated (outer_iteration global_rows columns ws ! q) =
           MPI_Allreduce_SUM (map (\<lambda>w. snd (activate_focal (w_iter w) (w_focal w))) ws)"
    by (simp add: o worker_tail_replicated X)
qed


text \<open>The replicated state after \<open>n\<close> outer iterations that start at counter \<open>iter\<close>.\<close>

fun replicated_run :: "nat \<Rightarrow> int \<Rightarrow> Team list \<times> FocalPoint list \<Rightarrow> Team list \<times> FocalPoint list" where
  "replicated_run 0 iter st = st"
| "replicated_run (Suc n) iter st = replicated_run n (iter + 1) (replicated_step iter st)"

lemma length_funpow_outer_iteration [simp]:
  "length ((outer_iteration global_rows columns ^^ n) ws) = length ws"
  by (induction n) simp_all

lemma funpow_outer_iteration_replicated:
  assumes "q < length ws"
  shows "(w_teams ((outer_iteration global_rows columns ^^ n) ws ! q),
          w_focal ((outer_iteration global_rows columns ^^ n) ws ! q)) =
           replicated_run n (w_iter (ws ! q)) (w_teams (ws ! q), w_focal (ws ! q))
       \<and> w_iter ((outer_iteration global_rows columns ^^ n) ws ! q) = w_iter (ws ! q) + int n"
  using assms
proof (induction n arbitrary: ws)
  case 0
  then show ?case by simp
next
  case (Suc n)
  define ws1 where "ws1 = outer_iteration global_rows columns ws"
  have q1: "q < length ws1" using Suc.prems by (simp add: ws1_def)
  have f: "(outer_iteration global_rows columns ^^ Suc n) ws =
      (outer_iteration global_rows columns ^^ n) ws1"
    by (simp add: ws1_def funpow_swap1)
  have s: "(w_teams (ws1 ! q), w_focal (ws1 ! q)) =
      replicated_step (w_iter (ws ! q)) (w_teams (ws ! q), w_focal (ws ! q))"
    and i: "w_iter (ws1 ! q) = w_iter (ws ! q) + 1"
    unfolding ws1_def using Suc.prems by (rule outer_iteration_replicated)+
  from Suc.IH[OF q1] show ?case
    by (simp only: f s i replicated_run.simps) simp
qed

text \<open>
  Claim C5.  The team array, the focal-point array and the counter that a worker holds
  after an outer iteration depend only on the ones it held before: two workers, of any
  ranks, with any slices, in the same cohort or in two different ones, that start an
  outer iteration with equal team array, focal-point array and counter, end it with equal
  ones.  Hence in a cohort whose workers all start with the same arrays and counter,
  after any number of outer iterations all workers hold the same arrays and counter.
\<close>

theorem replicated_state_identical:
  "(\<forall>q<length ws. \<forall>q'<length ws'.
       w_teams (ws ! q) = w_teams (ws' ! q') \<and> w_focal (ws ! q) = w_focal (ws' ! q') \<and>
       w_iter (ws ! q) = w_iter (ws' ! q') \<longrightarrow>
       w_teams (outer_iteration global_rows columns ws ! q) =
         w_teams (outer_iteration global_rows' columns' ws' ! q')
     \<and> w_focal (outer_iteration global_rows columns ws ! q) =
         w_focal (outer_iteration global_rows' columns' ws' ! q')
     \<and> w_iter (outer_iteration global_rows columns ws ! q) =
         w_iter (outer_iteration global_rows' columns' ws' ! q'))
   \<and> ((\<forall>q<length ws. w_teams (ws ! q) = teams \<and> w_focal (ws ! q) = focal \<and> w_iter (ws ! q) = iter) \<longrightarrow>
       (\<forall>n. \<forall>q<length ws.
          w_teams ((outer_iteration global_rows columns ^^ n) ws ! q) =
            fst (replicated_run n iter (teams, focal))
        \<and> w_focal ((outer_iteration global_rows columns ^^ n) ws ! q) =
            snd (replicated_run n iter (teams, focal))
        \<and> w_iter ((outer_iteration global_rows columns ^^ n) ws ! q) = iter + int n))"
proof (intro conjI allI impI)
  fix q q'
  assume q: "q < length ws" and q': "q' < length ws'"
    and e: "w_teams (ws ! q) = w_teams (ws' ! q') \<and> w_focal (ws ! q) = w_focal (ws' ! q') \<and>
       w_iter (ws ! q) = w_iter (ws' ! q')"
  have "(w_teams (outer_iteration global_rows columns ws ! q),
         w_focal (outer_iteration global_rows columns ws ! q)) =
        (w_teams (outer_iteration global_rows' columns' ws' ! q'),
         w_focal (outer_iteration global_rows' columns' ws' ! q'))"
    by (simp only: outer_iteration_replicated(1)[OF q] outer_iteration_replicated(1)[OF q'] e)
  then show "w_teams (outer_iteration global_rows columns ws ! q) =
         w_teams (outer_iteration global_rows' columns' ws' ! q')"
    and "w_focal (outer_iteration global_rows columns ws ! q) =
         w_focal (outer_iteration global_rows' columns' ws' ! q')"
    by simp_all
  show "w_iter (outer_iteration global_rows columns ws ! q) =
         w_iter (outer_iteration global_rows' columns' ws' ! q')"
    by (simp only: outer_iteration_replicated(2)[OF q] outer_iteration_replicated(2)[OF q'] e)
next
  fix n q
  assume a: "\<forall>q<length ws. w_teams (ws ! q) = teams \<and> w_focal (ws ! q) = focal \<and> w_iter (ws ! q) = iter"
    and q: "q < length ws"
  from a q have e: "w_teams (ws ! q) = teams" "w_focal (ws ! q) = focal" "w_iter (ws ! q) = iter"
    by blast+
  note r = funpow_outer_iteration_replicated[OF q, where global_rows = global_rows and columns = columns and n = n, unfolded e]
  from r have "w_teams ((outer_iteration global_rows columns ^^ n) ws ! q) =
            fst (replicated_run n iter (teams, focal))"
    by (metis fst_conv)
  moreover from r have "w_focal ((outer_iteration global_rows columns ^^ n) ws ! q) =
            snd (replicated_run n iter (teams, focal))"
    by (metis snd_conv)
  moreover from r have "w_iter ((outer_iteration global_rows columns ^^ n) ws ! q) = iter + int n"
    by blast
  ultimately show "w_teams ((outer_iteration global_rows columns ^^ n) ws ! q) =
            fst (replicated_run n iter (teams, focal))"
    and "w_focal ((outer_iteration global_rows columns ^^ n) ws ! q) =
            snd (replicated_run n iter (teams, focal))"
    and "w_iter ((outer_iteration global_rows columns ^^ n) ws ! q) = iter + int n"
    by blast+
qed

text \<open>
  An example: two workers with different slices of an \<open>8 \<times> 3\<close> grid, a team of type 1
  and a team of type 2, and two focal points that start at ticks 0 and 1.  In the first
  outer iteration both teams make a step towards the first focal point.  In the second
  the first team reaches it and deactivates it, while the second team, standing on the
  second focal point as that one becomes active, deactivates it.
\<close>

definition teams5 :: "Team list" where
  "teams5 = [\<lparr>t_x = 0, t_y = 1, t_type = 1, t_target = - 1\<rparr>,
             \<lparr>t_x = 5, t_y = 1, t_type = 2, t_target = - 1\<rparr>]"

definition focal5 :: "FocalPoint list" where
  "focal5 = [\<lparr>f_x = 2, f_y = 1, f_start = 0, f_heat = 50, f_active = 0\<rparr>,
             \<lparr>f_x = 4, f_y = 1, f_start = 1, f_heat = 50, f_active = 0\<rparr>]"

definition cohort5 :: "Worker list" where
  "cohort5 =
     [\<lparr>w_surface = replicate 18 0, w_surfaceCopy = replicate 18 0,
       w_teams = teams5, w_focal = focal5,
       w_iter = 0, w_flag_stability = False, w_num_deactivated = 0, w_global_residual = 0\<rparr>,
      \<lparr>w_surface = replicate 18 7, w_surfaceCopy = replicate 18 3,
       w_teams = teams5, w_focal = focal5,
       w_iter = 0, w_flag_stability = False, w_num_deactivated = 0, w_global_residual = 0\<rparr>]"

lemma choose5:
  "choose_target \<lparr>t_x = 0, t_y = 1, t_type = 1, t_target = - 1\<rparr>
     [\<lparr>f_x = 2, f_y = 1, f_start = 0, f_heat = 50, f_active = 1\<rparr>,
      \<lparr>f_x = 4, f_y = 1, f_start = 1, f_heat = 50, f_active = 0\<rparr>] = 0"
  "choose_target \<lparr>t_x = 5, t_y = 1, t_type = 2, t_target = - 1\<rparr>
     [\<lparr>f_x = 2, f_y = 1, f_start = 0, f_heat = 50, f_active = 1\<rparr>,
      \<lparr>f_x = 4, f_y = 1, f_start = 1, f_heat = 50, f_active = 0\<rparr>] = 0"
  "choose_target \<lparr>t_x = 1, t_y = 1, t_type = 1, t_target = 0\<rparr>
     [\<lparr>f_x = 2, f_y = 1, f_start = 0, f_heat = 50, f_active = 1\<rparr>,
      \<lparr>f_x = 4, f_y = 1, f_start = 1, f_heat = 50, f_active = 1\<rparr>] = 0"
  "choose_target \<lparr>t_x = 4, t_y = 1, t_type = 2, t_target = 0\<rparr>
     [\<lparr>f_x = 2, f_y = 1, f_start = 0, f_heat = 50, f_active = 1\<rparr>,
      \<lparr>f_x = 4, f_y = 1, f_start = 1, f_heat = 50, f_active = 1\<rparr>] = 1"
  by (simp_all add: choose_target_def scan_focal_step distance_to_float float_distance_axis
      FLT_MAX_def)


lemma activate5:
  "fst (activate_focal 0 focal5) =
     [\<lparr>f_x = 2, f_y = 1, f_start = 0, f_heat = 50, f_active = 1\<rparr>,
      \<lparr>f_x = 4, f_y = 1, f_start = 1, f_heat = 50, f_active = 0\<rparr>]"
  "fst (activate_focal 1
     [\<lparr>f_x = 2, f_y = 1, f_start = 0, f_heat = 50, f_active = 1\<rparr>,
      \<lparr>f_x = 4, f_y = 1, f_start = 1, f_heat = 50, f_active = 0\<rparr>]) =
     [\<lparr>f_x = 2, f_y = 1, f_start = 0, f_heat = 50, f_active = 1\<rparr>,
      \<lparr>f_x = 4, f_y = 1, f_start = 1, f_heat = 50, f_active = 1\<rparr>]"
  by (simp_all add: focal5_def Let_def)

lemma move5:
  "move_teams
     [\<lparr>f_x = 2, f_y = 1, f_start = 0, f_heat = 50, f_active = 1\<rparr>,
      \<lparr>f_x = 4, f_y = 1, f_start = 1, f_heat = 50, f_active = 0\<rparr>] teams5 =
     [\<lparr>t_x = 1, t_y = 1, t_type = 1, t_target = 0\<rparr>,
      \<lparr>t_x = 4, t_y = 1, t_type = 2, t_target = 0\<rparr>]"
  "move_teams
     [\<lparr>f_x = 2, f_y = 1, f_start = 0, f_heat = 50, f_active = 1\<rparr>,
      \<lparr>f_x = 4, f_y = 1, f_start = 1, f_heat = 50, f_active = 1\<rparr>]
     [\<lparr>t_x = 1, t_y = 1, t_type = 1, t_target = 0\<rparr>,
      \<lparr>t_x = 4, t_y = 1, t_type = 2, t_target = 0\<rparr>] =
     [\<lparr>t_x = 2, t_y = 1, t_type = 1, t_target = 0\<rparr>,
      \<lparr>t_x = 4, t_y = 1, t_type = 2, t_target = 1\<rparr>]"
  by (simp_all add: teams5_def move_teams_def move_team_def choose5 Let_def
      move_type_1_def move_type_2_def)

lemma deactivate5:
  "fold deactivate_target
     [\<lparr>t_x = 1, t_y = 1, t_type = 1, t_target = 0\<rparr>,
      \<lparr>t_x = 4, t_y = 1, t_type = 2, t_target = 0\<rparr>]
     [\<lparr>f_x = 2, f_y = 1, f_start = 0, f_heat = 50, f_active = 1\<rparr>,
      \<lparr>f_x = 4, f_y = 1, f_start = 1, f_heat = 50, f_active = 0\<rparr>] =
     [\<lparr>f_x = 2, f_y = 1, f_start = 0, f_heat = 50, f_active = 1\<rparr>,
      \<lparr>f_x = 4, f_y = 1, f_start = 1, f_heat = 50, f_active = 0\<rparr>]"
  "fold deactivate_target
     [\<lparr>t_x = 2, t_y = 1, t_type = 1, t_target = 0\<rparr>,
      \<lparr>t_x = 4, t_y = 1, t_type = 2, t_target = 1\<rparr>]
     [\<lparr>f_x = 2, f_y = 1, f_start = 0, f_heat = 50, f_active = 1\<rparr>,
      \<lparr>f_x = 4, f_y = 1, f_start = 1, f_heat = 50, f_active = 1\<rparr>] =
     [\<lparr>f_x = 2, f_y = 1, f_start = 0, f_heat = 50, f_active = 2\<rparr>,
      \<lparr>f_x = 4, f_y = 1, f_start = 1, f_heat = 50, f_active = 2\<rparr>]"
  by (simp_all add: deactivate_target_def Let_def)

lemma replicated_run5:
  "replicated_run 2 0 (teams5, focal5) =
     ([\<lparr>t_x = 2, t_y = 1, t_type = 1, t_target = 0\<rparr>,
       \<lparr>t_x = 4, t_y = 1, t_type = 2, t_target = 1\<rparr>],
      [\<lparr>f_x = 2, f_y = 1, f_start = 0, f_heat = 50, f_active = 2\<rparr>,
       \<lparr>f_x = 4, f_y = 1, f_start = 1, f_heat = 50, f_active = 2\<rparr>])"
proof -
  have "replicated_run 2 0 (teams5, focal5) =
      replicated_step 1 (replicated_step 0 (teams5, focal5))"
    by (simp add: numeral_2_eq_2)
  then show ?thesis
    by (simp only: replicated_step_def Let_def prod.case activate5 move5 deactivate5)
qed

theorem replicated_state_identical_witness:
  "length cohort5 = 2
   \<and> w_surface (cohort5 ! 0) = replicate 18 0 \<and> w_surface (cohort5 ! 1) = replicate 18 7
   \<and> w_teams (cohort5 ! 0) = w_teams (cohort5 ! 1) \<and> w_focal (cohort5 ! 0) = w_focal (cohort5 ! 1)
   \<and> w_iter (cohort5 ! 0) = w_iter (cohort5 ! 1)
   \<and> w_teams (outer_iteration 8 3 cohort5 ! 0) = w_teams (outer_iteration 8 3 cohort5 ! 1)
   \<and> w_focal (outer_iteration 8 3 cohort5 ! 0) = w_focal (outer_iteration 8 3 cohort5 ! 1)
   \<and> w_iter (outer_iteration 8 3 cohort5 ! 0) = w_iter (outer_iteration 8 3 cohort5 ! 1)
   \<and> w_teams ((outer_iteration 8 3 ^^ 2) cohort5 ! 0) =
       [\<lparr>t_x = 2, t_y = 1, t_type = 1, t_target = 0\<rparr>,
        \<lparr>t_x = 4, t_y = 1, t_type = 2, t_target = 1\<rparr>]
   \<and> w_teams ((outer_iteration 8 3 ^^ 2) cohort5 ! 1) =
       [\<lparr>t_x = 2, t_y = 1, t_type = 1, t_target = 0\<rparr>,
        \<lparr>t_x = 4, t_y = 1, t_type = 2, t_target = 1\<rparr>]
   \<and> w_focal ((outer_iteration 8 3 ^^ 2) cohort5 ! 0) =
       [\<lparr>f_x = 2, f_y = 1, f_start = 0, f_heat = 50, f_active = 2\<rparr>,
        \<lparr>f_x = 4, f_y = 1, f_start = 1, f_heat = 50, f_active = 2\<rparr>]
   \<and> w_focal ((outer_iteration 8 3 ^^ 2) cohort5 ! 1) =
       [\<lparr>f_x = 2, f_y = 1, f_start = 0, f_heat = 50, f_active = 2\<rparr>,
        \<lparr>f_x = 4, f_y = 1, f_start = 1, f_heat = 50, f_active = 2\<rparr>]
   \<and> w_iter ((outer_iteration 8 3 ^^ 2) cohort5 ! 0) = 2
   \<and> w_iter ((outer_iteration 8 3 ^^ 2) cohort5 ! 1) = 2"
proof -
  have l: "(0::nat) < length cohort5" "(1::nat) < length cohort5" "length cohort5 = 2"
    by (simp_all add: cohort5_def)
  have s: "w_surface (cohort5 ! 0) = replicate 18 0" "w_surface (cohort5 ! 1) = replicate 18 7"
    by (simp_all add: cohort5_def)
  have e: "w_teams (cohort5 ! 0) = w_teams (cohort5 ! 1) \<and>
      w_focal (cohort5 ! 0) = w_focal (cohort5 ! 1) \<and>
      w_iter (cohort5 ! 0) = w_iter (cohort5 ! 1)"
    by (simp add: cohort5_def)
  have a: "\<forall>q<length cohort5. w_teams (cohort5 ! q) = teams5 \<and> w_focal (cohort5 ! q) = focal5 \<and>
      w_iter (cohort5 ! q) = 0"
    by (simp add: cohort5_def nth_Cons' All_less_Suc numeral_2_eq_2)
  note t = replicated_state_identical[of cohort5 cohort5 8 3 8 3 teams5 focal5 0]
  from t l e
  have one: "w_teams (outer_iteration 8 3 cohort5 ! 0) = w_teams (outer_iteration 8 3 cohort5 ! 1)
     \<and> w_focal (outer_iteration 8 3 cohort5 ! 0) = w_focal (outer_iteration 8 3 cohort5 ! 1)
     \<and> w_iter (outer_iteration 8 3 cohort5 ! 0) = w_iter (outer_iteration 8 3 cohort5 ! 1)"
    by blast
  from t a have r: "\<forall>n. \<forall>q<length cohort5.
          w_teams ((outer_iteration 8 3 ^^ n) cohort5 ! q) = fst (replicated_run n 0 (teams5, focal5))
        \<and> w_focal ((outer_iteration 8 3 ^^ n) cohort5 ! q) = snd (replicated_run n 0 (teams5, focal5))
        \<and> w_iter ((outer_iteration 8 3 ^^ n) cohort5 ! q) = 0 + int n"
    by blast
  from r l(1) have r0: "w_teams ((outer_iteration 8 3 ^^ 2) cohort5 ! 0) = fst (replicated_run 2 0 (teams5, focal5))
        \<and> w_focal ((outer_iteration 8 3 ^^ 2) cohort5 ! 0) = snd (replicated_run 2 0 (teams5, focal5))
        \<and> w_iter ((outer_iteration 8 3 ^^ 2) cohort5 ! 0) = 0 + int 2"
    by blast
  from r l(2) have r1: "w_teams ((outer_iteration 8 3 ^^ 2) cohort5 ! 1) = fst (replicated_run 2 0 (teams5, focal5))
        \<and> w_focal ((outer_iteration 8 3 ^^ 2) cohort5 ! 1) = snd (replicated_run 2 0 (teams5, focal5))
        \<and> w_iter ((outer_iteration 8 3 ^^ 2) cohort5 ! 1) = 0 + int 2"
    by blast
  show ?thesis using l(3) s e one r0 r1 by (simp add: replicated_run5)
qed

section \<open>Deactivation of focal points\<close>

subsection \<open>The deactivation step of one team\<close>

lemma length_deactivate_target [simp]: "length (deactivate_target team focal) = length focal"
  by (simp add: deactivate_target_def Let_def)




subsection \<open>The deactivation loop over the teams\<close>

lemma length_fold_deactivate [simp]: "length (fold deactivate_target ts focal) = length focal"
  by (induction ts arbitrary: focal) simp_all






subsection \<open>A unit step lands on the nearest point only\<close>










subsection \<open>Deactivation is permanent\<close>

lemma fst_activate_focal:
  "fst (activate_focal iter focal) =
     map (\<lambda>f. if f_start f = iter then f\<lparr>f_active := 1\<rparr> else f) focal"
  by (induction focal) (auto simp: Let_def split: prod.splits)

lemma length_fst_activate_focal [simp]: "length (fst (activate_focal iter focal)) = length focal"
  by (simp add: fst_activate_focal)



lemma length_replicated_step [simp]:
  "length (snd (replicated_step iter (teams, focal))) = length focal"
  by (simp add: replicated_step_def Let_def)







subsection \<open>Reaching an active focal point\<close>










section \<open>The stability decision\<close>

subsection \<open>The reduced count and the flag\<close>

lemma snd_activate_focal:
  "snd (activate_focal iter focal) =
     int (length (filter (\<lambda>f. f_active f = 2) (fst (activate_focal iter focal))))"
  by (induction focal) (auto simp: Let_def split: prod.splits)

lemma outer_iteration_flag:
  assumes "q < length ws"
  shows "w_flag_stability (outer_iteration global_rows columns ws ! q) =
     (w_flag_stability (ws ! q) \<or>
      (MPI_Allreduce_SUM (map (\<lambda>w. snd (activate_focal (w_iter w) (w_focal w))) ws) =
         int (length (w_focal (ws ! q))) \<and>
       w_global_residual ((sub_step global_rows columns ^^ 10) (activation_phase ws) ! q) < THRESHOLD))"
proof -
  define A where "A = activation_phase ws"
  define X where "X = (sub_step global_rows columns ^^ 10) A ! q"
  have qA: "q < length A" using assms by (simp add: A_def)
  have "replicated X = replicated (A ! q)"
    unfolding X_def using qA by (rule replicated_funpow_sub_step)
  then have X: "w_focal X = fst (activate_focal (w_iter (ws ! q)) (w_focal (ws ! q)))"
    "w_flag_stability X = w_flag_stability (ws ! q)"
    "w_num_deactivated X =
       MPI_Allreduce_SUM (map (\<lambda>w. snd (activate_focal (w_iter w) (w_focal w))) ws)"
    using assms by (simp_all add: replicated_def A_def nth_activation_phase)
  have o: "outer_iteration global_rows columns ws ! q =
      worker_tail global_rows columns (chunk_of global_rows (int (length ws))) (int q) X"
    using assms by (simp add: nth_outer_iteration X_def A_def)
  show ?thesis
    unfolding o worker_tail_replicated(4) X A_def[symmetric] X_def[symmetric] by simp
qed

text \<open>
  With the focal-point array and the counter replicated, every rank counts the same
  number \<open>d\<close> of deactivated focal points, and the sum over the cohort is \<open>size * d\<close>.
\<close>

lemma replicated_count_sum:
  assumes "\<forall>q<length ws. w_focal (ws ! q) = focal \<and> w_iter (ws ! q) = iter"
  shows "MPI_Allreduce_SUM (map (\<lambda>w. snd (activate_focal (w_iter w) (w_focal w))) ws) =
         int (length ws) * snd (activate_focal iter focal)"
proof -
  have "map (\<lambda>w. snd (activate_focal (w_iter w) (w_focal w))) ws =
      replicate (length ws) (snd (activate_focal iter focal))"
    using assms by (intro nth_equalityI) simp_all
  then show ?thesis by (simp add: MPI_Allreduce_SUM_def sum_list_replicate)
qed

lemma funpow_fixpoint: "f x = x \<Longrightarrow> (f ^^ n) x = x"
  by (induction n) simp_all

subsection \<open>Runs on slices that stay zero\<close>

text \<open>
  What the input layer leaves in every process: zeroed slices, the teams, the focal points
  in state 0, and the counter at 0.
\<close>

definition init_worker :: "int \<Rightarrow> int \<Rightarrow> int \<Rightarrow> Team list \<Rightarrow> FocalPoint list \<Rightarrow> Worker" where
  "init_worker global_rows columns nprocs teams focal =
     \<lparr>w_surface = replicate (nat ((chunk_of global_rows nprocs + 2) * columns)) 0,
      w_surfaceCopy = replicate (nat ((chunk_of global_rows nprocs + 2) * columns)) 0,
      w_teams = teams, w_focal = map (\<lambda>f. f\<lparr>f_active := 0\<rparr>) focal,
      w_iter = 0, w_flag_stability = False, w_num_deactivated = 0, w_global_residual = 0\<rparr>"

definition init_cohort :: "int \<Rightarrow> int \<Rightarrow> nat \<Rightarrow> Team list \<Rightarrow> FocalPoint list \<Rightarrow> Worker list" where
  "init_cohort global_rows columns nprocs teams focal =
     replicate nprocs (init_worker global_rows columns (int nprocs) teams focal)"

text \<open>The team suppression leaves an all-zero slice all zero.\<close>

lemma reduce_cell_zero:
  "reduce_cell global_rows columns g_start g_end team radius i j (replicate n 0) = replicate n 0"
proof -
  have "\<And>k. (replicate n (0::real))[k := replicate n 0 ! k * (1 - 0.25)] = replicate n 0"
  proof -
    fix k show "(replicate n (0::real))[k := replicate n 0 ! k * (1 - 0.25)] = replicate n 0"
      by (cases "k < n") (simp_all add: list_eq_iff_nth_eq nth_list_update)
  qed
  then show ?thesis
    by (simp add: reduce_cell_def Let_def setMat_def accessMat_def)
qed

lemma fold_fixpoint: "(\<And>x. f x s = s) \<Longrightarrow> fold f xs s = s"
  by (induction xs) simp_all

lemma reduce_heat_zero:
  "reduce_heat global_rows columns g_start g_end team (replicate n 0) = replicate n 0"
  unfolding reduce_heat_def Let_def
  by (intro fold_fixpoint reduce_cell_zero)

text \<open>A worker whose slice of \<open>len\<close> cells is all zero.\<close>

definition zero_worker :: "nat \<Rightarrow> Team list \<Rightarrow> FocalPoint list \<Rightarrow> int \<Rightarrow> bool \<Rightarrow> int \<Rightarrow> Worker" where
  "zero_worker len ts fs i b n =
     \<lparr>w_surface = replicate len 0, w_surfaceCopy = replicate len 0,
      w_teams = ts, w_focal = fs,
      w_iter = i, w_flag_stability = b, w_num_deactivated = n, w_global_residual = 0\<rparr>"

lemma activation_phase_zero:
  "activation_phase (replicate k (zero_worker len ts fs i b n)) =
     replicate k (zero_worker len ts (fst (activate_focal i fs)) i b
       (int k * snd (activate_focal i fs)))"
proof -
  have "MPI_Allreduce_SUM (map (\<lambda>w. snd (activate_focal (w_iter w) (w_focal w)))
      (replicate k (zero_worker len ts fs i b n))) = int k * snd (activate_focal i fs)"
    using replicated_count_sum[of "replicate k (zero_worker len ts fs i b n)" fs i]
    by (simp add: zero_worker_def)
  then show ?thesis
    by (simp add: activation_phase_def Let_def) (simp add: zero_worker_def)
qed

lemma worker_tail_zero:
  "worker_tail global_rows columns chunk rank (zero_worker len ts fs i b n) =
     zero_worker len (move_teams fs ts) (fold deactivate_target (move_teams fs ts) fs) (i + 1)
       (b \<or> n = int (length fs)) n"
proof -
  have "fold (reduce_heat global_rows columns (g_start_of chunk rank) (g_end_of chunk rank))
      (move_teams fs ts) (replicate len 0) = replicate len 0"
    by (intro fold_fixpoint reduce_heat_zero)
  then show ?thesis
    by (auto simp: worker_tail_def stability_test_def team_actions_eq zero_worker_def Let_def
        THRESHOLD_def)
qed

lemma outer_iteration_zero:
  assumes "sub_step global_rows columns
      (replicate k (zero_worker len ts (fst (activate_focal i fs)) i b
         (int k * snd (activate_focal i fs)))) =
      replicate k (zero_worker len ts (fst (activate_focal i fs)) i b
         (int k * snd (activate_focal i fs)))"
  shows "outer_iteration global_rows columns (replicate k (zero_worker len ts fs i b n)) =
     replicate k (zero_worker len (move_teams (fst (activate_focal i fs)) ts)
       (fold deactivate_target (move_teams (fst (activate_focal i fs)) ts)
          (fst (activate_focal i fs)))
       (i + 1)
       (b \<or> int k * snd (activate_focal i fs) = int (length fs))
       (int k * snd (activate_focal i fs)))"
proof -
  define w1 where "w1 = zero_worker len ts (fst (activate_focal i fs)) i b
         (int k * snd (activate_focal i fs))"
  have "(sub_step global_rows columns ^^ 10) (replicate k w1) = replicate k w1"
    using assms unfolding w1_def by (rule funpow_fixpoint)
  then have "outer_iteration global_rows columns (replicate k (zero_worker len ts fs i b n)) =
      map_rank (worker_tail global_rows columns (chunk_of global_rows (int k))) (replicate k w1)"
    by (simp only: outer_iteration_def activation_phase_zero w1_def[symmetric] length_replicate)
  also have "\<dots> = replicate k (worker_tail global_rows columns (chunk_of global_rows (int k)) 0 w1)"
    by (rule nth_equalityI) (simp_all add: nth_map_rank w1_def worker_tail_zero)
  finally show ?thesis by (simp add: w1_def worker_tail_zero)
qed

text \<open>
  The focal points of two inputs on a \<open>4 \<times> 3\<close> grid, by their states: one focal point
  at \<open>(1, 1)\<close>; two focal points at \<open>(1, 1)\<close> and \<open>(2, 2)\<close>.  All start at tick 0 with
  heat 0.  The team is of type 1.
\<close>

definition focal_1 :: "int \<Rightarrow> FocalPoint list" where
  "focal_1 a = [\<lparr>f_x = 1, f_y = 1, f_start = 0, f_heat = 0, f_active = a\<rparr>]"

definition focal_2 :: "int \<Rightarrow> int \<Rightarrow> FocalPoint list" where
  "focal_2 a a' = [\<lparr>f_x = 1, f_y = 1, f_start = 0, f_heat = 0, f_active = a\<rparr>,
                   \<lparr>f_x = 2, f_y = 2, f_start = 0, f_heat = 0, f_active = a'\<rparr>]"

definition team_at :: "int \<Rightarrow> int \<Rightarrow> int \<Rightarrow> Team list" where
  "team_at x y target = [\<lparr>t_x = x, t_y = y, t_type = 1, t_target = target\<rparr>]"

lemma init_cohort_zero:
  "init_cohort 4 3 2 ts (focal_1 a) = replicate 2 (zero_worker 12 ts (focal_1 0) 0 False 0)"
  "init_cohort 4 3 1 ts (focal_1 a) = replicate 1 (zero_worker 18 ts (focal_1 0) 0 False 0)"
  "init_cohort 4 3 2 ts (focal_2 a a') = replicate 2 (zero_worker 12 ts (focal_2 0 0) 0 False 0)"
  by (simp_all add: init_cohort_def init_worker_def chunk_of_def signed_divide_int_def
      focal_1_def focal_2_def zero_worker_def)

lemma sub_step_zero:
  "sub_step 4 3 (replicate 2 (zero_worker 12 ts (focal_1 a) i b n)) =
     replicate 2 (zero_worker 12 ts (focal_1 a) i b n)"
  "sub_step 4 3 (replicate 1 (zero_worker 18 ts (focal_1 a) i b n)) =
     replicate 1 (zero_worker 18 ts (focal_1 a) i b n)"
  "sub_step 4 3 (replicate 2 (zero_worker 12 ts (focal_2 a a') i b n)) =
     replicate 2 (zero_worker 12 ts (focal_2 a a') i b n)"
  by (simp_all add: sub_step_def residual_phase_def local_residuals_def stencil_phase_def
      copy_phase_def heat_phase_def halo_exchange_def pair_exchange_def map_rank_def
      chunk_of_def signed_divide_int_def g_start_of_def g_end_of_def update_heat_def heat_write_def
      update_surface_def update_row_def local_residual_def residual_row_def
      copy_surface_def row_of_def store_row_def setMat_def accessMat_def idx_def
      stencil_cell_def zero_worker_def focal_1_def focal_2_def Let_def upto_rec1 eval_nat_numeral)

lemma activate_examples:
  "activate_focal 0 (focal_1 0) = (focal_1 1, 0)"
  "i \<noteq> 0 \<Longrightarrow> activate_focal i (focal_1 a) = (focal_1 a, if a = 2 then 1 else 0)"
  "activate_focal 0 (focal_2 0 0) = (focal_2 1 1, 0)"
  "i \<noteq> 0 \<Longrightarrow> activate_focal i (focal_2 a a') =
     (focal_2 a a', (if a = 2 then 1 else 0) + (if a' = 2 then 1 else 0))"
  by (simp_all add: focal_1_def focal_2_def Let_def)

lemma zero_below_FLT_MAX: "0 < FLT_MAX"
  by (simp add: FLT_MAX_def)

lemma move_examples:
  "move_teams (focal_1 1) (team_at 1 1 tg) = team_at 1 1 0"
  "move_teams (focal_1 2) (team_at 1 1 tg) = team_at 1 1 (- 1)"
  "move_teams (focal_2 1 1) (team_at 1 1 tg) = team_at 1 1 0"
  "move_teams (focal_2 2 1) (team_at 1 1 tg) = team_at 2 2 1"
proof -
  show "move_teams (focal_1 1) (team_at 1 1 tg) = team_at 1 1 0"
    by (simp add: move_teams_def move_team_def choose_target_def scan_focal_def
        computed_distance_examples zero_below_FLT_MAX move_type_1_def focal_1_def team_at_def Let_def)
  show "move_teams (focal_1 2) (team_at 1 1 tg) = team_at 1 1 (- 1)"
    by (simp add: move_teams_def move_team_def choose_target_def scan_focal_def
        focal_1_def team_at_def Let_def)
  show "move_teams (focal_2 1 1) (team_at 1 1 tg) = team_at 1 1 0"
    by (simp add: move_teams_def move_team_def choose_target_def scan_focal_def
        computed_distance_examples zero_below_FLT_MAX move_type_1_def focal_2_def team_at_def Let_def)
  show "move_teams (focal_2 2 1) (team_at 1 1 tg) = team_at 2 2 1"
    by (simp add: move_teams_def move_team_def choose_target_def scan_focal_def
        computed_distance_examples move_type_1_def focal_2_def team_at_def Let_def)
qed

lemma deactivate_examples:
  "fold deactivate_target (team_at 1 1 0) (focal_1 1) = focal_1 2"
  "fold deactivate_target (team_at 1 1 (- 1)) (focal_1 2) = focal_1 2"
  "fold deactivate_target (team_at 1 1 0) (focal_2 1 1) = focal_2 2 1"
  "fold deactivate_target (team_at 2 2 1) (focal_2 2 1) = focal_2 2 2"
  by (simp_all add: deactivate_target_def focal_1_def focal_2_def team_at_def Let_def)


subsection \<open>The simulation loop\<close>

text \<open>
  Every process runs \<open>for (iter = 0; iter < max_iter && !flag_stability; iter++)\<close>.  The
  cohort goes on while every process goes on and stops when every process stops; when
  some go on and some stop the collective calls no longer match and the run hangs
  (\<open>None\<close>).
\<close>

definition goes_on :: "int \<Rightarrow> Worker \<Rightarrow> bool" where
  "goes_on max_iter w \<longleftrightarrow> w_iter w < max_iter \<and> \<not> w_flag_stability w"

function simulation :: "int \<Rightarrow> int \<Rightarrow> int \<Rightarrow> Worker list \<Rightarrow> Worker list option" where
  "simulation global_rows columns max_iter ws =
     (if ws \<noteq> [] \<and> list_all (goes_on max_iter) ws
      then simulation global_rows columns max_iter (outer_iteration global_rows columns ws)
      else if list_all (\<lambda>w. \<not> goes_on max_iter w) ws then Some ws
      else None)"
  by pat_completeness auto
termination
proof (relation "measure (\<lambda>(global_rows, columns, max_iter, ws). nat (max_iter - w_iter (hd ws)))")
  show "wf (measure (\<lambda>(global_rows, columns, max_iter, ws). nat (max_iter - w_iter (hd ws))))"
    by simp
next
  fix global_rows columns max_iter :: int and ws :: "Worker list"
  assume a: "ws \<noteq> [] \<and> list_all (goes_on max_iter) ws"
  then have z: "0 < length ws" by simp
  have "goes_on max_iter (ws ! 0)" using a z by (simp add: list_all_length)
  then have lt: "w_iter (ws ! 0) < max_iter" by (simp add: goes_on_def)
  have "outer_iteration global_rows columns ws \<noteq> []"
  proof
    assume "outer_iteration global_rows columns ws = []"
    then have "length (outer_iteration global_rows columns ws) = 0" by (simp only: list.size)
    then show False using z by simp
  qed
  then have "hd (outer_iteration global_rows columns ws) = outer_iteration global_rows columns ws ! 0"
    by (rule hd_conv_nth)
  moreover have "hd ws = ws ! 0" using a by (intro hd_conv_nth) simp
  moreover have "w_iter (outer_iteration global_rows columns ws ! 0) = w_iter (ws ! 0) + 1"
    by (rule outer_iteration_replicated(2)[OF z])
  ultimately have "w_iter (hd (outer_iteration global_rows columns ws)) = w_iter (hd ws) + 1"
    and "w_iter (hd ws) < max_iter"
    using lt by simp_all
  then show "((global_rows, columns, max_iter, outer_iteration global_rows columns ws),
      (global_rows, columns, max_iter, ws))
    \<in> measure (\<lambda>(global_rows, columns, max_iter, ws). nat (max_iter - w_iter (hd ws)))"
    by simp
qed

declare simulation.simps [simp del]

lemma simulation_goes_on:
  "ws \<noteq> [] \<Longrightarrow> list_all (goes_on max_iter) ws \<Longrightarrow>
   simulation global_rows columns max_iter ws =
     simulation global_rows columns max_iter (outer_iteration global_rows columns ws)"
  by (subst simulation.simps) simp

lemma simulation_stops:
  "ws \<noteq> [] \<Longrightarrow> list_all (\<lambda>w. \<not> goes_on max_iter w) ws \<Longrightarrow>
   simulation global_rows columns max_iter ws = Some ws"
  by (subst simulation.simps) (cases ws, simp_all)

lemma simulation_zero_goes_on:
  "0 < k \<Longrightarrow> i < max_iter \<Longrightarrow>
   simulation global_rows columns max_iter (replicate k (zero_worker len ts fs i False n)) =
     simulation global_rows columns max_iter
       (outer_iteration global_rows columns (replicate k (zero_worker len ts fs i False n)))"
  by (rule simulation_goes_on) (auto simp: list_all_iff goes_on_def zero_worker_def)

lemma simulation_zero_stops:
  "0 < k \<Longrightarrow> max_iter \<le> i \<or> b \<Longrightarrow>
   simulation global_rows columns max_iter (replicate k (zero_worker len ts fs i b n)) =
     Some (replicate k (zero_worker len ts fs i b n))"
  by (rule simulation_stops) (auto simp: list_all_iff goes_on_def zero_worker_def)

subsection \<open>Two inputs, step by step\<close>

lemma length_examples [simp]: "length (focal_1 a) = 1" "length (focal_2 a a') = 2"
  by (simp_all add: focal_1_def focal_2_def)

lemma one_focal_two_workers:
  "outer_iteration 4 3 (replicate 2 (zero_worker 12 (team_at 1 1 tg) (focal_1 0) 0 False 0)) =
     replicate 2 (zero_worker 12 (team_at 1 1 0) (focal_1 2) 1 False 0)"
  "i \<noteq> 0 \<Longrightarrow>
   outer_iteration 4 3 (replicate 2 (zero_worker 12 (team_at 1 1 tg) (focal_1 2) i False n)) =
     replicate 2 (zero_worker 12 (team_at 1 1 (- 1)) (focal_1 2) (i + 1) False 2)"
proof -
  have a: "activate_focal 0 (focal_1 0) = (focal_1 1, 0)" by (rule activate_examples)
  show "outer_iteration 4 3 (replicate 2 (zero_worker 12 (team_at 1 1 tg) (focal_1 0) 0 False 0)) =
     replicate 2 (zero_worker 12 (team_at 1 1 0) (focal_1 2) 1 False 0)"
    using outer_iteration_zero[where global_rows = 4 and columns = 3 and k = 2 and len = 12
          and ts = "team_at 1 1 tg" and fs = "focal_1 0" and i = 0 and b = False and n = 0,
        unfolded a fst_conv snd_conv, OF sub_step_zero(1)]
    by (simp add: move_examples deactivate_examples)
  assume i: "i \<noteq> 0"
  have b: "activate_focal i (focal_1 2) = (focal_1 2, 1)" using i by (simp add: activate_examples)
  show "outer_iteration 4 3 (replicate 2 (zero_worker 12 (team_at 1 1 tg) (focal_1 2) i False n)) =
     replicate 2 (zero_worker 12 (team_at 1 1 (- 1)) (focal_1 2) (i + 1) False 2)"
    using outer_iteration_zero[where global_rows = 4 and columns = 3 and k = 2 and len = 12
          and ts = "team_at 1 1 tg" and fs = "focal_1 2" and i = i and b = False and n = n,
        unfolded b fst_conv snd_conv, OF sub_step_zero(1)]
    by (simp add: move_examples deactivate_examples)
qed

lemma one_focal_one_worker:
  "outer_iteration 4 3 (replicate 1 (zero_worker 18 (team_at 1 1 tg) (focal_1 0) 0 False 0)) =
     replicate 1 (zero_worker 18 (team_at 1 1 0) (focal_1 2) 1 False 0)"
  "i \<noteq> 0 \<Longrightarrow>
   outer_iteration 4 3 (replicate 1 (zero_worker 18 (team_at 1 1 tg) (focal_1 2) i False n)) =
     replicate 1 (zero_worker 18 (team_at 1 1 (- 1)) (focal_1 2) (i + 1) True 1)"
proof -
  have a: "activate_focal 0 (focal_1 0) = (focal_1 1, 0)" by (rule activate_examples)
  show "outer_iteration 4 3 (replicate 1 (zero_worker 18 (team_at 1 1 tg) (focal_1 0) 0 False 0)) =
     replicate 1 (zero_worker 18 (team_at 1 1 0) (focal_1 2) 1 False 0)"
    using outer_iteration_zero[where global_rows = 4 and columns = 3 and k = 1 and len = 18
          and ts = "team_at 1 1 tg" and fs = "focal_1 0" and i = 0 and b = False and n = 0,
        unfolded a fst_conv snd_conv, OF sub_step_zero(2)]
    by (simp add: move_examples deactivate_examples)
  assume i: "i \<noteq> 0"
  have b: "activate_focal i (focal_1 2) = (focal_1 2, 1)" using i by (simp add: activate_examples)
  show "outer_iteration 4 3 (replicate 1 (zero_worker 18 (team_at 1 1 tg) (focal_1 2) i False n)) =
     replicate 1 (zero_worker 18 (team_at 1 1 (- 1)) (focal_1 2) (i + 1) True 1)"
    using outer_iteration_zero[where global_rows = 4 and columns = 3 and k = 1 and len = 18
          and ts = "team_at 1 1 tg" and fs = "focal_1 2" and i = i and b = False and n = n,
        unfolded b fst_conv snd_conv, OF sub_step_zero(2)]
    by (simp add: move_examples deactivate_examples)
qed

lemma two_focal_two_workers:
  "outer_iteration 4 3 (replicate 2 (zero_worker 12 (team_at 1 1 tg) (focal_2 0 0) 0 False 0)) =
     replicate 2 (zero_worker 12 (team_at 1 1 0) (focal_2 2 1) 1 False 0)"
  "i \<noteq> 0 \<Longrightarrow>
   outer_iteration 4 3 (replicate 2 (zero_worker 12 (team_at 1 1 tg) (focal_2 2 1) i False n)) =
     replicate 2 (zero_worker 12 (team_at 2 2 1) (focal_2 2 2) (i + 1) True 2)"
proof -
  have a: "activate_focal 0 (focal_2 0 0) = (focal_2 1 1, 0)" by (rule activate_examples)
  show "outer_iteration 4 3 (replicate 2 (zero_worker 12 (team_at 1 1 tg) (focal_2 0 0) 0 False 0)) =
     replicate 2 (zero_worker 12 (team_at 1 1 0) (focal_2 2 1) 1 False 0)"
    using outer_iteration_zero[where global_rows = 4 and columns = 3 and k = 2 and len = 12
          and ts = "team_at 1 1 tg" and fs = "focal_2 0 0" and i = 0 and b = False and n = 0,
        unfolded a fst_conv snd_conv, OF sub_step_zero(3)]
    by (simp add: move_examples deactivate_examples)
  assume i: "i \<noteq> 0"
  have b: "activate_focal i (focal_2 2 1) = (focal_2 2 1, 1)" using i by (simp add: activate_examples)
  show "outer_iteration 4 3 (replicate 2 (zero_worker 12 (team_at 1 1 tg) (focal_2 2 1) i False n)) =
     replicate 2 (zero_worker 12 (team_at 2 2 1) (focal_2 2 2) (i + 1) True 2)"
    using outer_iteration_zero[where global_rows = 4 and columns = 3 and k = 2 and len = 12
          and ts = "team_at 1 1 tg" and fs = "focal_2 2 1" and i = i and b = False and n = n,
        unfolded b fst_conv snd_conv, OF sub_step_zero(3)]
    by (simp add: move_examples deactivate_examples)
qed

lemma funpow_2: "(f ^^ 2) x = f (f x)"
  by (simp add: numeral_2_eq_2)

lemma one_focal_two_workers_run:
  "(outer_iteration 4 3 ^^ (n + 2)) (replicate 2 (zero_worker 12 (team_at 1 1 (- 1)) (focal_1 0) 0 False 0)) =
     replicate 2 (zero_worker 12 (team_at 1 1 (- 1)) (focal_1 2) (int n + 2) False 2)"
proof (induction n)
  case 0
  have "(1::int) \<noteq> 0" by simp
  from one_focal_two_workers(2)[OF this, of 0 0]
  have "outer_iteration 4 3 (outer_iteration 4 3
      (replicate 2 (zero_worker 12 (team_at 1 1 (- 1)) (focal_1 0) 0 False 0))) =
      replicate 2 (zero_worker 12 (team_at 1 1 (- 1)) (focal_1 2) 2 False 2)"
    by (simp only: one_focal_two_workers(1)) simp
  then show ?case by (simp only: add_0 funpow_2) simp
next
  case (Suc n)
  have ne: "int n + 2 \<noteq> 0" by simp
  have "(outer_iteration 4 3 ^^ (Suc n + 2))
      (replicate 2 (zero_worker 12 (team_at 1 1 (- 1)) (focal_1 0) 0 False 0)) =
    outer_iteration 4 3 ((outer_iteration 4 3 ^^ (n + 2))
      (replicate 2 (zero_worker 12 (team_at 1 1 (- 1)) (focal_1 0) 0 False 0)))"
    by simp
  also have "\<dots> = replicate 2 (zero_worker 12 (team_at 1 1 (- 1)) (focal_1 2) (int n + 2 + 1) False 2)"
    by (simp only: Suc one_focal_two_workers(2)[OF ne])
  finally show ?case by (simp add: add.commute add.left_commute)
qed


lemma one_focal_two_workers_simulation:
  assumes "1 \<le> i" "i < m"
  shows "simulation 4 3 m (replicate 2 (zero_worker 12 (team_at 1 1 tg) (focal_1 2) i False n)) =
         Some (replicate 2 (zero_worker 12 (team_at 1 1 (- 1)) (focal_1 2) m False 2))"
  using assms
proof (induction "nat (m - i)" arbitrary: i tg n)
  case 0
  then show ?case by simp
next
  case (Suc d)
  have ne: "i \<noteq> 0" using Suc.prems by simp
  have "simulation 4 3 m (replicate 2 (zero_worker 12 (team_at 1 1 tg) (focal_1 2) i False n)) =
      simulation 4 3 m (replicate 2 (zero_worker 12 (team_at 1 1 (- 1)) (focal_1 2) (i + 1) False 2))"
    using Suc.prems by (simp only: simulation_zero_goes_on[OF zero_less_numeral]
        one_focal_two_workers(2)[OF ne])
  also have "\<dots> = Some (replicate 2 (zero_worker 12 (team_at 1 1 (- 1)) (focal_1 2) m False 2))"
  proof (cases "i + 1 < m")
    case True
    have "d = nat (m - (i + 1))" using Suc.hyps(2) by simp
    moreover have "1 \<le> i + 1" using Suc.prems by simp
    ultimately show ?thesis using True by (rule Suc.hyps(1))
  next
    case False
    then have e: "i + 1 = m" using Suc.prems by simp
    have "simulation 4 3 m (replicate 2 (zero_worker 12 (team_at 1 1 (- 1)) (focal_1 2) m False 2)) =
        Some (replicate 2 (zero_worker 12 (team_at 1 1 (- 1)) (focal_1 2) m False 2))"
      by (rule simulation_zero_stops) simp_all
    then show ?thesis by (simp only: e)
  qed
  finally show ?case .
qed

section \<open>The stability flag with more than one worker\<close>

text \<open>
  Claim C1.  The flag should become true exactly when every focal point is deactivated
  and the reduced residual is below the threshold, for any number of workers.  On the
  input \<open>4 3 5 1 1 1 1 1 1 1 0 0\<close> (one team on the one focal point, heat 0) every
  slice stays zero, so every residual is 0, and the focal point is deactivated in the
  first outer iteration.  With two workers the reduced count is 2 from then on, never the
  number of focal points: after any further outer iterations the flag is still false, and
  the loop runs to \<open>max_iter = 5\<close>.  With one worker the flag is set in the second outer
  iteration and the loop ends with \<open>iter = 2\<close>.
\<close>

theorem stability_flag_two_workers:
  "(outer_iteration 4 3 ^^ (n + 2)) (init_cohort 4 3 2 (team_at 1 1 (- 1)) (focal_1 0)) =
     replicate 2 (zero_worker 12 (team_at 1 1 (- 1)) (focal_1 2) (int n + 2) False 2)
   \<and> simulation 4 3 5 (init_cohort 4 3 2 (team_at 1 1 (- 1)) (focal_1 0)) =
     Some (replicate 2 (zero_worker 12 (team_at 1 1 (- 1)) (focal_1 2) 5 False 2))
   \<and> (outer_iteration 4 3 ^^ 2) (init_cohort 4 3 1 (team_at 1 1 (- 1)) (focal_1 0)) =
     replicate 1 (zero_worker 18 (team_at 1 1 (- 1)) (focal_1 2) 2 True 1)
   \<and> simulation 4 3 5 (init_cohort 4 3 1 (team_at 1 1 (- 1)) (focal_1 0)) =
     Some (replicate 1 (zero_worker 18 (team_at 1 1 (- 1)) (focal_1 2) 2 True 1))"
proof (intro conjI)
  show "(outer_iteration 4 3 ^^ (n + 2)) (init_cohort 4 3 2 (team_at 1 1 (- 1)) (focal_1 0)) =
     replicate 2 (zero_worker 12 (team_at 1 1 (- 1)) (focal_1 2) (int n + 2) False 2)"
    by (simp only: init_cohort_zero one_focal_two_workers_run)
next
  have "simulation 4 3 5 (replicate 2 (zero_worker 12 (team_at 1 1 (- 1)) (focal_1 0) 0 False 0)) =
      simulation 4 3 5 (replicate 2 (zero_worker 12 (team_at 1 1 0) (focal_1 2) 1 False 0))"
    by (simp only: simulation_zero_goes_on[OF zero_less_numeral zero_less_numeral]
        one_focal_two_workers(1))
  also have "\<dots> = Some (replicate 2 (zero_worker 12 (team_at 1 1 (- 1)) (focal_1 2) 5 False 2))"
    by (rule one_focal_two_workers_simulation) simp_all
  finally show "simulation 4 3 5 (init_cohort 4 3 2 (team_at 1 1 (- 1)) (focal_1 0)) =
     Some (replicate 2 (zero_worker 12 (team_at 1 1 (- 1)) (focal_1 2) 5 False 2))"
    by (simp only: init_cohort_zero)
next
  have ne: "(1::int) \<noteq> 0" by simp
  show "(outer_iteration 4 3 ^^ 2) (init_cohort 4 3 1 (team_at 1 1 (- 1)) (focal_1 0)) =
     replicate 1 (zero_worker 18 (team_at 1 1 (- 1)) (focal_1 2) 2 True 1)"
    using one_focal_one_worker(2)[OF ne, of 0 0]
    by (simp only: init_cohort_zero funpow_2 one_focal_one_worker(1)) simp
next
  have ne: "(1::int) \<noteq> 0" by simp
  have "simulation 4 3 5 (replicate 1 (zero_worker 18 (team_at 1 1 (- 1)) (focal_1 0) 0 False 0)) =
      simulation 4 3 5 (replicate 1 (zero_worker 18 (team_at 1 1 0) (focal_1 2) 1 False 0))"
    by (simp only: simulation_zero_goes_on[OF zero_less_one zero_less_numeral]
        one_focal_one_worker(1))
  also have "\<dots> = simulation 4 3 5
      (replicate 1 (zero_worker 18 (team_at 1 1 (- 1)) (focal_1 2) (1 + 1) True 1))"
    using simulation_zero_goes_on[OF zero_less_one, of 1 5 4 3 18 "team_at 1 1 0" "focal_1 2" 0]
    by (simp only: one_focal_one_worker(2)[OF ne])
  also have "\<dots> = Some (replicate 1 (zero_worker 18 (team_at 1 1 (- 1)) (focal_1 2) (1 + 1) True 1))"
    by (rule simulation_zero_stops) simp_all
  finally show "simulation 4 3 5 (init_cohort 4 3 1 (team_at 1 1 (- 1)) (focal_1 0)) =
     Some (replicate 1 (zero_worker 18 (team_at 1 1 (- 1)) (focal_1 2) 2 True 1))"
    by (simp only: init_cohort_zero) simp
qed


section \<open>The count that enters the stability test\<close>

text \<open>
  Claim C10.  The count of deactivated focal points is taken by the activation loop at
  the start of the outer iteration, so the flag should never be set in the outer
  iteration in which the last focal point is deactivated.  On the input
  \<open>4 3 5 1 1 1 1 2 1 1 0 0 2 2 0 0\<close> with two workers (one team on the first focal point,
  a second focal point one diagonal step away, heat 0): the first outer iteration
  deactivates the first focal point; the second outer iteration starts with one of two
  focal points deactivated, reduces the count to 2, sets the flag, and only then moves the
  team onto the second focal point and deactivates it.  The loop ends with \<open>iter = 2\<close>.
\<close>

theorem flag_set_as_count_reaches_total:
  "outer_iteration 4 3 (init_cohort 4 3 2 (team_at 1 1 (- 1)) (focal_2 0 0)) =
     replicate 2 (zero_worker 12 (team_at 1 1 0) (focal_2 2 1) 1 False 0)
   \<and> outer_iteration 4 3 (replicate 2 (zero_worker 12 (team_at 1 1 0) (focal_2 2 1) 1 False 0)) =
     replicate 2 (zero_worker 12 (team_at 2 2 1) (focal_2 2 2) 2 True 2)
   \<and> simulation 4 3 5 (init_cohort 4 3 2 (team_at 1 1 (- 1)) (focal_2 0 0)) =
     Some (replicate 2 (zero_worker 12 (team_at 2 2 1) (focal_2 2 2) 2 True 2))"
proof (intro conjI)
  show "outer_iteration 4 3 (init_cohort 4 3 2 (team_at 1 1 (- 1)) (focal_2 0 0)) =
     replicate 2 (zero_worker 12 (team_at 1 1 0) (focal_2 2 1) 1 False 0)"
    by (simp only: init_cohort_zero two_focal_two_workers(1))
next
  have ne: "(1::int) \<noteq> 0" by simp
  show "outer_iteration 4 3 (replicate 2 (zero_worker 12 (team_at 1 1 0) (focal_2 2 1) 1 False 0)) =
     replicate 2 (zero_worker 12 (team_at 2 2 1) (focal_2 2 2) 2 True 2)"
    using two_focal_two_workers(2)[OF ne, of 0 0] by simp
next
  have ne: "(1::int) \<noteq> 0" by simp
  have "simulation 4 3 5 (replicate 2 (zero_worker 12 (team_at 1 1 (- 1)) (focal_2 0 0) 0 False 0)) =
      simulation 4 3 5 (replicate 2 (zero_worker 12 (team_at 1 1 0) (focal_2 2 1) 1 False 0))"
    by (simp only: simulation_zero_goes_on[OF zero_less_numeral zero_less_numeral]
        two_focal_two_workers(1))
  also have "\<dots> = simulation 4 3 5 (outer_iteration 4 3
      (replicate 2 (zero_worker 12 (team_at 1 1 0) (focal_2 2 1) 1 False 0)))"
    by (rule simulation_zero_goes_on) simp_all
  also have "\<dots> = simulation 4 3 5
      (replicate 2 (zero_worker 12 (team_at 2 2 1) (focal_2 2 2) (1 + 1) True 2))"
    by (simp only: two_focal_two_workers(2)[OF ne])
  also have "\<dots> = Some (replicate 2 (zero_worker 12 (team_at 2 2 1) (focal_2 2 2) (1 + 1) True 2))"
    by (rule simulation_zero_stops) simp_all
  finally show "simulation 4 3 5 (init_cohort 4 3 2 (team_at 1 1 (- 1)) (focal_2 0 0)) =
     Some (replicate 2 (zero_worker 12 (team_at 2 2 1) (focal_2 2 2) 2 True 2))"
    by (simp only: init_cohort_zero) simp
qed

end
